(* ===== verification/Prelude.thy ===== *)
theory Prelude
  imports Main "HOL-Library.Word"
begin

text \<open>
  Shared vocabulary of the development: the machine integers of the C code, the outcome
  type of code that may dereference a bad pointer, byte-addressed user memory, and the
  little-endian encoding of integers that crosses the user/kernel boundary.

  The generic lemmas of this theory are declared \<open>[simp]\<close> or collected in
  \<open>bytes_simps\<close>, so that the component theories carry their proofs by
  \<open>simp add: bytes_simps\<close>.
\<close>

named_theorems bytes_simps \<open>lengths and round trips of byte encodings\<close>

named_theorems table_defs \<open>definitions of the two growing tables\<close>

named_theorems cdev_defs \<open>definitions of the character-device handlers\<close>

named_theorems server_defs \<open>definitions of the user-space server\<close>

subsection \<open>Machine integers\<close>

type_synonym u8 = "8 word"

type_synonym u32 = "32 word"

type_synonym u64 = "64 word"

type_synonym u128 = "128 word"

text \<open>Conversion of a wider integer to a C \<open>int\<close> (two's complement, 32 bits).\<close>

definition s32 :: "int \<Rightarrow> int" where
  "s32 n = signed_take_bit 31 n"

lemma s32_id [simp]: "- (2 ^ 31) \<le> n \<Longrightarrow> n < 2 ^ 31 \<Longrightarrow> s32 n = n"
  by (simp add: s32_def signed_take_bit_int_eq_self)

lemma s32_range: "- (2 ^ 31) \<le> s32 n \<and> s32 n < 2 ^ 31"
  using signed_take_bit_int_greater_eq_minus_exp [of 31 n] signed_take_bit_int_less_exp [of 31 n]
  by (simp add: s32_def)

lemma s32_mod: "s32 n mod 2 ^ 32 = n mod 2 ^ 32"
proof -
  have "take_bit (Suc 31) (signed_take_bit 31 n) = take_bit (Suc 31) n"
    by (rule take_bit_signed_take_bit) simp
  then show ?thesis
    by (simp add: s32_def take_bit_eq_mod)
qed

lemma s32_eq_0_iff: "0 \<le> n \<Longrightarrow> n < 2 ^ 32 \<Longrightarrow> s32 n = 0 \<longleftrightarrow> n = 0"
  using s32_mod [of n] by (auto simp: s32_def)

lemma s32_neg_eq_0: "s32 (- s32 n) = 0 \<Longrightarrow> s32 n = 0"
proof -
  assume "s32 (- s32 n) = 0"
  with s32_mod [of "- s32 n"] have "(- s32 n) mod 4294967296 = 0" by simp
  then have dvd: "4294967296 dvd s32 n"
    using dvd_minus_iff mod_0_imp_dvd by blast
  have "\<bar>s32 n\<bar> < 4294967296"
    using s32_range [of n] by (simp add: abs_if)
  with dvd show ?thesis
    using dvd_imp_le_int [of "s32 n" 4294967296] by fastforce
qed

subsection \<open>Code that may fault\<close>

text \<open>
  Every operation that follows a pointer either returns (\<open>Ret\<close>) or faults
  (\<open>Crash\<close>, with what the access was). Error codes are ordinary return values.
\<close>

datatype fault = NullDeref | BadPointer | UseAfterFree | OutOfBounds

datatype 'a exec = Ret 'a | Crash fault

primrec exec_bind :: "'a exec \<Rightarrow> ('a \<Rightarrow> 'b exec) \<Rightarrow> 'b exec" where
  "exec_bind (Ret x) f = f x"
| "exec_bind (Crash e) f = Crash e"

lemma exec_bind_eq_Ret_iff:
  "exec_bind m f = Ret y \<longleftrightarrow> (\<exists>x. m = Ret x \<and> f x = Ret y)"
  by (cases m) auto

lemma exec_bind_assoc: "exec_bind (exec_bind m f) g = exec_bind m (\<lambda>x. exec_bind (f x) g)"
  by (cases m) auto

lemma exec_bind_cong: "(\<And>x. m = Ret x \<Longrightarrow> f x = g x) \<Longrightarrow> exec_bind m f = exec_bind m g"
  by (cases m) auto

lemma exec_bind_split:
  "P (exec_bind m f) \<longleftrightarrow> (\<forall>x. m = Ret x \<longrightarrow> P (f x)) \<and> (\<forall>e. m = Crash e \<longrightarrow> P (Crash e))"
  by (cases m) auto

lemma exec_bind_split_asm:
  "P (exec_bind m f) \<longleftrightarrow> \<not> ((\<exists>x. m = Ret x \<and> \<not> P (f x)) \<or> (\<exists>e. m = Crash e \<and> \<not> P (Crash e)))"
  by (cases m) auto

lemmas exec_bind_splits = exec_bind_split exec_bind_split_asm

subsection \<open>Index ranges\<close>

text \<open>A scan over all indices, split at the index it stops at.\<close>

lemma find_snoc:
  "find P (xs @ [x]) = (case find P xs of None \<Rightarrow> if P x then Some x else None | Some y \<Rightarrow> Some y)"
  by (induction xs) auto

lemma upt_split: "i < n \<Longrightarrow> [0..<n] = [0..<i] @ i # [Suc i..<n]"
  using upt_add_eq_append [of 0 i "n - i"] by (simp add: upt_conv_Cons)

subsection \<open>Little-endian integers\<close>

primrec le_bytes :: "nat \<Rightarrow> nat \<Rightarrow> u8 list" where
  "le_bytes 0 n = []"
| "le_bytes (Suc k) n = word_of_nat (n mod 256) # le_bytes k (n div 256)"

primrec le_nat :: "u8 list \<Rightarrow> nat" where
  "le_nat [] = 0"
| "le_nat (b # bs) = unat b + 256 * le_nat bs"

lemma length_le_bytes [simp]: "length (le_bytes k n) = k"
  by (induction k arbitrary: n) auto

lemma le_nat_le_bytes: "le_nat (le_bytes k n) = n mod 256 ^ k"
proof (induction k arbitrary: n)
  case 0
  then show ?case by simp
next
  case (Suc k)
  have "n mod 256 ^ Suc k = n mod 256 + 256 * (n div 256 mod 256 ^ k)"
    by (simp add: mod_mult2_eq)
  moreover have "unat (word_of_nat (n mod 256) :: u8) = n mod 256"
    by (simp add: unat_of_nat)
  ultimately show ?case
    by (simp add: Suc.IH)
qed

lemma le_nat_less: "le_nat bs < 256 ^ length bs"
proof (induction bs)
  case Nil
  then show ?case by simp
next
  case (Cons b bs)
  have "unat b < 256"
    using unsigned_less [of b, where 'a = nat] by simp
  with Cons.IH show ?case by simp
qed

lemma le_bytes_le_nat: "le_bytes (length bs) (le_nat bs) = bs"
proof (induction bs)
  case Nil
  then show ?case by simp
next
  case (Cons b bs)
  have "unat b < 256"
    using unsigned_less [of b, where 'a = nat] by simp
  with Cons.IH show ?case by simp
qed

definition enc_u32 :: "u32 \<Rightarrow> u8 list" where
  "enc_u32 w = le_bytes 4 (unat w)"

definition enc_u64 :: "u64 \<Rightarrow> u8 list" where
  "enc_u64 w = le_bytes 8 (unat w)"

definition enc_u128 :: "u128 \<Rightarrow> u8 list" where
  "enc_u128 w = le_bytes 16 (unat w)"

definition dec_u32 :: "u8 list \<Rightarrow> u32" where
  "dec_u32 bs = word_of_nat (le_nat bs)"

definition dec_u64 :: "u8 list \<Rightarrow> u64" where
  "dec_u64 bs = word_of_nat (le_nat bs)"

definition dec_u128 :: "u8 list \<Rightarrow> u128" where
  "dec_u128 bs = word_of_nat (le_nat bs)"

lemma length_enc [simp, bytes_simps]:
  "length (enc_u32 a) = 4" "length (enc_u64 b) = 8" "length (enc_u128 c) = 16"
  by (simp_all add: enc_u32_def enc_u64_def enc_u128_def)

lemma dec_enc_u32 [simp, bytes_simps]: "dec_u32 (enc_u32 w) = w"
  using unsigned_less [of w, where 'a = nat] by (simp add: dec_u32_def enc_u32_def le_nat_le_bytes)

lemma dec_enc_u64 [simp, bytes_simps]: "dec_u64 (enc_u64 w) = w"
  using unsigned_less [of w, where 'a = nat] by (simp add: dec_u64_def enc_u64_def le_nat_le_bytes)

lemma dec_enc_u128 [simp, bytes_simps]: "dec_u128 (enc_u128 w) = w"
  using unsigned_less [of w, where 'a = nat] by (simp add: dec_u128_def enc_u128_def le_nat_le_bytes)

subsection \<open>User memory\<close>

type_synonym umem = "u64 \<Rightarrow> u8"

definition umem_write :: "umem \<Rightarrow> u64 \<Rightarrow> u8 list \<Rightarrow> umem" where
  "umem_write m a bs =
     (\<lambda>x. if unat (x - a) < length bs then bs ! unat (x - a) else m x)"

definition umem_read :: "umem \<Rightarrow> u64 \<Rightarrow> nat \<Rightarrow> u8 list" where
  "umem_read m a n = map (\<lambda>i. m (a + word_of_nat i)) [0..<n]"

lemma length_umem_read [simp, bytes_simps]: "length (umem_read m a n) = n"
  by (simp add: umem_read_def)

lemma umem_read_write [simp]:
  assumes "length bs \<le> 2 ^ 64"
  shows "umem_read (umem_write m a bs) a (length bs) = bs"
proof (rule nth_equalityI)
  fix i
  assume "i < length (umem_read (umem_write m a bs) a (length bs))"
  then have "i < length bs" by simp
  moreover from this assms have "unat (word_of_nat i :: u64) = i"
    by (simp add: unat_of_nat)
  ultimately show "umem_read (umem_write m a bs) a (length bs) ! i = bs ! i"
    by (simp add: umem_read_def umem_write_def)
qed simp

lemma umem_read_write_prefix:
  assumes "length bs \<le> 2 ^ 64" and "n \<le> length bs"
  shows "umem_read (umem_write m a bs) a n = take n bs"
proof -
  have "umem_read (umem_write m a bs) a n
      = take n (umem_read (umem_write m a bs) a (length bs))"
    using assms(2) by (simp add: umem_read_def take_map)
  then show ?thesis
    using assms(1) by simp
qed

lemma umem_write_other: "length bs \<le> unat (x - a) \<Longrightarrow> umem_write m a bs x = m x"
  by (simp add: umem_write_def)

end
