(* ===== verification/Table_Interface.thy ===== *)
theory Table_Interface
  imports Prelude
begin

text \<open>
  The contract of the tables of the program. Both the proxy module's \<open>module_table\<close>
  and the server's \<open>uuid_table\<close> grow at the end only (\<open>append_table\<close>); the proxy's
  table is also a queue with a read position (\<open>table_queue\<close>). An operation takes what
  the allocator answered as its first argument; \<open>put_ok\<close> says that this answer lets
  the operation succeed. The lemmas of the two locales are the clients' view: sequences
  of insertions append in order, and draining the queue returns exactly the entries not
  yet taken, oldest first.
\<close>

primrec run_puts :: "('e \<Rightarrow> 'x \<Rightarrow> 's \<Rightarrow> (int \<times> 's) exec) \<Rightarrow> ('e \<times> 'x) list \<Rightarrow> 's \<Rightarrow> 's exec" where
  "run_puts put [] s = Ret s"
| "run_puts put (ex # exs) s =
     exec_bind (put (fst ex) (snd ex) s) (\<lambda>(r, s'). run_puts put exs s')"

primrec puts_ok :: "('e \<Rightarrow> 'x \<Rightarrow> 's \<Rightarrow> (int \<times> 's) exec) \<Rightarrow> ('e \<Rightarrow> 's \<Rightarrow> bool) \<Rightarrow>
    ('e \<times> 'x) list \<Rightarrow> 's \<Rightarrow> bool" where
  "puts_ok put ok [] s = True"
| "puts_ok put ok (ex # exs) s =
     (ok (fst ex) s \<and>
      (case put (fst ex) (snd ex) s of
         Ret (r, s') \<Rightarrow> puts_ok put ok exs s'
       | Crash e \<Rightarrow> False))"

primrec pop_n :: "('s \<Rightarrow> 'p \<times> 's) \<Rightarrow> ('s \<Rightarrow> 'p \<Rightarrow> 'x exec) \<Rightarrow> 'p \<Rightarrow> nat \<Rightarrow> 's \<Rightarrow>
    ('x list \<times> 's) exec" where
  "pop_n pop deref null 0 s = Ret ([], s)"
| "pop_n pop deref null (Suc n) s =
     (case pop s of (p, s') \<Rightarrow>
        if p = null then Ret ([], s')
        else exec_bind (deref s' p) (\<lambda>x.
               exec_bind (pop_n pop deref null n s') (\<lambda>(xs, s''). Ret (x # xs, s''))))"

locale append_table =
  fixes put :: "'e \<Rightarrow> 'x \<Rightarrow> 's \<Rightarrow> (int \<times> 's) exec"
    and put_ok :: "'e \<Rightarrow> 's \<Rightarrow> bool"
    and entries :: "'s \<Rightarrow> 'x list"
    and inv :: "'s \<Rightarrow> bool"
  assumes put_append:
    "inv s \<Longrightarrow> put_ok e s \<Longrightarrow>
       \<exists>s'. put e x s = Ret (0, s') \<and> inv s' \<and> entries s' = entries s @ [x]"
begin

lemma run_puts_append:
  "inv s \<Longrightarrow> puts_ok put put_ok exs s \<Longrightarrow>
     \<exists>s'. run_puts put exs s = Ret s' \<and> inv s' \<and> entries s' = entries s @ map snd exs"
proof (induction exs arbitrary: s)
  case Nil
  then show ?case by simp
next
  case (Cons ex exs)
  from Cons.prems obtain s1 where s1: "put (fst ex) (snd ex) s = Ret (0, s1)" "inv s1"
      "entries s1 = entries s @ [snd ex]"
    using put_append [of s "fst ex" "snd ex"] by auto
  from Cons.prems(2) s1(1) have "puts_ok put put_ok exs s1" by simp
  from Cons.IH [OF s1(2) this] s1 show ?case by auto
qed

lemma put_length:
  "inv s \<Longrightarrow> put_ok e s \<Longrightarrow> put e x s = Ret (r, s') \<Longrightarrow>
     r = 0 \<and> length (entries s') = Suc (length (entries s))"
  using put_append [of s e x] by auto

end

locale table_queue = append_table put put_ok entries inv
  for put :: "'e \<Rightarrow> 'x \<Rightarrow> 's \<Rightarrow> (int \<times> 's) exec"
    and put_ok :: "'e \<Rightarrow> 's \<Rightarrow> bool"
    and entries :: "'s \<Rightarrow> 'x list"
    and inv :: "'s \<Rightarrow> bool" +
  fixes pop :: "'s \<Rightarrow> 'p \<times> 's"
    and deref :: "'s \<Rightarrow> 'p \<Rightarrow> 'x exec"
    and null :: 'p
    and popped :: "'s \<Rightarrow> nat"
  assumes put_popped: "inv s \<Longrightarrow> put e x s = Ret (r, s') \<Longrightarrow> popped s' = popped s"
    and popped_le: "inv s \<Longrightarrow> popped s \<le> length (entries s)"
    and pop_empty: "inv s \<Longrightarrow> popped s = length (entries s) \<Longrightarrow> pop s = (null, s)"
    and pop_next:
      "inv s \<Longrightarrow> popped s < length (entries s) \<Longrightarrow>
         \<exists>p s'. pop s = (p, s') \<and> p \<noteq> null \<and> deref s' p = Ret (entries s ! popped s) \<and>
                inv s' \<and> entries s' = entries s \<and> popped s' = Suc (popped s)"
begin

lemma pop_n_drains:
  assumes "inv s" and "length (entries s) - popped s < n"
  shows "\<exists>s'. pop_n pop deref null n s = Ret (drop (popped s) (entries s), s') \<and>
           inv s' \<and> entries s' = entries s \<and> popped s' = length (entries s)"
  using assms
proof (induction n arbitrary: s)
  case 0
  then show ?case by simp
next
  case (Suc n)
  show ?case
  proof (cases "popped s = length (entries s)")
    case True
    with Suc.prems show ?thesis by (simp add: pop_empty)
  next
    case False
    with popped_le [OF Suc.prems(1)] have lt: "popped s < length (entries s)" by simp
    from pop_next [OF Suc.prems(1) lt] obtain p s1 where p: "pop s = (p, s1)" "p \<noteq> null"
        "deref s1 p = Ret (entries s ! popped s)" "inv s1" "entries s1 = entries s"
        "popped s1 = Suc (popped s)"
      by blast
    from lt Suc.prems(2) have "length (entries s) - Suc (popped s) < n" by arith
    with Suc.IH [of s1] p obtain s2 where
        "pop_n pop deref null n s1 = Ret (drop (Suc (popped s)) (entries s), s2)" "inv s2"
        "entries s2 = entries s" "popped s2 = length (entries s)"
      by auto
    with p lt show ?thesis by (simp add: Cons_nth_drop_Suc)
  qed
qed

lemma run_puts_popped:
  "inv s \<Longrightarrow> puts_ok put put_ok exs s \<Longrightarrow> run_puts put exs s = Ret s' \<Longrightarrow>
     popped s' = popped s"
proof (induction exs arbitrary: s)
  case Nil
  then show ?case by simp
next
  case (Cons ex exs)
  from Cons.prems obtain s1 where s1: "put (fst ex) (snd ex) s = Ret (0, s1)" "inv s1"
    using put_append [of s "fst ex" "snd ex"] by auto
  with Cons.prems put_popped [OF Cons.prems(1) s1(1)] Cons.IH [of s1] show ?case by simp
qed

lemma puts_then_drain:
  assumes "inv s" and "puts_ok put put_ok exs s"
    and "length (entries s) - popped s + length exs < n"
  shows "\<exists>s1 s2. run_puts put exs s = Ret s1 \<and>
           pop_n pop deref null n s1 = Ret (drop (popped s) (entries s) @ map snd exs, s2) \<and>
           inv s2 \<and> popped s2 = length (entries s2)"
proof -
  from run_puts_append [OF assms(1,2)] obtain s1 where s1: "run_puts put exs s = Ret s1"
      "inv s1" "entries s1 = entries s @ map snd exs"
    by blast
  have p: "popped s1 = popped s"
    by (rule run_puts_popped [OF assms(1,2) s1(1)])
  have "popped s \<le> length (entries s)"
    by (rule popped_le [OF assms(1)])
  with pop_n_drains [OF s1(2), of n] assms(3) p s1 show ?thesis
    by auto
qed

end

end
