(* ===== verification/Protocol.thy ===== *)
theory Protocol
  imports Prelude
begin

text \<open>
  The data that crosses the boundary between the proxy module in the kernel and the
  server in user space: the request numbers of \<open>chardev.h\<close>, \<open>struct module_layout\<close>
  (\<open>kernel-includes.h\<close>), \<open>vm_memory\<close> (\<open>vm-memory.h\<close>) and \<open>packet\<close>
  (\<open>protocol.h\<close>), with their byte images (x86-64, little-endian, natural alignment).
  The lemmas show that each image has the size the code passes to \<open>ioctl\<close> and
  \<open>write\<close>, that decoding inverts encoding, and that the six request numbers differ.
\<close>

unbundle bit_operations_syntax

subsection \<open>Request numbers (chardev.h)\<close>

text \<open>The expansion of \<open>_IOC\<close>: direction, type (the major number), number, size.\<close>

definition ioc :: "u32 \<Rightarrow> int \<Rightarrow> u32 \<Rightarrow> u32 \<Rightarrow> u32" where
  "ioc dir type nr sz =
     push_bit 30 dir OR push_bit 8 (word_of_int type) OR nr OR push_bit 16 sz"

definition kvm_host_server_register :: "int \<Rightarrow> u32" where
  "kvm_host_server_register major = ioc 3 major 1 4"

definition kvm_host_server_de_register :: "int \<Rightarrow> u32" where
  "kvm_host_server_de_register major = ioc 0 major 2 0"

definition kvm_host_server_get_pending_module :: "int \<Rightarrow> u32" where
  "kvm_host_server_get_pending_module major = ioc 3 major 3 8"

definition kvm_host_server_get_uuid_size :: "int \<Rightarrow> u32" where
  "kvm_host_server_get_uuid_size major = ioc 3 major 4 8"

definition kvm_host_server_get_init_layout :: "int \<Rightarrow> u32" where
  "kvm_host_server_get_init_layout major = ioc 3 major 5 8"

definition kvm_host_server_get_core_layout :: "int \<Rightarrow> u32" where
  "kvm_host_server_get_core_layout major = ioc 3 major 6 8"

lemmas ioctl_numbers =
  kvm_host_server_register_def kvm_host_server_de_register_def
  kvm_host_server_get_pending_module_def kvm_host_server_get_uuid_size_def
  kvm_host_server_get_init_layout_def kvm_host_server_get_core_layout_def

lemma ioc_low_byte: "take_bit 8 (ioc d t n s) = take_bit 8 n"
  by (simp add: ioc_def take_bit_push_bit)

lemma ioc_neq: "take_bit 8 n \<noteq> take_bit 8 n' \<Longrightarrow> ioc d t n s \<noteq> ioc d' t' n' s'"
  by (metis ioc_low_byte)

text \<open>Two different requests of \<open>chardev.h\<close> never share a number, whatever the two
  majors are.\<close>

lemma ioctl_numbers_neq [simp]:
  "kvm_host_server_register m \<noteq> kvm_host_server_de_register m'"
  "kvm_host_server_register m \<noteq> kvm_host_server_get_pending_module m'"
  "kvm_host_server_register m \<noteq> kvm_host_server_get_uuid_size m'"
  "kvm_host_server_register m \<noteq> kvm_host_server_get_init_layout m'"
  "kvm_host_server_register m \<noteq> kvm_host_server_get_core_layout m'"
  "kvm_host_server_de_register m \<noteq> kvm_host_server_get_pending_module m'"
  "kvm_host_server_de_register m \<noteq> kvm_host_server_get_uuid_size m'"
  "kvm_host_server_de_register m \<noteq> kvm_host_server_get_init_layout m'"
  "kvm_host_server_de_register m \<noteq> kvm_host_server_get_core_layout m'"
  "kvm_host_server_get_pending_module m \<noteq> kvm_host_server_get_uuid_size m'"
  "kvm_host_server_get_pending_module m \<noteq> kvm_host_server_get_init_layout m'"
  "kvm_host_server_get_pending_module m \<noteq> kvm_host_server_get_core_layout m'"
  "kvm_host_server_get_uuid_size m \<noteq> kvm_host_server_get_init_layout m'"
  "kvm_host_server_get_uuid_size m \<noteq> kvm_host_server_get_core_layout m'"
  "kvm_host_server_get_init_layout m \<noteq> kvm_host_server_get_core_layout m'"
  unfolding ioctl_numbers by (rule ioc_neq, simp add: take_bit_eq_mod)+

subsection \<open>Structures (kernel-includes.h, vm-memory.h, protocol.h)\<close>

text \<open>
  \<open>struct module_layout\<close>: what follows \<open>ro_size\<close> (the kernel's \<open>mtn\<close>, the
  server's \<open>buff\<close>, and padding) is opaque to both sides and kept as bytes.
\<close>

record module_layout =
  ml_base :: u64
  ml_size :: u32
  ml_text_size :: u32
  ml_ro_size :: u32
  ml_rest :: "u8 list"

text \<open>The fields of \<open>struct kvm_userspace_memory_region\<close>.\<close>

record kvm_region =
  slot :: u32
  flags :: u32
  guest_phys_addr :: u64
  memory_size :: u64
  userspace_addr :: u64

record vm_memory =
  region_IDT :: kvm_region
  region_init :: kvm_region
  region_core :: kvm_region
  num_regions :: int
  base_IDT :: u64
  size_IDT :: u32
  core_layout :: module_layout
  init_layout :: module_layout

record packet =
  pk_uuid :: u128
  pk_memory :: vm_memory

definition sizeof_module_layout :: nat where
  "sizeof_module_layout = 80"

definition sizeof_packet :: nat where
  "sizeof_packet = 304"

subsection \<open>Byte images\<close>

definition slice :: "nat \<Rightarrow> nat \<Rightarrow> u8 list \<Rightarrow> u8 list" where
  "slice off n bs = take n (drop off bs)"

lemma slice_append [simp, bytes_simps]:
  "slice off n (xs @ ys) =
     (if off + n \<le> length xs then slice off n xs
      else slice off n xs @ slice (off - length xs) (n - (length xs - off)) ys)"
  by (auto simp: slice_def)

lemma slice_0_all [bytes_simps]: "length xs \<le> n \<Longrightarrow> slice 0 n xs = xs"
  by (simp add: slice_def)

lemma slice_beyond [bytes_simps]: "length xs \<le> off \<Longrightarrow> slice off n xs = []"
  by (simp add: slice_def)

definition enc_layout :: "module_layout \<Rightarrow> u8 list" where
  "enc_layout l =
     enc_u64 (ml_base l) @ enc_u32 (ml_size l) @ enc_u32 (ml_text_size l) @
     enc_u32 (ml_ro_size l) @ ml_rest l"

definition dec_layout :: "u8 list \<Rightarrow> module_layout" where
  "dec_layout bs = \<lparr>
     ml_base = dec_u64 (slice 0 8 bs),
     ml_size = dec_u32 (slice 8 4 bs),
     ml_text_size = dec_u32 (slice 12 4 bs),
     ml_ro_size = dec_u32 (slice 16 4 bs),
     ml_rest = slice 20 60 bs\<rparr>"

definition layout_ok :: "module_layout \<Rightarrow> bool" where
  "layout_ok l \<longleftrightarrow> length (ml_rest l) = 60"

lemma length_enc_layout [bytes_simps]: "layout_ok l \<Longrightarrow> length (enc_layout l) = sizeof_module_layout"
  by (simp add: enc_layout_def layout_ok_def sizeof_module_layout_def)

lemma dec_enc_layout [bytes_simps]: "layout_ok l \<Longrightarrow> dec_layout (enc_layout l) = l"
  by (simp add: dec_layout_def enc_layout_def layout_ok_def slice_0_all slice_beyond)

definition enc_region :: "kvm_region \<Rightarrow> u8 list" where
  "enc_region r =
     enc_u32 (slot r) @ enc_u32 (flags r) @ enc_u64 (guest_phys_addr r) @
     enc_u64 (memory_size r) @ enc_u64 (userspace_addr r)"

definition dec_region :: "u8 list \<Rightarrow> kvm_region" where
  "dec_region bs = \<lparr>
     slot = dec_u32 (slice 0 4 bs),
     flags = dec_u32 (slice 4 4 bs),
     guest_phys_addr = dec_u64 (slice 8 8 bs),
     memory_size = dec_u64 (slice 16 8 bs),
     userspace_addr = dec_u64 (slice 24 8 bs)\<rparr>"

lemma length_enc_region [simp, bytes_simps]: "length (enc_region r) = 32"
  by (simp add: enc_region_def)

lemma dec_enc_region [simp, bytes_simps]: "dec_region (enc_region r) = r"
  by (simp add: dec_region_def enc_region_def slice_0_all slice_beyond)

text \<open>Padding after \<open>num_regions\<close>, after \<open>size_IDT\<close> and at the end of the
  16-byte aligned packet is never read; its image is zero.\<close>

definition pad :: "nat \<Rightarrow> u8 list" where
  "pad n = replicate n 0"

lemma length_pad [simp, bytes_simps]: "length (pad n) = n"
  by (simp add: pad_def)

definition enc_vm_memory :: "vm_memory \<Rightarrow> u8 list" where
  "enc_vm_memory m =
     enc_region (region_IDT m) @ enc_region (region_init m) @ enc_region (region_core m) @
     enc_u32 (word_of_int (num_regions m)) @ pad 4 @ enc_u64 (base_IDT m) @
     enc_u32 (size_IDT m) @ pad 4 @ enc_layout (core_layout m) @ enc_layout (init_layout m)"

definition dec_vm_memory :: "u8 list \<Rightarrow> vm_memory" where
  "dec_vm_memory bs = \<lparr>
     region_IDT = dec_region (slice 0 32 bs),
     region_init = dec_region (slice 32 32 bs),
     region_core = dec_region (slice 64 32 bs),
     num_regions = sint (dec_u32 (slice 96 4 bs)),
     base_IDT = dec_u64 (slice 104 8 bs),
     size_IDT = dec_u32 (slice 112 4 bs),
     core_layout = dec_layout (slice 120 80 bs),
     init_layout = dec_layout (slice 200 80 bs)\<rparr>"

definition vm_memory_ok :: "vm_memory \<Rightarrow> bool" where
  "vm_memory_ok m \<longleftrightarrow>
     layout_ok (core_layout m) \<and> layout_ok (init_layout m) \<and>
     - (2 ^ 31) \<le> num_regions m \<and> num_regions m < 2 ^ 31"

lemma length_enc_vm_memory [bytes_simps]: "vm_memory_ok m \<Longrightarrow> length (enc_vm_memory m) = 280"
  by (simp add: enc_vm_memory_def vm_memory_ok_def length_enc_layout sizeof_module_layout_def)

lemma sint_word_of_int_u32:
  "- (2 ^ 31) \<le> n \<Longrightarrow> n < 2 ^ 31 \<Longrightarrow> sint (word_of_int n :: u32) = n"
  by (simp add: signed_of_int signed_take_bit_int_eq_self)

lemma dec_enc_vm_memory [bytes_simps]:
  assumes "vm_memory_ok m"
  shows "dec_vm_memory (enc_vm_memory m) = m"
proof -
  from assms have ok: "layout_ok (core_layout m)" "layout_ok (init_layout m)"
    and rng: "- (2 ^ 31) \<le> num_regions m" "num_regions m < 2 ^ 31"
    by (simp_all add: vm_memory_ok_def)
  from ok have len: "length (enc_layout (core_layout m)) = 80"
      "length (enc_layout (init_layout m)) = 80"
    by (simp_all add: length_enc_layout sizeof_module_layout_def)
  have num: "sint (word_of_int (num_regions m) :: u32) = num_regions m"
    using rng by (rule sint_word_of_int_u32)
  show ?thesis
    by (simp add: dec_vm_memory_def enc_vm_memory_def slice_0_all slice_beyond len num
        dec_enc_layout [OF ok(1)] dec_enc_layout [OF ok(2)])
qed

definition enc_packet :: "packet \<Rightarrow> u8 list" where
  "enc_packet p = enc_u128 (pk_uuid p) @ enc_vm_memory (pk_memory p) @ pad 8"

definition dec_packet :: "u8 list \<Rightarrow> packet" where
  "dec_packet bs = \<lparr>
     pk_uuid = dec_u128 (slice 0 16 bs),
     pk_memory = dec_vm_memory (slice 16 280 bs)\<rparr>"

lemma length_enc_packet [bytes_simps]:
  "vm_memory_ok (pk_memory p) \<Longrightarrow> length (enc_packet p) = sizeof_packet"
  by (simp add: enc_packet_def sizeof_packet_def length_enc_vm_memory)

lemma dec_enc_packet [bytes_simps]:
  "vm_memory_ok (pk_memory p) \<Longrightarrow> dec_packet (enc_packet p) = p"
  by (simp add: dec_packet_def enc_packet_def slice_0_all slice_beyond length_enc_vm_memory
      dec_enc_vm_memory)

end
