(* ===== verification/Module_Table.thy ===== *)
theory Module_Table
  imports Table_Interface Protocol
begin

text \<open>
  The module table of \<open>lxc-uio-proxy.c\<close>: the array \<open>module_table\<close> of the modules a
  container asked to insert, its capacity \<open>table_size\<close>, its fill level
  \<open>table_num_entries\<close> and the read position \<open>table_index\<close>. The array is a
  kmalloc block with a capacity and arbitrary initial contents. The answer of
  \<open>kmalloc\<close> and \<open>krealloc\<close> is an argument: \<open>None\<close> is \<open>NULL\<close>, otherwise the
  contents of the returned block. Every function runs under \<open>table_mutex\<close> and is one
  atomic step.
\<close>

subsection \<open>State\<close>

record module_table_struct =
  mt_uuid :: u128
  mt_nsproxy :: u64
  mt_module :: u64

record mt_block =
  blk_cap :: int
  blk_slot :: "nat \<Rightarrow> module_table_struct"

record mtable =
  module_table :: "mt_block option"
  table_size :: int
  table_num_entries :: int
  table_index :: int

text \<open>The initialisers of \<open>global-config.h\<close> and \<open>module_table=NULL\<close>.\<close>

definition mtable_init :: mtable where
  "mtable_init =
     \<lparr>module_table = None, table_size = 256, table_num_entries = 0, table_index = -1\<rparr>"

text \<open>The address \<open>&module_table[i]\<close>: null only for index 0 of a null table.\<close>

datatype mt_ptr = MtNull | MtSlot int

definition mt_addr :: "mtable \<Rightarrow> int \<Rightarrow> mt_ptr" where
  "mt_addr t i = (if module_table t = None \<and> i = 0 then MtNull else MtSlot i)"

definition mt_deref :: "mtable \<Rightarrow> mt_ptr \<Rightarrow> module_table_struct exec" where
  "mt_deref t p =
     (case p of
        MtNull \<Rightarrow> Crash NullDeref
      | MtSlot i \<Rightarrow>
          (case module_table t of
             None \<Rightarrow> Crash BadPointer
           | Some b \<Rightarrow> if 0 \<le> i \<and> i < blk_cap b then Ret (blk_slot b (nat i))
                      else Crash OutOfBounds))"

definition ENOMEM :: int where
  "ENOMEM = 12"

subsection \<open>Operations\<close>

definition table_init :: "(nat \<Rightarrow> module_table_struct) option \<Rightarrow> mtable \<Rightarrow> int \<times> mtable" where
  "table_init km t =
     (if module_table t \<noteq> None then (-1, t)
      else case km of
        None \<Rightarrow> (-1, t)
      | Some c \<Rightarrow> (0, t\<lparr>module_table := Some \<lparr>blk_cap = table_size t, blk_slot = c\<rparr>\<rparr>))"

text \<open>The store \<open>module_table[table_num_entries]=mt; table_num_entries++\<close>.\<close>

definition mt_store :: "module_table_struct \<Rightarrow> mtable \<Rightarrow> (int \<times> mtable) exec" where
  "mt_store mt t =
     (case module_table t of
        None \<Rightarrow> Crash NullDeref
      | Some b \<Rightarrow>
          (let n = table_num_entries t in
           if 0 \<le> n \<and> n < blk_cap b
           then Ret (0, t\<lparr>module_table := Some (b\<lparr>blk_slot := (blk_slot b)(nat n := mt)\<rparr>),
                          table_num_entries := n + 1\<rparr>)
           else Crash OutOfBounds))"

definition table_put ::
    "(nat \<Rightarrow> module_table_struct) option \<Rightarrow> module_table_struct \<Rightarrow> mtable \<Rightarrow> (int \<times> mtable) exec"
  where
  "table_put kr mt t =
     (if module_table t = None then Ret (-1, t)
      else if table_num_entries t > table_size t then Ret (- ENOMEM, t)
      else if table_num_entries t = table_size t then
        (case kr of
           None \<Rightarrow> Ret (- ENOMEM, t\<lparr>module_table := None\<rparr>)
         | Some c \<Rightarrow>
             mt_store mt (t\<lparr>module_table := Some \<lparr>blk_cap = 2 * table_size t, blk_slot = c\<rparr>,
                            table_size := 2 * table_size t\<rparr>))
      else mt_store mt t)"

text \<open>The search loop of \<open>table_get_copy\<close>: \<open>acc\<close> is the block being filled.\<close>

primrec get_copy_loop ::
    "mtable \<Rightarrow> u128 \<Rightarrow> module_table_struct \<Rightarrow> nat list \<Rightarrow> module_table_struct exec" where
  "get_copy_loop t uuid acc [] = Ret acc"
| "get_copy_loop t uuid acc (i # is) =
     exec_bind (mt_deref t (mt_addr t (int i))) (\<lambda>x.
       if mt_uuid x = uuid then Ret x else get_copy_loop t uuid acc is)"

definition table_get_copy ::
    "module_table_struct option \<Rightarrow> u128 \<Rightarrow> mtable \<Rightarrow> module_table_struct option exec" where
  "table_get_copy km uuid t =
     (case km of
        None \<Rightarrow> Ret None
      | Some g \<Rightarrow>
          exec_bind (get_copy_loop t uuid g [0..<nat (table_num_entries t)]) (\<lambda>x. Ret (Some x)))"

definition table_pop :: "mtable \<Rightarrow> mt_ptr \<times> mtable" where
  "table_pop t =
     (if table_index t + 1 \<le> table_num_entries t - 1
      then (mt_addr t (table_index t + 1), t\<lparr>table_index := table_index t + 1\<rparr>)
      else (MtNull, t))"

definition table_pop_reverse :: "mtable \<Rightarrow> int \<times> mtable" where
  "table_pop_reverse t =
     (if table_index t \<le> 0 then (-1, t)
      else (0, t\<lparr>table_index := table_index t - 1\<rparr>))"

definition table_peek :: "mtable \<Rightarrow> mt_ptr" where
  "table_peek t =
     (if table_index t + 1 \<le> table_num_entries t - 1 then mt_addr t (table_index t + 1)
      else MtNull)"

lemmas module_table_ops [table_defs] =
  mt_addr_def mt_deref_def table_init_def mt_store_def table_put_def table_get_copy_def
  table_pop_def table_pop_reverse_def table_peek_def

subsection \<open>Invariant and abstraction\<close>

definition mt_inv :: "mtable \<Rightarrow> bool" where
  "mt_inv t \<longleftrightarrow>
     (case module_table t of
        None \<Rightarrow> False
      | Some b \<Rightarrow> blk_cap b = table_size t) \<and>
     0 < table_size t \<and> 0 \<le> table_num_entries t \<and> table_num_entries t \<le> table_size t \<and>
     -1 \<le> table_index t \<and> table_index t + 1 \<le> table_num_entries t"

definition mt_entries :: "mtable \<Rightarrow> module_table_struct list" where
  "mt_entries t =
     (case module_table t of
        None \<Rightarrow> []
      | Some b \<Rightarrow> map (blk_slot b) [0..<nat (table_num_entries t)])"

definition mt_popped :: "mtable \<Rightarrow> nat" where
  "mt_popped t = nat (table_index t + 1)"

definition mt_pending :: "mtable \<Rightarrow> module_table_struct list" where
  "mt_pending t = drop (mt_popped t) (mt_entries t)"

text \<open>
  \<open>krealloc\<close> keeps the contents of the block it grows. The insertion succeeds when
  the table is not full, or when \<open>krealloc\<close> returns a block that keeps them.
\<close>

definition krealloc_keeps :: "(nat \<Rightarrow> module_table_struct) option \<Rightarrow> mtable \<Rightarrow> bool" where
  "krealloc_keeps kr t \<longleftrightarrow>
     (case (kr, module_table t) of
        (Some c, Some b) \<Rightarrow> (\<forall>i. int i < blk_cap b \<longrightarrow> c i = blk_slot b i)
      | _ \<Rightarrow> True)"

definition mt_put_ok :: "(nat \<Rightarrow> module_table_struct) option \<Rightarrow> mtable \<Rightarrow> bool" where
  "mt_put_ok kr t \<longleftrightarrow>
     table_num_entries t = table_size t \<longrightarrow> kr \<noteq> None \<and> krealloc_keeps kr t"

lemma mt_invE:
  assumes "mt_inv t"
  obtains b where "module_table t = Some b" "blk_cap b = table_size t" "0 < table_size t"
    "0 \<le> table_num_entries t" "table_num_entries t \<le> table_size t" "-1 \<le> table_index t"
    "table_index t + 1 \<le> table_num_entries t"
  using assms by (auto simp: mt_inv_def split: option.splits)

lemma mt_invI:
  "module_table t = Some b \<Longrightarrow> blk_cap b = table_size t \<Longrightarrow> 0 < table_size t \<Longrightarrow>
     0 \<le> table_num_entries t \<Longrightarrow> table_num_entries t \<le> table_size t \<Longrightarrow>
     -1 \<le> table_index t \<Longrightarrow> table_index t + 1 \<le> table_num_entries t \<Longrightarrow> mt_inv t"
  by (simp add: mt_inv_def)

lemma length_mt_entries: "mt_inv t \<Longrightarrow> length (mt_entries t) = nat (table_num_entries t)"
  by (auto simp: mt_entries_def elim: mt_invE)

lemma mt_inv_table_init:
  "module_table t = None \<Longrightarrow> 0 < table_size t \<Longrightarrow> table_num_entries t = 0 \<Longrightarrow>
     table_index t = -1 \<Longrightarrow>
     mt_inv (snd (table_init (Some c) t)) \<and> fst (table_init (Some c) t) = 0"
  by (simp add: table_init_def mt_inv_def)

lemma mt_store_correct:
  assumes b: "module_table t = Some b" and n: "0 \<le> table_num_entries t"
      "table_num_entries t < blk_cap b"
  obtains t' b' where "mt_store mt t = Ret (0, t')" "module_table t' = Some b'"
    "blk_cap b' = blk_cap b" "mt_entries t' = mt_entries t @ [mt]"
    "table_size t' = table_size t" "table_num_entries t' = table_num_entries t + 1"
    "table_index t' = table_index t"
proof -
  let ?b = "b\<lparr>blk_slot := (blk_slot b)(nat (table_num_entries t) := mt)\<rparr>"
  let ?t = "t\<lparr>module_table := Some ?b, table_num_entries := table_num_entries t + 1\<rparr>"
  have upt: "[0..<nat (table_num_entries t + 1)]
      = [0..<nat (table_num_entries t)] @ [nat (table_num_entries t)]"
    using n(1) by (simp add: nat_add_distrib)
  have "mt_store mt t = Ret (0, ?t)"
    using b n by (simp add: mt_store_def Let_def)
  moreover have "mt_entries ?t = mt_entries t @ [mt]"
    using b by (simp add: mt_entries_def upt)
  ultimately show thesis
    by (intro that [of ?t ?b]) simp_all
qed

lemma mt_put_append:
  assumes inv: "mt_inv t" and ok: "mt_put_ok kr t"
  shows "\<exists>t'. table_put kr mt t = Ret (0, t') \<and> mt_inv t' \<and> mt_entries t' = mt_entries t @ [mt]
    \<and> table_index t' = table_index t"
proof -
  from inv obtain b where b: "module_table t = Some b" "blk_cap b = table_size t"
      "0 < table_size t" "0 \<le> table_num_entries t" "table_num_entries t \<le> table_size t"
      "-1 \<le> table_index t" "table_index t + 1 \<le> table_num_entries t"
    by (rule mt_invE)
  have "\<exists>t1 b1. table_put kr mt t = mt_store mt t1 \<and> module_table t1 = Some b1 \<and>
      blk_cap b1 = table_size t1 \<and> 0 < table_size t1 \<and> table_num_entries t < table_size t1 \<and>
      mt_entries t1 = mt_entries t \<and> table_num_entries t1 = table_num_entries t \<and>
      table_index t1 = table_index t"
  proof (cases "table_num_entries t = table_size t")
    case False
    with b have "table_put kr mt t = mt_store mt t" by (simp add: table_put_def)
    with False b show ?thesis by (intro exI [of _ t] exI [of _ b]) simp
  next
    case True
    with ok obtain c where c: "kr = Some c" "\<And>i. int i < blk_cap b \<Longrightarrow> c i = blk_slot b i"
      by (auto simp: mt_put_ok_def krealloc_keeps_def b(1))
    let ?b1 = "\<lparr>blk_cap = 2 * table_size t, blk_slot = c\<rparr>"
    let ?t1 = "t\<lparr>module_table := Some ?b1, table_size := 2 * table_size t\<rparr>"
    have "table_put kr mt t = mt_store mt ?t1"
      using b c(1) True by (simp add: table_put_def)
    moreover have "mt_entries ?t1 = mt_entries t"
      using b c(2) True by (simp add: mt_entries_def)
    ultimately show ?thesis
      using b(3) True by (intro exI [of _ ?t1] exI [of _ ?b1]) simp
  qed
  then obtain t1 b1 where t1: "table_put kr mt t = mt_store mt t1" "module_table t1 = Some b1"
      "blk_cap b1 = table_size t1" "0 < table_size t1" "table_num_entries t < table_size t1"
      "mt_entries t1 = mt_entries t" "table_num_entries t1 = table_num_entries t"
      "table_index t1 = table_index t"
    by blast
  obtain t' b' where t': "mt_store mt t1 = Ret (0, t')" "module_table t' = Some b'"
      "blk_cap b' = blk_cap b1" "mt_entries t' = mt_entries t1 @ [mt]"
      "table_size t' = table_size t1" "table_num_entries t' = table_num_entries t1 + 1"
      "table_index t' = table_index t1"
    by (rule mt_store_correct [OF t1(2)]) (use t1 b in simp_all)
  have "mt_inv t'"
    by (rule mt_invI [OF t'(2)]) (use t' t1 b in simp_all)
  with t' t1 show ?thesis by simp
qed

lemma mt_popped_le: "mt_inv t \<Longrightarrow> mt_popped t \<le> length (mt_entries t)"
  by (auto simp: length_mt_entries mt_popped_def elim: mt_invE)

lemma mt_pop_empty: "mt_inv t \<Longrightarrow> mt_popped t = length (mt_entries t) \<Longrightarrow> table_pop t = (MtNull, t)"
  by (auto simp: length_mt_entries mt_popped_def table_pop_def elim!: mt_invE)

lemma mt_pop_next:
  assumes "mt_inv t" and "mt_popped t < length (mt_entries t)"
  shows "\<exists>p t'. table_pop t = (p, t') \<and> p \<noteq> MtNull \<and>
    mt_deref t' p = Ret (mt_entries t ! mt_popped t) \<and> mt_inv t' \<and>
    mt_entries t' = mt_entries t \<and> mt_popped t' = Suc (mt_popped t)"
proof -
  from assms(1) obtain b where b: "module_table t = Some b" "blk_cap b = table_size t"
      "0 < table_size t" "0 \<le> table_num_entries t" "table_num_entries t \<le> table_size t"
      "-1 \<le> table_index t" "table_index t + 1 \<le> table_num_entries t"
    by (rule mt_invE)
  with assms have lt: "table_index t + 1 < table_num_entries t"
    by (simp add: length_mt_entries mt_popped_def)
  have nth: "mt_entries t ! mt_popped t = blk_slot b (nat (table_index t + 1))"
    using b lt by (simp add: mt_entries_def mt_popped_def)
  show ?thesis
    using b lt by (simp add: table_pop_def mt_addr_def mt_deref_def nth mt_inv_def)
      (simp add: mt_entries_def mt_popped_def)
qed

text \<open>The module table is a queue in the sense of the interface.\<close>

lemma mt_put_popped: "mt_inv t \<Longrightarrow> table_put kr mt t = Ret (r, t') \<Longrightarrow> mt_popped t' = mt_popped t"
  by (auto simp: table_put_def mt_store_def mt_popped_def Let_def split: option.splits if_splits)

interpretation mtq: table_queue table_put mt_put_ok mt_entries mt_inv
  table_pop mt_deref MtNull mt_popped
proof unfold_locales
  show "\<exists>s'. table_put e x s = Ret (0, s') \<and> mt_inv s' \<and> mt_entries s' = mt_entries s @ [x]"
    if "mt_inv s" "mt_put_ok e s" for s e x
    using mt_put_append [OF that, of x] by blast
  show "mt_popped s' = mt_popped s" if "mt_inv s" "table_put e x s = Ret (r, s')" for s e x r s'
    using that by (rule mt_put_popped)
  show "mt_popped s \<le> length (mt_entries s)" if "mt_inv s" for s
    using that by (rule mt_popped_le)
  show "table_pop s = (MtNull, s)" if "mt_inv s" "mt_popped s = length (mt_entries s)" for s
    using that by (rule mt_pop_empty)
  show "\<exists>p s'. table_pop s = (p, s') \<and> p \<noteq> MtNull \<and>
      mt_deref s' p = Ret (mt_entries s ! mt_popped s) \<and> mt_inv s' \<and>
      mt_entries s' = mt_entries s \<and> mt_popped s' = Suc (mt_popped s)"
    if "mt_inv s" "mt_popped s < length (mt_entries s)" for s
    using that by (rule mt_pop_next)
qed

subsection \<open>Lookup\<close>

lemma mt_deref_entry:
  assumes "mt_inv t" and "i < length (mt_entries t)"
  shows "mt_deref t (mt_addr t (int i)) = Ret (mt_entries t ! i)"
proof -
  from assms(1) obtain b where b: "module_table t = Some b" "blk_cap b = table_size t"
      "0 < table_size t" "0 \<le> table_num_entries t" "table_num_entries t \<le> table_size t"
    by (rule mt_invE)
  with assms have "int i < table_num_entries t"
    by (simp add: length_mt_entries)
  with b show ?thesis
    by (simp add: mt_addr_def mt_deref_def mt_entries_def)
qed

lemma get_copy_loop_find:
  assumes "mt_inv t" and "set is \<subseteq> {..<length (mt_entries t)}"
  shows "get_copy_loop t u g is =
    Ret (case find (\<lambda>x. mt_uuid x = u) (map (nth (mt_entries t)) is) of
           None \<Rightarrow> g | Some x \<Rightarrow> x)"
  using assms(2)
proof (induction "is")
  case Nil
  then show ?case by simp
next
  case (Cons i "is")
  then show ?case by (simp add: mt_deref_entry [OF assms(1)])
qed

text \<open>What \<open>table_get_copy\<close> computes on a well-formed table: the first entry with
  the identifier, or the uninitialised block when there is none.\<close>

lemma table_get_copy_find:
  assumes "mt_inv t"
  shows "table_get_copy (Some g) u t =
    Ret (Some (case find (\<lambda>x. mt_uuid x = u) (mt_entries t) of None \<Rightarrow> g | Some x \<Rightarrow> x))"
proof -
  have n: "nat (table_num_entries t) = length (mt_entries t)"
    using assms by (simp add: length_mt_entries)
  show ?thesis
    using get_copy_loop_find [OF assms, of "[0..<length (mt_entries t)]" u g]
    by (simp add: table_get_copy_def n map_nth atLeast0LessThan)
qed

lemma table_pop_reverse_pop:
  assumes "table_pop t = (p, t')" and "p \<noteq> MtNull"
  shows "table_pop_reverse t' = (if table_index t = -1 then (-1, t') else (0, t)) \<or> table_index t < -1"
  using assms by (auto simp: table_pop_def table_pop_reverse_def split: if_splits)

lemma mt_inv_pop: "mt_inv t \<Longrightarrow> mt_inv (snd (table_pop t))"
  by (auto simp: table_pop_def intro!: mt_invI elim!: mt_invE)

lemma mt_inv_pop_reverse: "mt_inv t \<Longrightarrow> mt_inv (snd (table_pop_reverse t))"
  by (auto simp: table_pop_reverse_def intro!: mt_invI elim!: mt_invE)

lemma mt_entries_index_update [simp]:
  "mt_entries (t\<lparr>table_index := i\<rparr>) = mt_entries t"
  by (simp add: mt_entries_def split: option.split)

lemma mt_entries_pop [simp]: "mt_entries (snd (table_pop t)) = mt_entries t"
  by (simp add: table_pop_def)

lemma mt_entries_pop_reverse [simp]: "mt_entries (snd (table_pop_reverse t)) = mt_entries t"
  by (simp add: table_pop_reverse_def)

lemma table_peek_null_iff:
  "mt_inv t \<Longrightarrow> table_peek t = MtNull \<longleftrightarrow> mt_pending t = []"
  by (auto simp: table_peek_def mt_pending_def length_mt_entries mt_popped_def mt_addr_def
      elim!: mt_invE)

lemma table_pop_Cons:
  assumes inv: "mt_inv t" and pend: "mt_pending t = x # xs"
  obtains p t' where "table_pop t = (p, t')" "p \<noteq> MtNull" "mt_deref t' p = Ret x"
    "mt_inv t'" "mt_pending t' = xs" "mt_entries t' = mt_entries t"
    "t' = t\<lparr>table_index := table_index t + 1\<rparr>"
proof -
  from pend have lt: "mt_popped t < length (mt_entries t)"
    by (metis drop_all list.distinct(1) mt_pending_def not_le_imp_less)
  from mt_pop_next [OF inv lt] obtain p t' where t': "table_pop t = (p, t')" "p \<noteq> MtNull"
      "mt_deref t' p = Ret (mt_entries t ! mt_popped t)" "mt_inv t'"
      "mt_entries t' = mt_entries t" "mt_popped t' = Suc (mt_popped t)"
    by blast
  have "x # xs = mt_entries t ! mt_popped t # drop (Suc (mt_popped t)) (mt_entries t)"
    using pend lt by (simp add: mt_pending_def Cons_nth_drop_Suc)
  moreover have "t' = t\<lparr>table_index := table_index t + 1\<rparr>"
    using t'(1,2) by (auto simp: table_pop_def split: if_splits)
  ultimately show thesis
    using t' by (intro that [of p t']) (simp_all add: mt_pending_def)
qed

lemma table_pop_Nil: "mt_inv t \<Longrightarrow> mt_pending t = [] \<Longrightarrow> table_pop t = (MtNull, t)"
  using mt_pop_empty [of t] mt_popped_le [of t] by (simp add: mt_pending_def)

lemma mt_pending_put:
  assumes "mt_inv t" and "mt_put_ok kr t"
  obtains t' where "table_put kr mt t = Ret (0, t')" "mt_inv t'"
    "mt_pending t' = mt_pending t @ [mt]" "mt_entries t' = mt_entries t @ [mt]"
    "table_index t' = table_index t"
proof -
  from mt_put_append [OF assms] obtain t' where t': "table_put kr mt t = Ret (0, t')"
      "mt_inv t'" "mt_entries t' = mt_entries t @ [mt]" "table_index t' = table_index t"
    by blast
  have "mt_pending t' = mt_pending t @ [mt]"
    using t' mt_popped_le [OF assms(1)] by (simp add: mt_pending_def mt_popped_def)
  with t' show thesis by (intro that)
qed

end
