(* ===== verification/Char_Device.thy ===== *)
theory Char_Device
  imports Module_Table
begin

text \<open>
  The character device of the proxy module (\<open>cdev.c\<close>) and the entry points of
  \<open>lxc-uio-proxy.c\<close> that share its state: registration of the server (\<open>ks\<close>),
  the requests of \<open>cdev_ioctl\<close>, \<open>cdev_write\<close> with \<open>process_packet\<close>,
  \<open>send_event\<close> and \<open>lxc_uio_proxy_put_module_1\<close>.

  What the kernel provides to the module is the record \<open>kservices\<close>: the answers of
  the allocator to the call, \<open>copy_to_user\<close> and \<open>copy_from_user\<close> (number of bytes
  not copied, and the copy), \<open>fcheck\<close>, \<open>eventfd_ctx_fileget\<close> (which may fault on
  a file pointer that is not live) and \<open>eventfd_signal\<close>. \<open>uaccess_ok\<close> states the
  documented behaviour of the two copy functions.
\<close>

subsection \<open>State and kernel services\<close>

record kvm_host_server =
  ks_pid :: int
  ks_fp :: u64

text \<open>The fields of \<open>struct module\<close> the proxy reads.\<close>

record kmodule =
  mod_core_layout :: module_layout
  mod_init_layout :: module_layout

datatype efd_res = EfdNull | EfdErrPtr | EfdCtx nat

record 'e kservices =
  copy_to_user :: "umem \<Rightarrow> u64 \<Rightarrow> u8 list \<Rightarrow> nat \<times> umem"
  copy_from_user :: "umem \<Rightarrow> u64 \<Rightarrow> nat \<Rightarrow> nat \<times> u8 list"
  kmalloc_ks :: "kvm_host_server option"
  kmalloc_mts :: "module_table_struct option"
  krealloc_mt :: "(nat \<Rightarrow> module_table_struct) option"
  fcheck :: "int \<Rightarrow> u64"
  current_pid :: int
  eventfd_ctx_fileget :: "u64 \<Rightarrow> efd_res exec"
  eventfd_signal :: "'e \<Rightarrow> 'e"

record 'e proxy =
  ptable :: mtable
  ks :: "kvm_host_server option"
  lxc_uio_cdev_major_number :: int
  kmodules :: "u64 \<Rightarrow> kmodule option"
  kmem :: "u64 \<Rightarrow> u8"
  efds :: "nat \<Rightarrow> 'e"

definition uaccess_ok :: "'e kservices \<Rightarrow> bool" where
  "uaccess_ok sv \<longleftrightarrow>
     (\<forall>m a bs. fst (copy_to_user sv m a bs) \<le> length bs \<and>
        (fst (copy_to_user sv m a bs) = 0 \<longrightarrow> snd (copy_to_user sv m a bs) = umem_write m a bs)) \<and>
     (\<forall>m a n. fst (copy_from_user sv m a n) = 0 \<longrightarrow> snd (copy_from_user sv m a n) = umem_read m a n)"

lemma uaccess_to:
  "uaccess_ok sv \<Longrightarrow> copy_to_user sv m a bs = (0, m') \<Longrightarrow> m' = umem_write m a bs"
  unfolding uaccess_ok_def by (metis fst_conv snd_conv)

lemma uaccess_from:
  "uaccess_ok sv \<Longrightarrow> copy_from_user sv m a n = (0, bs) \<Longrightarrow> bs = umem_read m a n"
  unfolding uaccess_ok_def by (metis fst_conv snd_conv)

lemma uaccess_le: "uaccess_ok sv \<Longrightarrow> copy_to_user sv m a bs = (n, m') \<Longrightarrow> n \<le> length bs"
  unfolding uaccess_ok_def by (metis fst_conv)

text \<open>Following a \<open>struct module\<close> pointer.\<close>

definition mod_deref :: "'e proxy \<Rightarrow> u64 \<Rightarrow> kmodule exec" where
  "mod_deref st p = (case kmodules st p of None \<Rightarrow> Crash BadPointer | Some md \<Rightarrow> Ret md)"

subsection \<open>The requests of cdev\_ioctl\<close>

definition ioctl_register :: "'e kservices \<Rightarrow> u64 \<Rightarrow> 'e proxy \<Rightarrow> int \<times> 'e proxy" where
  "ioctl_register sv param st =
     (case kmalloc_ks sv of
        None \<Rightarrow> (- ENOMEM, st\<lparr>ks := None\<rparr>)
      | Some blk \<Rightarrow>
          (let k = blk\<lparr>ks_pid := current_pid sv\<rparr>;
               intval = sint (ucast param :: u32)
           in if intval < 0 then (-1, st\<lparr>ks := Some k\<rparr>)
              else let fl = fcheck sv intval
                   in if fl = 0 then (-1, st\<lparr>ks := Some k\<rparr>)
                      else (0, st\<lparr>ks := Some (k\<lparr>ks_fp := fl\<rparr>)\<rparr>)))"

definition ioctl_de_register :: "'e proxy \<Rightarrow> int \<times> 'e proxy" where
  "ioctl_de_register st = (0, st\<lparr>ks := None\<rparr>)"

definition ioctl_get_pending_module ::
    "'e kservices \<Rightarrow> u64 \<Rightarrow> umem \<Rightarrow> 'e proxy \<Rightarrow> (int \<times> umem \<times> 'e proxy) exec" where
  "ioctl_get_pending_module sv param m st =
     (case table_pop (ptable st) of (mt, t1) \<Rightarrow>
        if mt = MtNull then Ret (0, m, st\<lparr>ptable := t1\<rparr>)
        else exec_bind (mt_deref t1 mt) (\<lambda>x.
          case copy_to_user sv m param (enc_u128 (mt_uuid x)) of (n, m') \<Rightarrow>
            if n = 0 then Ret (1, m', st\<lparr>ptable := t1\<rparr>)
            else Ret (- int n, m', st\<lparr>ptable := snd (table_pop_reverse t1)\<rparr>)))"

definition ioctl_get_uuid_size ::
    "'e kservices \<Rightarrow> u64 \<Rightarrow> umem \<Rightarrow> 'e proxy \<Rightarrow> (int \<times> umem \<times> 'e proxy) exec" where
  "ioctl_get_uuid_size sv ptr m st =
     (case copy_from_user sv m ptr 16 of (n, bs) \<Rightarrow>
        if n = 0 then
          exec_bind (table_get_copy (kmalloc_mts sv) (dec_u128 bs) (ptable st)) (\<lambda>entry.
            case entry of
              None \<Rightarrow> Ret (-1, m, st)
            | Some e \<Rightarrow>
                exec_bind (mod_deref st (mt_module e)) (\<lambda>md.
                  let sz = ml_size (mod_core_layout md) + ml_size (mod_init_layout md) in
                  case copy_to_user sv m ptr (enc_u32 sz) of (n', m') \<Rightarrow>
                    if n' \<noteq> 0 then Ret (- int n', m', st) else Ret (0, m', st)))
        else Ret (- int n, m, st))"

datatype layout_req = InitLayout | CoreLayout

definition ioctl_get_layout ::
    "'e kservices \<Rightarrow> layout_req \<Rightarrow> u64 \<Rightarrow> umem \<Rightarrow> 'e proxy \<Rightarrow> (int \<times> umem \<times> 'e proxy) exec" where
  "ioctl_get_layout sv which ptr m st =
     (case copy_from_user sv m ptr 16 of (n, bs) \<Rightarrow>
        if n = 0 then
          exec_bind (table_get_copy (kmalloc_mts sv) (dec_u128 bs) (ptable st)) (\<lambda>entry.
            case entry of
              None \<Rightarrow> Ret (-1, m, st)
            | Some e \<Rightarrow>
                exec_bind (mod_deref st (mt_module e)) (\<lambda>md.
                  let layout = (case which of InitLayout \<Rightarrow> mod_init_layout md
                                            | CoreLayout \<Rightarrow> mod_core_layout md) in
                  case copy_to_user sv m ptr (enc_layout layout) of (n', m') \<Rightarrow>
                    if n' \<noteq> 0 then Ret (- int n', m', st) else Ret (0, m', st)))
        else Ret (- int n, m, st))"

definition cdev_ioctl ::
    "'e kservices \<Rightarrow> u32 \<Rightarrow> u64 \<Rightarrow> umem \<Rightarrow> 'e proxy \<Rightarrow> (int \<times> umem \<times> 'e proxy) exec" where
  "cdev_ioctl sv ioctl_num ioctl_param m st =
     (let major = lxc_uio_cdev_major_number st in
      if ioctl_num = kvm_host_server_register major then
        (case ioctl_register sv ioctl_param st of (r, st') \<Rightarrow> Ret (r, m, st'))
      else if ioctl_num = kvm_host_server_de_register major then
        (case ioctl_de_register st of (r, st') \<Rightarrow> Ret (r, m, st'))
      else if ioctl_num = kvm_host_server_get_pending_module major then
        ioctl_get_pending_module sv ioctl_param m st
      else if ioctl_num = kvm_host_server_get_uuid_size major then
        ioctl_get_uuid_size sv ioctl_param m st
      else if ioctl_num = kvm_host_server_get_init_layout major then
        ioctl_get_layout sv InitLayout ioctl_param m st
      else if ioctl_num = kvm_host_server_get_core_layout major then
        ioctl_get_layout sv CoreLayout ioctl_param m st
      else Ret (-1, m, st))"

subsection \<open>Packets\<close>

definition process_packet ::
    "'e kservices \<Rightarrow> packet \<Rightarrow> umem \<Rightarrow> 'e proxy \<Rightarrow> (int \<times> umem) exec" where
  "process_packet sv packet1 m st =
     exec_bind (table_get_copy (kmalloc_mts sv) (pk_uuid packet1) (ptable st)) (\<lambda>mts.
       case mts of
         None \<Rightarrow> Crash NullDeref
       | Some e \<Rightarrow>
           exec_bind (mod_deref st (mt_module e)) (\<lambda>md.
             case copy_to_user sv m (userspace_addr (region_core (pk_memory packet1)))
                    (umem_read (kmem st) (ml_base (mod_core_layout md))
                       (unat (ml_size (mod_core_layout md)))) of (n, m') \<Rightarrow>
               let ret_val = s32 (int n) in
               if ret_val = 0 then Ret (0, m') else Ret (s32 (ret_val * -1), m')))"

text \<open>\<open>count\<close> is a parameter of the handler that its body never reads.\<close>

definition cdev_write ::
    "'e kservices \<Rightarrow> u64 \<Rightarrow> u64 \<Rightarrow> umem \<Rightarrow> 'e proxy \<Rightarrow> (int \<times> umem) exec" where
  "cdev_write sv buff count m st =
     (case copy_from_user sv m buff sizeof_packet of (bytes_not_copied, bs) \<Rightarrow>
        if bytes_not_copied = 0 then
          exec_bind (process_packet sv (dec_packet bs) m st) (\<lambda>(ret_val, m').
            if ret_val = 0 then Ret (int sizeof_packet, m') else Ret (-1, m'))
        else Ret (-1, m))"

subsection \<open>Insertion of a module\<close>

definition send_event :: "'e kservices \<Rightarrow> 'e proxy \<Rightarrow> (int \<times> 'e proxy) exec" where
  "send_event sv st =
     (case ks st of
        None \<Rightarrow> Ret (0, st)
      | Some k \<Rightarrow>
          if table_peek (ptable st) = MtNull then Ret (-1, st)
          else exec_bind (eventfd_ctx_fileget sv (ks_fp k)) (\<lambda>r.
            case r of
              EfdNull \<Rightarrow> Ret (-1, st)
            | EfdErrPtr \<Rightarrow> Crash BadPointer
            | EfdCtx c \<Rightarrow> Ret (0, st\<lparr>efds := (efds st)(c := eventfd_signal sv (efds st c))\<rparr>)))"

text \<open>With \<open>debug_on\<close> the handler prints fields of the module, so it follows the
  pointer in every case.\<close>

definition lxc_uio_proxy_put_module_1 ::
    "'e kservices \<Rightarrow> u128 \<Rightarrow> u64 \<Rightarrow> u64 \<Rightarrow> 'e proxy \<Rightarrow> (int \<times> 'e proxy) exec" where
  "lxc_uio_proxy_put_module_1 sv uuid nsproxy module st =
     exec_bind (table_put (krealloc_mt sv)
         \<lparr>mt_uuid = uuid, mt_nsproxy = nsproxy, mt_module = module\<rparr> (ptable st)) (\<lambda>(ret_val, t1).
       exec_bind (mod_deref st module) (\<lambda>_.
         if ret_val = 0 then
           exec_bind (send_event sv (st\<lparr>ptable := t1\<rparr>)) (\<lambda>(_, st'). Ret (ret_val, st'))
         else Ret (ret_val, st\<lparr>ptable := t1\<rparr>)))"

lemmas cdev_handler_defs [cdev_defs] =
  mod_deref_def ioctl_register_def ioctl_de_register_def ioctl_get_pending_module_def
  ioctl_get_uuid_size_def ioctl_get_layout_def process_packet_def cdev_write_def send_event_def
  lxc_uio_proxy_put_module_1_def

subsection \<open>Dispatch\<close>

lemma cdev_ioctl_register [simp]:
  "cdev_ioctl sv (kvm_host_server_register (lxc_uio_cdev_major_number st)) param m st =
     (case ioctl_register sv param st of (r, st') \<Rightarrow> Ret (r, m, st'))"
  by (simp add: cdev_ioctl_def)

lemma cdev_ioctl_de_register [simp]:
  "cdev_ioctl sv (kvm_host_server_de_register (lxc_uio_cdev_major_number st)) param m st =
     Ret (0, m, st\<lparr>ks := None\<rparr>)"
  by (simp add: cdev_ioctl_def ioctl_de_register_def ioctl_numbers_neq [symmetric])

lemma cdev_ioctl_get_pending [simp]:
  "cdev_ioctl sv (kvm_host_server_get_pending_module (lxc_uio_cdev_major_number st)) param m st =
     ioctl_get_pending_module sv param m st"
  by (simp add: cdev_ioctl_def ioctl_numbers_neq [symmetric])

lemma cdev_ioctl_get_uuid_size [simp]:
  "cdev_ioctl sv (kvm_host_server_get_uuid_size (lxc_uio_cdev_major_number st)) param m st =
     ioctl_get_uuid_size sv param m st"
  by (simp add: cdev_ioctl_def ioctl_numbers_neq [symmetric])

lemma cdev_ioctl_get_init_layout [simp]:
  "cdev_ioctl sv (kvm_host_server_get_init_layout (lxc_uio_cdev_major_number st)) param m st =
     ioctl_get_layout sv InitLayout param m st"
  by (simp add: cdev_ioctl_def ioctl_numbers_neq [symmetric])

lemma cdev_ioctl_get_core_layout [simp]:
  "cdev_ioctl sv (kvm_host_server_get_core_layout (lxc_uio_cdev_major_number st)) param m st =
     ioctl_get_layout sv CoreLayout param m st"
  by (simp add: cdev_ioctl_def ioctl_numbers_neq [symmetric])

lemma cdev_ioctl_other:
  "num \<notin> {kvm_host_server_register (lxc_uio_cdev_major_number st),
      kvm_host_server_de_register (lxc_uio_cdev_major_number st),
      kvm_host_server_get_pending_module (lxc_uio_cdev_major_number st),
      kvm_host_server_get_uuid_size (lxc_uio_cdev_major_number st),
      kvm_host_server_get_init_layout (lxc_uio_cdev_major_number st),
      kvm_host_server_get_core_layout (lxc_uio_cdev_major_number st)} \<Longrightarrow>
     cdev_ioctl sv num param m st = Ret (-1, m, st)"
  by (simp add: cdev_ioctl_def Let_def)

subsection \<open>Invariant of the proxy\<close>

definition module_ok :: "kmodule \<Rightarrow> bool" where
  "module_ok md \<longleftrightarrow> layout_ok (mod_core_layout md) \<and> layout_ok (mod_init_layout md)"

definition entry_live :: "'e proxy \<Rightarrow> module_table_struct \<Rightarrow> bool" where
  "entry_live st x \<longleftrightarrow>
     (case kmodules st (mt_module x) of None \<Rightarrow> False | Some md \<Rightarrow> module_ok md)"

definition proxy_inv :: "'e proxy \<Rightarrow> bool" where
  "proxy_inv st \<longleftrightarrow> mt_inv (ptable st) \<and> list_all (entry_live st) (mt_entries (ptable st))"

lemma entry_liveE:
  assumes "entry_live st x"
  obtains md where "mod_deref st (mt_module x) = Ret md" "kmodules st (mt_module x) = Some md"
    "layout_ok (mod_core_layout md)" "layout_ok (mod_init_layout md)"
  using assms by (auto simp: entry_live_def mod_deref_def module_ok_def split: option.splits)

lemma entry_live_frame [simp]:
  "entry_live (st\<lparr>ptable := t\<rparr>) = entry_live st" "entry_live (st\<lparr>ks := k\<rparr>) = entry_live st"
  "entry_live (st\<lparr>efds := e\<rparr>) = entry_live st"
  by (simp_all add: entry_live_def fun_eq_iff)

lemma mod_deref_frame [simp]:
  "mod_deref (st\<lparr>ptable := t\<rparr>) = mod_deref st"
  by (simp add: mod_deref_def fun_eq_iff)

lemma proxy_inv_ks [simp]: "proxy_inv (st\<lparr>ks := k\<rparr>) = proxy_inv st"
  by (simp add: proxy_inv_def)

lemma proxy_inv_efds [simp]: "proxy_inv (st\<lparr>efds := e\<rparr>) = proxy_inv st"
  by (simp add: proxy_inv_def)

text \<open>What the table finds for an identifier: the first entry carrying it.\<close>

definition mt_find :: "u128 \<Rightarrow> mtable \<Rightarrow> module_table_struct option" where
  "mt_find u t = find (\<lambda>x. mt_uuid x = u) (mt_entries t)"

lemma mt_find_in: "mt_find u t = Some x \<Longrightarrow> x \<in> set (mt_entries t) \<and> mt_uuid x = u"
  by (auto simp: mt_find_def find_Some_iff)

lemma proxy_find:
  assumes "proxy_inv st" and "mt_find u (ptable st) = Some x" and "km = Some g"
  obtains md where "table_get_copy km u (ptable st) = Ret (Some x)"
    "mod_deref st (mt_module x) = Ret md" "kmodules st (mt_module x) = Some md"
    "layout_ok (mod_core_layout md)" "layout_ok (mod_init_layout md)"
proof -
  have "table_get_copy km u (ptable st) = Ret (Some x)"
    using assms by (simp add: proxy_inv_def table_get_copy_find mt_find_def)
  moreover have "entry_live st x"
    using assms mt_find_in by (fastforce simp: proxy_inv_def list_all_iff)
  ultimately show thesis
    by (auto elim!: entry_liveE intro: that)
qed

subsection \<open>Behaviour of the requests\<close>

lemma get_pending_Nil:
  "mt_inv (ptable st) \<Longrightarrow> mt_pending (ptable st) = [] \<Longrightarrow>
     ioctl_get_pending_module sv param m st = Ret (0, m, st)"
  by (simp add: ioctl_get_pending_module_def table_pop_Nil)

lemma get_pending_Cons:
  assumes "mt_inv (ptable st)" and "mt_pending (ptable st) = x # xs"
    and "copy_to_user sv m param (enc_u128 (mt_uuid x)) = (n, m')"
  shows "\<exists>t1. table_pop (ptable st) = (MtSlot (table_index (ptable st) + 1), t1) \<and>
    mt_inv t1 \<and> mt_pending t1 = xs \<and> mt_entries t1 = mt_entries (ptable st) \<and>
    ioctl_get_pending_module sv param m st =
      (if n = 0 then Ret (1, m', st\<lparr>ptable := t1\<rparr>)
       else Ret (- int n, m',
         if table_index (ptable st) = -1 then st\<lparr>ptable := t1\<rparr> else st))"
proof -
  from assms(1,2) obtain p t1 where t1: "table_pop (ptable st) = (p, t1)" "p \<noteq> MtNull"
      "mt_deref t1 p = Ret x" "mt_inv t1" "mt_pending t1 = xs"
      "mt_entries t1 = mt_entries (ptable st)"
      "t1 = (ptable st)\<lparr>table_index := table_index (ptable st) + 1\<rparr>"
    by (rule table_pop_Cons)
  have p: "p = MtSlot (table_index (ptable st) + 1)"
    using t1(1,2) by (auto simp: table_pop_def mt_addr_def split: if_splits)
  have "table_index (ptable st) \<ge> -1"
    using assms(1) by (auto elim: mt_invE)
  with t1(7) have "snd (table_pop_reverse t1) = (if table_index (ptable st) = -1 then t1 else ptable st)"
    by (auto simp: table_pop_reverse_def)
  with t1 p assms(3) show ?thesis
    by (simp add: ioctl_get_pending_module_def)
qed

lemma proxy_inv_pop:
  "proxy_inv st \<Longrightarrow> mt_inv t1 \<Longrightarrow> mt_entries t1 = mt_entries (ptable st) \<Longrightarrow>
     proxy_inv (st\<lparr>ptable := t1\<rparr>)"
  by (simp add: proxy_inv_def)

lemma get_layout_ok:
  assumes "proxy_inv st" and "uaccess_ok sv" and "kmalloc_mts sv = Some g"
    and "copy_from_user sv m ptr 16 = (0, enc_u128 u)" and "mt_find u (ptable st) = Some x"
    and "kmodules st (mt_module x) = Some md"
    and "layout = (case which of InitLayout \<Rightarrow> mod_init_layout md | CoreLayout \<Rightarrow> mod_core_layout md)"
    and "copy_to_user sv m ptr (enc_layout layout) = (0, m')"
  shows "ioctl_get_layout sv which ptr m st = Ret (0, umem_write m ptr (enc_layout layout), st) \<and>
    layout_ok layout"
proof -
  obtain md' where "table_get_copy (kmalloc_mts sv) u (ptable st) = Ret (Some x)"
    "mod_deref st (mt_module x) = Ret md'" "kmodules st (mt_module x) = Some md'"
    "layout_ok (mod_core_layout md')" "layout_ok (mod_init_layout md')"
    by (rule proxy_find [OF assms(1,5,3)])
  moreover have "m' = umem_write m ptr (enc_layout layout)"
    by (rule uaccess_to [OF assms(2,8)])
  ultimately show ?thesis
    using assms(4,6,7,8)
    by (cases which) (simp_all add: ioctl_get_layout_def)
qed

lemma get_uuid_size_ok:
  assumes "proxy_inv st" and "uaccess_ok sv" and "kmalloc_mts sv = Some g"
    and "copy_from_user sv m ptr 16 = (0, enc_u128 u)" and "mt_find u (ptable st) = Some x"
    and "kmodules st (mt_module x) = Some md"
    and "sz = ml_size (mod_core_layout md) + ml_size (mod_init_layout md)"
    and "copy_to_user sv m ptr (enc_u32 sz) = (0, m')"
  shows "ioctl_get_uuid_size sv ptr m st = Ret (0, umem_write m ptr (enc_u32 sz), st)"
proof -
  obtain md' where "table_get_copy (kmalloc_mts sv) u (ptable st) = Ret (Some x)"
    "mod_deref st (mt_module x) = Ret md'" "kmodules st (mt_module x) = Some md'"
    by (rule proxy_find [OF assms(1,5,3)])
  moreover have "m' = umem_write m ptr (enc_u32 sz)"
    by (rule uaccess_to [OF assms(2,8)])
  ultimately show ?thesis
    using assms(4,6,7,8) by (simp add: ioctl_get_uuid_size_def Let_def)
qed

lemma process_packet_ok:
  assumes "proxy_inv st" and "uaccess_ok sv" and "kmalloc_mts sv = Some g"
    and "mt_find (pk_uuid pk) (ptable st) = Some x"
    and "kmodules st (mt_module x) = Some md"
    and "core = umem_read (kmem st) (ml_base (mod_core_layout md)) (unat (ml_size (mod_core_layout md)))"
    and "copy_to_user sv m (userspace_addr (region_core (pk_memory pk))) core = (n, m')"
  shows "process_packet sv pk m st =
    (if n = 0 then Ret (0, umem_write m (userspace_addr (region_core (pk_memory pk))) core)
     else Ret (s32 (- s32 (int n)), m')) \<and> (n \<noteq> 0 \<longrightarrow> s32 (- s32 (int n)) \<noteq> 0)"
proof -
  obtain md' where d: "table_get_copy (kmalloc_mts sv) (pk_uuid pk) (ptable st) = Ret (Some x)"
    "mod_deref st (mt_module x) = Ret md'" "kmodules st (mt_module x) = Some md'"
    by (rule proxy_find [OF assms(1,4,3)])
  have "n \<le> unat (ml_size (mod_core_layout md))"
    using uaccess_le [OF assms(2,7)] assms(6) by simp
  then have lt: "int n < 2 ^ 32"
    using unsigned_less [of "ml_size (mod_core_layout md)", where 'a = nat] by simp
  have z: "s32 (int n) = 0 \<longleftrightarrow> n = 0"
    using lt by (simp add: s32_eq_0_iff)
  have nz: "n \<noteq> 0 \<longrightarrow> s32 (- s32 (int n)) \<noteq> 0"
    using s32_neg_eq_0 [of "int n"] z by auto
  have "n = 0 \<Longrightarrow> m' = umem_write m (userspace_addr (region_core (pk_memory pk))) core"
    using uaccess_to [OF assms(2)] assms(7) by simp
  with d z nz assms(5,6,7) show ?thesis
    by (simp add: process_packet_def Let_def)
qed

subsection \<open>Where a request can fault\<close>

lemma get_copy_cases:
  assumes "mt_inv t"
  shows "table_get_copy km u t =
    (case km of None \<Rightarrow> Ret None
     | Some g \<Rightarrow> Ret (Some (case mt_find u t of None \<Rightarrow> g | Some x \<Rightarrow> x)))"
proof (cases km)
  case None
  then show ?thesis by (simp add: table_get_copy_def)
next
  case (Some g)
  with table_get_copy_find [OF assms] show ?thesis by (simp add: mt_find_def)
qed

text \<open>The block \<open>table_get_copy\<close> hands out for an identifier that is not in the table.\<close>

definition stray_block :: "'e kservices \<Rightarrow> u64 \<Rightarrow> umem \<Rightarrow> 'e proxy \<Rightarrow> bool" where
  "stray_block sv ptr m st \<longleftrightarrow>
     (\<exists>bs g. copy_from_user sv m ptr 16 = (0, bs) \<and> mt_find (dec_u128 bs) (ptable st) = None \<and>
        kmalloc_mts sv = Some g \<and> kmodules st (mt_module g) = None)"

lemma lookup_faults:
  assumes inv: "proxy_inv st" and cp: "copy_from_user sv m ptr 16 = (0, bs)"
    and c: "exec_bind (table_get_copy (kmalloc_mts sv) (dec_u128 bs) (ptable st)) (\<lambda>entry.
        case entry of None \<Rightarrow> Ret a | Some e \<Rightarrow> exec_bind (mod_deref st (mt_module e)) k) = Crash f"
    and k: "\<And>md. \<exists>y. k md = Ret y"
  shows "f = BadPointer \<and> stray_block sv ptr m st"
proof -
  from inv have mt: "mt_inv (ptable st)" by (simp add: proxy_inv_def)
  from c get_copy_cases [OF mt] obtain g where g: "kmalloc_mts sv = Some g"
    by (cases "kmalloc_mts sv") simp_all
  let ?e = "case mt_find (dec_u128 bs) (ptable st) of None \<Rightarrow> g | Some x \<Rightarrow> x"
  from c g get_copy_cases [OF mt] have d: "exec_bind (mod_deref st (mt_module ?e)) k = Crash f" by simp
  show ?thesis
  proof (cases "kmodules st (mt_module ?e)")
    case (Some md)
    with d k [of md] show ?thesis by (auto simp: mod_deref_def)
  next
    case None
    have "mt_find (dec_u128 bs) (ptable st) = None"
    proof (rule ccontr)
      assume "mt_find (dec_u128 bs) (ptable st) \<noteq> None"
      then obtain x where x: "mt_find (dec_u128 bs) (ptable st) = Some x" by blast
      from mt_find_in [OF x] inv have "entry_live st x" by (auto simp: proxy_inv_def list_all_iff)
      with None x show False by (simp add: entry_live_def)
    qed
    with None g d cp show ?thesis by (auto simp: mod_deref_def stray_block_def)
  qed
qed

lemma get_uuid_size_faults:
  assumes "proxy_inv st" and "ioctl_get_uuid_size sv ptr m st = Crash f"
  shows "f = BadPointer \<and> stray_block sv ptr m st"
proof -
  from assms(2) obtain bs where cp: "copy_from_user sv m ptr 16 = (0, bs)"
    by (auto simp: ioctl_get_uuid_size_def split: prod.splits if_splits)
  show ?thesis
    by (rule lookup_faults [OF assms(1) cp])
      (use assms(2) cp in \<open>auto simp: ioctl_get_uuid_size_def Let_def split: prod.split\<close>)
qed

lemma get_layout_faults:
  assumes "proxy_inv st" and "ioctl_get_layout sv which ptr m st = Crash f"
  shows "f = BadPointer \<and> stray_block sv ptr m st"
proof -
  from assms(2) obtain bs where cp: "copy_from_user sv m ptr 16 = (0, bs)"
    by (auto simp: ioctl_get_layout_def split: prod.splits if_splits)
  show ?thesis
    by (rule lookup_faults [OF assms(1) cp])
      (use assms(2) cp in \<open>auto simp: ioctl_get_layout_def Let_def split: prod.split\<close>)
qed

lemma get_pending_never_faults:
  assumes "proxy_inv st"
  shows "ioctl_get_pending_module sv ptr m st \<noteq> Crash f"
proof -
  from assms have mt: "mt_inv (ptable st)" by (simp add: proxy_inv_def)
  show ?thesis
  proof (cases "mt_pending (ptable st)")
    case Nil
    with get_pending_Nil [of st] mt show ?thesis by simp
  next
    case (Cons x xs)
    obtain n m' where "copy_to_user sv m ptr (enc_u128 (mt_uuid x)) = (n, m')" by fastforce
    from get_pending_Cons [OF mt Cons this] show ?thesis by (auto split: if_splits)
  qed
qed

lemma cdev_ioctl_faults:
  assumes "proxy_inv st" and "cdev_ioctl sv num ptr m st = Crash f"
  shows "f = BadPointer \<and> stray_block sv ptr m st \<and>
    num \<in> {kvm_host_server_get_uuid_size (lxc_uio_cdev_major_number st),
      kvm_host_server_get_init_layout (lxc_uio_cdev_major_number st),
      kvm_host_server_get_core_layout (lxc_uio_cdev_major_number st)}"
  using assms(2) get_uuid_size_faults [OF assms(1)] get_layout_faults [OF assms(1)]
    get_pending_never_faults [OF assms(1)]
  by (auto simp: cdev_ioctl_def Let_def split: if_splits prod.splits)

end
