(* ===== verification/Proxy_Runs.thy ===== *)
theory Proxy_Runs
  imports Char_Device "HOL-Library.Sublist"
begin

text \<open>
  The proxy module as a transition system: containers insert modules, the server issues
  requests and writes packets, in any order; each handler is one step. A step carries the
  event the outside sees: a module put in, an identifier handed to the server, a delivery
  that failed in \<open>copy_to_user\<close>, or nothing. The lemmas lift the invariant to every
  reachable state and relate what was delivered to what was put in.
\<close>

datatype pevent = PutEv u128 | Delivered u128 | DeliveryFault | Quiet

definition pending_event :: "u64 \<Rightarrow> int \<Rightarrow> umem \<Rightarrow> pevent" where
  "pending_event param r m' =
     (if r = 1 then Delivered (dec_u128 (umem_read m' param 16))
      else if r < 0 then DeliveryFault else Quiet)"

inductive pstep :: "'e proxy \<Rightarrow> pevent \<Rightarrow> 'e proxy \<Rightarrow> bool" where
  put: "kmodules st md = Some km \<Longrightarrow> module_ok km \<Longrightarrow>
    mt_put_ok (krealloc_mt sv) (ptable st) \<Longrightarrow>
    lxc_uio_proxy_put_module_1 sv u ns md st = Ret (r, st') \<Longrightarrow> pstep st (PutEv u) st'"
| pending: "uaccess_ok sv \<Longrightarrow>
    cdev_ioctl sv (kvm_host_server_get_pending_module (lxc_uio_cdev_major_number st)) param m st
      = Ret (r, m', st') \<Longrightarrow> pstep st (pending_event param r m') st'"
| request: "num \<noteq> kvm_host_server_get_pending_module (lxc_uio_cdev_major_number st) \<Longrightarrow>
    cdev_ioctl sv num param m st = Ret (r, m', st') \<Longrightarrow> pstep st Quiet st'"
| packet: "cdev_write sv buff cnt m st = Ret (r, m') \<Longrightarrow> pstep st Quiet st"

inductive prun :: "'e proxy \<Rightarrow> pevent list \<Rightarrow> 'e proxy \<Rightarrow> bool" where
  nil: "prun st [] st"
| snoc: "prun st tr st1 \<Longrightarrow> pstep st1 ev st2 \<Longrightarrow> prun st (tr @ [ev]) st2"

inductive_simps prun_nil_simp [simp]: "prun st [] st'"

inductive_cases prun_snocE: "prun st (tr @ [ev]) st'"

definition puts_of :: "pevent list \<Rightarrow> u128 list" where
  "puts_of tr = List.map_filter (\<lambda>e. case e of PutEv u \<Rightarrow> Some u | _ \<Rightarrow> None) tr"

definition delivered_of :: "pevent list \<Rightarrow> u128 list" where
  "delivered_of tr = List.map_filter (\<lambda>e. case e of Delivered u \<Rightarrow> Some u | _ \<Rightarrow> None) tr"

lemma puts_of_simps [simp]:
  "puts_of [] = []" "puts_of (tr @ [PutEv u]) = puts_of tr @ [u]"
  "puts_of (tr @ [Delivered u]) = puts_of tr" "puts_of (tr @ [DeliveryFault]) = puts_of tr"
  "puts_of (tr @ [Quiet]) = puts_of tr"
  by (simp_all add: puts_of_def List.map_filter_def)

lemma delivered_of_simps [simp]:
  "delivered_of [] = []" "delivered_of (tr @ [PutEv u]) = delivered_of tr"
  "delivered_of (tr @ [Delivered u]) = delivered_of tr @ [u]"
  "delivered_of (tr @ [DeliveryFault]) = delivered_of tr"
  "delivered_of (tr @ [Quiet]) = delivered_of tr"
  by (simp_all add: delivered_of_def List.map_filter_def)

definition pending_uuids :: "'e proxy \<Rightarrow> u128 list" where
  "pending_uuids st = map mt_uuid (mt_pending (ptable st))"

lemma pending_uuids_frame [simp]:
  "pending_uuids (st\<lparr>ks := k\<rparr>) = pending_uuids st"
  "pending_uuids (st\<lparr>efds := e\<rparr>) = pending_uuids st"
  by (simp_all add: pending_uuids_def)

subsection \<open>One step\<close>

lemma send_event_only_efds:
  assumes "send_event sv st = Ret (r, st')"
  shows "\<exists>e. st' = st\<lparr>efds := e\<rparr>"
proof (cases "ks st")
  case None
  with assms have "st' = st\<lparr>efds := efds st\<rparr>" by (simp add: send_event_def)
  then show ?thesis by blast
next
  case (Some k)
  have same: "\<exists>e. st = st\<lparr>efds := e\<rparr>" by (rule exI [of _ "efds st"]) simp
  show ?thesis
  proof (cases "eventfd_ctx_fileget sv (ks_fp k)")
    case (Ret x)
    with assms Some same show ?thesis
      by (cases x) (auto simp: send_event_def split: if_splits)
  next
    case (Crash f)
    with assms Some same show ?thesis
      by (auto simp: send_event_def split: if_splits)
  qed
qed

lemma send_event_frame:
  assumes "send_event sv st = Ret (r, st')"
  shows "pending_uuids st' = pending_uuids st \<and> proxy_inv st' = proxy_inv st \<and>
    ptable st' = ptable st \<and> kmodules st' = kmodules st \<and> kmem st' = kmem st \<and> ks st' = ks st"
  using send_event_only_efds [OF assms] by auto

lemma put_module_step:
  assumes inv: "proxy_inv st" and md: "kmodules st md = Some km" "module_ok km"
    and ok: "mt_put_ok (krealloc_mt sv) (ptable st)"
    and ret: "lxc_uio_proxy_put_module_1 sv u ns md st = Ret (r, st')"
  shows "r = 0 \<and> proxy_inv st' \<and> pending_uuids st' = pending_uuids st @ [u]"
proof -
  let ?e = "\<lparr>mt_uuid = u, mt_nsproxy = ns, mt_module = md\<rparr>"
  from inv have "mt_inv (ptable st)" by (simp add: proxy_inv_def)
  from mt_pending_put [OF this ok] obtain t1 where
    t1: "table_put (krealloc_mt sv) ?e (ptable st) = Ret (0, t1)" "mt_inv t1"
      "mt_pending t1 = mt_pending (ptable st) @ [?e]"
      "mt_entries t1 = mt_entries (ptable st) @ [?e]"
    by blast
  from ret md t1(1) obtain r' where r: "r = 0" "send_event sv (st\<lparr>ptable := t1\<rparr>) = Ret (r', st')"
    by (auto simp: lxc_uio_proxy_put_module_1_def mod_deref_def exec_bind_eq_Ret_iff)
  have "proxy_inv (st\<lparr>ptable := t1\<rparr>)"
    using inv t1 md by (simp add: proxy_inv_def entry_live_def)
  with r send_event_frame [OF r(2)] t1(3) show ?thesis
    by (simp add: pending_uuids_def)
qed

text \<open>
  The insertion returns, instead of faulting, when the registered server (if any) has a
  live event file; it then signals that file once.
\<close>

definition server_live :: "'e kservices \<Rightarrow> 'e proxy \<Rightarrow> bool" where
  "server_live sv st \<longleftrightarrow>
     (case ks st of
        None \<Rightarrow> True
      | Some k \<Rightarrow> (case eventfd_ctx_fileget sv (ks_fp k) of Ret (EfdCtx c) \<Rightarrow> True | _ \<Rightarrow> False))"

definition signalled :: "'e kservices \<Rightarrow> 'e proxy \<Rightarrow> nat \<Rightarrow> 'e" where
  "signalled sv st =
     (case ks st of
        None \<Rightarrow> efds st
      | Some k \<Rightarrow>
          (case eventfd_ctx_fileget sv (ks_fp k) of
             Ret (EfdCtx c) \<Rightarrow> (efds st)(c := eventfd_signal sv (efds st c))
           | _ \<Rightarrow> efds st))"

lemma send_event_returns:
  assumes "mt_inv (ptable st)" and "mt_pending (ptable st) \<noteq> []" and "server_live sv st"
  shows "send_event sv st = Ret (0, st\<lparr>efds := signalled sv st\<rparr>)"
proof -
  have "table_peek (ptable st) \<noteq> MtNull" using assms(1,2) by (simp add: table_peek_null_iff)
  with assms(3) show ?thesis
    by (auto simp: send_event_def server_live_def signalled_def
        split: option.splits exec.splits efd_res.splits)
qed

lemma put_module_returns:
  assumes inv: "proxy_inv st" and md: "kmodules st md = Some km" "module_ok km"
    and ok: "mt_put_ok (krealloc_mt sv) (ptable st)" and live: "server_live sv st"
  obtains t1 where "lxc_uio_proxy_put_module_1 sv u ns md st =
      Ret (0, st\<lparr>ptable := t1, efds := signalled sv st\<rparr>)"
    "mt_inv t1" "mt_entries t1 = mt_entries (ptable st) @ [\<lparr>mt_uuid = u, mt_nsproxy = ns, mt_module = md\<rparr>]"
    "mt_pending t1 = mt_pending (ptable st) @ [\<lparr>mt_uuid = u, mt_nsproxy = ns, mt_module = md\<rparr>]"
proof -
  let ?e = "\<lparr>mt_uuid = u, mt_nsproxy = ns, mt_module = md\<rparr>"
  from inv have "mt_inv (ptable st)" by (simp add: proxy_inv_def)
  from mt_pending_put [OF this ok] obtain t1 where
    t1: "table_put (krealloc_mt sv) ?e (ptable st) = Ret (0, t1)" "mt_inv t1"
      "mt_pending t1 = mt_pending (ptable st) @ [?e]"
      "mt_entries t1 = mt_entries (ptable st) @ [?e]"
    by blast
  have sig: "server_live sv (st\<lparr>ptable := t1\<rparr>)" "signalled sv (st\<lparr>ptable := t1\<rparr>) = signalled sv st"
    using live by (simp_all add: server_live_def signalled_def split: option.split exec.split efd_res.split)
  have "send_event sv (st\<lparr>ptable := t1\<rparr>) = Ret (0, st\<lparr>ptable := t1, efds := signalled sv st\<rparr>)"
    using send_event_returns [OF _ _ sig(1)] t1 sig(2) by simp
  with t1 md(1) show thesis
    by (intro that [of t1]) (simp_all add: lxc_uio_proxy_put_module_1_def mod_deref_def)
qed

lemma get_uuid_size_frame:
  "ioctl_get_uuid_size sv ptr m st = Ret (r, m', st') \<Longrightarrow> st' = st"
  by (simp add: ioctl_get_uuid_size_def Let_def
      split: prod.splits if_splits option.splits exec_bind_splits)

lemma get_layout_frame:
  "ioctl_get_layout sv which ptr m st = Ret (r, m', st') \<Longrightarrow> st' = st"
  by (simp add: ioctl_get_layout_def Let_def
      split: prod.splits if_splits option.splits exec_bind_splits)

lemma register_frame: "ioctl_register sv param st = (r, st') \<Longrightarrow> \<exists>k. st' = st\<lparr>ks := k\<rparr>"
  by (auto simp: ioctl_register_def Let_def split: option.splits if_splits)

lemma request_frame:
  assumes "num \<noteq> kvm_host_server_get_pending_module (lxc_uio_cdev_major_number st)"
    and "cdev_ioctl sv num param m st = Ret (r, m', st')"
  shows "\<exists>k. st' = st\<lparr>ks := k\<rparr>"
proof -
  have same: "\<exists>k. st = st\<lparr>ks := k\<rparr>" by (rule exI [of _ "ks st"]) simp
  with assms show ?thesis
    by (auto simp: cdev_ioctl_def ioctl_de_register_def Let_def
        split: if_splits prod.splits dest: get_uuid_size_frame get_layout_frame register_frame)
qed

lemma pending_step:
  assumes inv: "proxy_inv st" and ua: "uaccess_ok sv"
    and ret: "ioctl_get_pending_module sv param m st = Ret (r, m', st')"
  shows "proxy_inv st' \<and>
    (case pending_event param r m' of
       Delivered u \<Rightarrow> pending_uuids st = u # pending_uuids st'
     | DeliveryFault \<Rightarrow> pending_uuids st' = pending_uuids st \<or>
         (\<exists>u. pending_uuids st = u # pending_uuids st')
     | _ \<Rightarrow> st' = st)"
proof (cases "mt_pending (ptable st)")
  case Nil
  with inv ret show ?thesis
    by (auto simp: proxy_inv_def get_pending_Nil pending_event_def)
next
  case (Cons x xs)
  obtain n m1 where cp: "copy_to_user sv m param (enc_u128 (mt_uuid x)) = (n, m1)" by fastforce
  from inv have mt: "mt_inv (ptable st)" by (simp add: proxy_inv_def)
  obtain t1 where t1: "mt_inv t1" "mt_pending t1 = xs" "mt_entries t1 = mt_entries (ptable st)"
      "ioctl_get_pending_module sv param m st =
        (if n = 0 then Ret (1, m1, st\<lparr>ptable := t1\<rparr>)
         else Ret (- int n, m1, if table_index (ptable st) = -1 then st\<lparr>ptable := t1\<rparr> else st))"
    using get_pending_Cons [OF mt Cons cp] by blast
  have inv1: "proxy_inv (st\<lparr>ptable := t1\<rparr>)"
    by (rule proxy_inv_pop [OF inv t1(1,3)])
  show ?thesis
  proof (cases "n = 0")
    case True
    then have "m1 = umem_write m param (enc_u128 (mt_uuid x))"
      using uaccess_to [OF ua] cp by simp
    with True t1 ret inv1 Cons show ?thesis
      using umem_read_write [of "enc_u128 (mt_uuid x)" m param]
      by (auto simp: pending_event_def pending_uuids_def)
  next
    case False
    with t1 ret inv inv1 Cons show ?thesis
      by (auto simp: pending_event_def pending_uuids_def)
  qed
qed

lemma pstep_inv: "pstep st ev st' \<Longrightarrow> proxy_inv st \<Longrightarrow> proxy_inv st'"
proof (induction rule: pstep.induct)
  case (put st md km sv u ns r st')
  then show ?case using put_module_step by blast
next
  case (pending sv st param m r m' st')
  then show ?case using pending_step [of st sv param m r m' st'] by simp
next
  case (request num st sv param m r m' st')
  then show ?case using request_frame [of num st sv param m r m' st'] by auto
next
  case (packet sv buff cnt m st r m')
  then show ?case by simp
qed

lemma prun_inv: "prun st tr st' \<Longrightarrow> proxy_inv st \<Longrightarrow> proxy_inv st'"
  by (induction rule: prun.induct) (auto intro: pstep_inv)

subsection \<open>Delivery order\<close>

lemma pstep_order:
  assumes "pstep st ev st'" and "proxy_inv st"
  shows "(case ev of
      PutEv u \<Rightarrow> pending_uuids st' = pending_uuids st @ [u]
    | Delivered u \<Rightarrow> pending_uuids st = u # pending_uuids st'
    | DeliveryFault \<Rightarrow> pending_uuids st' = pending_uuids st \<or>
         (\<exists>u. pending_uuids st = u # pending_uuids st')
    | Quiet \<Rightarrow> pending_uuids st' = pending_uuids st)"
  using assms
proof (induction rule: pstep.induct)
  case (put st md km sv u ns r st')
  then show ?case using put_module_step [of st md km sv u ns r st'] by simp
next
  case (pending sv st param m r m' st')
  then show ?case
    using pending_step [of st sv param m r m' st']
    by (cases "pending_event param r m'") (auto simp: pending_event_def split: if_splits)
next
  case (request num st sv param m r m' st')
  then show ?case using request_frame [of num st sv param m r m' st'] by auto
next
  case (packet sv buff cnt m st r m')
  then show ?case by simp
qed

lemma prun_order:
  "prun st tr st' \<Longrightarrow> proxy_inv st \<Longrightarrow>
     subseq (delivered_of tr @ pending_uuids st') (pending_uuids st @ puts_of tr)"
proof (induction rule: prun.induct)
  case (nil st)
  then show ?case by simp
next
  case (snoc st tr st1 ev st2)
  then have IH: "subseq (delivered_of tr @ pending_uuids st1) (pending_uuids st @ puts_of tr)"
    and inv: "proxy_inv st1"
    by (auto dest: prun_inv)
  note step = pstep_order [OF snoc.hyps(2) inv]
  show ?case
  proof (cases ev)
    case (PutEv u)
    with step IH show ?thesis
      using list_emb_append_mono [OF IH subseq_order.refl [of "[u]"]] by simp
  next
    case (Delivered u)
    with step IH show ?thesis by simp
  next
    case DeliveryFault
    with step consider "pending_uuids st2 = pending_uuids st1"
      | u where "pending_uuids st1 = u # pending_uuids st2" by auto
    then show ?thesis
    proof cases
      case 1
      with DeliveryFault IH show ?thesis by simp
    next
      case 2
      have "subseq (delivered_of tr @ pending_uuids st2) (delivered_of tr @ pending_uuids st1)"
        unfolding 2 by (intro list_emb_append_mono list_emb_Cons) simp_all
      with DeliveryFault IH show ?thesis
        by (auto intro: subseq_order.trans)
    qed
  next
    case Quiet
    with step IH show ?thesis by simp
  qed
qed

lemma prun_exact:
  "prun st tr st' \<Longrightarrow> proxy_inv st \<Longrightarrow> DeliveryFault \<notin> set tr \<Longrightarrow>
     delivered_of tr @ pending_uuids st' = pending_uuids st @ puts_of tr"
proof (induction rule: prun.induct)
  case (nil st)
  then show ?case by simp
next
  case (snoc st tr st1 ev st2)
  then have IH: "delivered_of tr @ pending_uuids st1 = pending_uuids st @ puts_of tr"
    and inv: "proxy_inv st1" and nf: "ev \<noteq> DeliveryFault"
    by (auto dest: prun_inv)
  have "delivered_of tr @ pending_uuids st1 @ us = pending_uuids st @ puts_of tr @ us" for us
    using IH by (metis append_assoc)
  then show ?case
    using pstep_order [OF snoc.hyps(2) inv] IH nf by (cases ev) simp_all
qed

end
