(* ===== verification/Uuid_Table.thy ===== *)
theory Uuid_Table
  imports Table_Interface Protocol
begin

text \<open>
  The server's table of modules (\<open>uuid-table.h\<close>). The array is reached through the
  pointer \<open>uuid_table\<close>, so the heap is explicit: an address holds a block of a given
  capacity, or nothing once it was freed. The answers of \<open>malloc\<close> and \<open>realloc\<close>
  are arguments: the address returned (0 is \<open>NULL\<close>) and the contents found there. The
  functions run under \<open>uuid_table_mutex\<close> and are single steps.
\<close>

subsection \<open>State\<close>

record UUID_table =
  uuid :: u128
  vmfd :: int
  vcpufd :: int
  memory :: vm_memory
  processed :: bool
  could_not_process :: bool

record ublock =
  ub_cap :: int
  ub_slot :: "nat \<Rightarrow> UUID_table"

record utable =
  uuid_table :: u64
  uuid_table_size :: int
  ut_num_entries :: int
  uheap :: "u64 \<Rightarrow> ublock option"
  errno :: int

text \<open>\<open>sizeof(struct UUID_table)\<close>: 16 + 4 + 4 + 280 + 2 bytes, aligned to 16.\<close>

definition sizeof_UUID_table :: int where
  "sizeof_UUID_table = 320"

text \<open>The initialisers of \<open>global-config.h\<close> and \<open>uuid-table.h\<close>.\<close>

definition utable_init :: utable where
  "utable_init = \<lparr>uuid_table = 0, uuid_table_size = 256, ut_num_entries = 0,
     uheap = (\<lambda>_. None), errno = 0\<rparr>"

definition ut_block :: "utable \<Rightarrow> ublock exec" where
  "ut_block t =
     (if uuid_table t = 0 then Crash NullDeref
      else case uheap t (uuid_table t) of None \<Rightarrow> Crash UseAfterFree | Some b \<Rightarrow> Ret b)"

text \<open>Reading and writing \<open>uuid_table[i]\<close>.\<close>

definition ut_read :: "utable \<Rightarrow> int \<Rightarrow> UUID_table exec" where
  "ut_read t i =
     exec_bind (ut_block t) (\<lambda>b.
       if 0 \<le> i \<and> i < ub_cap b then Ret (ub_slot b (nat i)) else Crash OutOfBounds)"

definition ut_write :: "utable \<Rightarrow> int \<Rightarrow> UUID_table \<Rightarrow> utable exec" where
  "ut_write t i e =
     exec_bind (ut_block t) (\<lambda>b.
       if 0 \<le> i \<and> i < ub_cap b
       then Ret (t\<lparr>uheap := (uheap t)(uuid_table t \<mapsto>
              b\<lparr>ub_slot := (ub_slot b)(nat i := e)\<rparr>)\<rparr>)
       else Crash OutOfBounds)"

subsection \<open>Operations\<close>

text \<open>What an allocation answered: the address, the contents of the block, and the
  value left in \<open>errno\<close>.\<close>

record alloc_res =
  al_ptr :: u64
  al_slot :: "nat \<Rightarrow> UUID_table"
  al_errno :: int

definition table_init :: "alloc_res \<Rightarrow> utable \<Rightarrow> int \<times> utable" where
  "table_init al t =
     (if uuid_table t \<noteq> 0 then (-1, t)
      else if al_ptr al = 0 then (- al_errno al, t\<lparr>uuid_table := 0, errno := al_errno al\<rparr>)
      else (0, t\<lparr>uuid_table := al_ptr al,
                 uheap := (uheap t)(al_ptr al \<mapsto>
                   \<lparr>ub_cap = uuid_table_size t, ub_slot = al_slot al\<rparr>),
                 ut_num_entries := 0\<rparr>))"

definition table_delete :: "utable \<Rightarrow> int \<times> utable" where
  "table_delete t =
     (if uuid_table t = 0 then (-1, t)
      else (0, t\<lparr>uheap := (uheap t)(uuid_table t := None)\<rparr>))"

text \<open>\<open>int newsize\<close> and \<open>int new_size_bytes\<close> of \<open>table_put\<close>.\<close>

definition newsize :: "utable \<Rightarrow> int" where
  "newsize t = s32 (2 * uuid_table_size t)"

definition new_size_bytes :: "utable \<Rightarrow> int" where
  "new_size_bytes t = s32 ((newsize t * sizeof_UUID_table) mod 2 ^ 64)"

text \<open>
  A successful \<open>realloc\<close> to \<open>n\<close> bytes: the block at the new address holds as many
  whole entries as fit; the old address is freed unless the block grew in place. The
  argument of \<open>realloc\<close> is a \<open>size_t\<close>.
\<close>

definition realloc_cap :: "utable \<Rightarrow> int" where
  "realloc_cap t = (new_size_bytes t mod 2 ^ 64) div sizeof_UUID_table"

definition do_realloc :: "alloc_res \<Rightarrow> utable \<Rightarrow> utable" where
  "do_realloc al t =
     t\<lparr>uheap := (uheap t)(uuid_table t := None, al_ptr al \<mapsto>
         \<lparr>ub_cap = realloc_cap t, ub_slot = al_slot al\<rparr>)\<rparr>"

definition table_put :: "alloc_res \<Rightarrow> UUID_table \<Rightarrow> utable \<Rightarrow> (int \<times> utable) exec" where
  "table_put al entry t =
     (if uuid_table t = 0 then Ret (-1, t)
      else if ut_num_entries t = uuid_table_size t \<and> al_ptr al = 0 then
        Ret (- al_errno al, t\<lparr>errno := al_errno al\<rparr>)
      else if ut_num_entries t > uuid_table_size t then Ret (0, t)
      else
        let t1 = (if ut_num_entries t = uuid_table_size t
                  then (do_realloc al t)\<lparr>uuid_table_size := newsize t\<rparr> else t)
        in exec_bind (ut_write t1 (ut_num_entries t1) entry) (\<lambda>t2.
             Ret (0, t2\<lparr>ut_num_entries := ut_num_entries t2 + 1\<rparr>)))"

text \<open>The counter is a \<open>long long\<close>; the local it passes through is an \<open>int\<close>.\<close>

definition get_table_num_entries :: "utable \<Rightarrow> int" where
  "get_table_num_entries t = s32 (ut_num_entries t)"

text \<open>\<open>ok\<close>: whether the \<open>malloc\<close> of the copy succeeded.\<close>

definition table_entry_at_index_copy :: "bool \<Rightarrow> int \<Rightarrow> utable \<Rightarrow> UUID_table option exec" where
  "table_entry_at_index_copy ok index t =
     (if index \<ge> ut_num_entries t then Ret None
      else if \<not> ok then Ret None
      else exec_bind (ut_read t index) (\<lambda>e. Ret (Some e)))"

text \<open>The macro \<open>table_set_xxx\<close>: \<open>upd\<close> assigns the chosen field.\<close>

definition table_set_xxx :: "int \<Rightarrow> (UUID_table \<Rightarrow> UUID_table) \<Rightarrow> utable \<Rightarrow> utable exec" where
  "table_set_xxx index upd t =
     (if index \<le> ut_num_entries t - 1
      then exec_bind (ut_read (t\<lparr>errno := 0\<rparr>) index) (\<lambda>e. ut_write (t\<lparr>errno := 0\<rparr>) index (upd e))
      else Ret (t\<lparr>errno := -1\<rparr>))"

lemmas uuid_table_ops [table_defs] =
  ut_block_def ut_read_def ut_write_def table_init_def table_delete_def do_realloc_def
  table_put_def get_table_num_entries_def table_entry_at_index_copy_def table_set_xxx_def

subsection \<open>Invariant and abstraction\<close>

definition ut_inv :: "utable \<Rightarrow> bool" where
  "ut_inv t \<longleftrightarrow>
     uuid_table t \<noteq> 0 \<and>
     (case uheap t (uuid_table t) of
        None \<Rightarrow> False
      | Some b \<Rightarrow> ub_cap b = uuid_table_size t) \<and>
     0 < uuid_table_size t \<and> 0 \<le> ut_num_entries t \<and> ut_num_entries t \<le> uuid_table_size t"

definition ut_entries :: "utable \<Rightarrow> UUID_table list" where
  "ut_entries t =
     (case uheap t (uuid_table t) of
        None \<Rightarrow> []
      | Some b \<Rightarrow> map (ub_slot b) [0..<nat (ut_num_entries t)])"

text \<open>
  An insertion into a full table keeps the table usable only when \<open>realloc\<close> grows the
  block where it is (the pointer \<open>uuid_table\<close> is not updated), keeps its contents, and
  the byte count fits an \<open>int\<close>.
\<close>

definition ut_put_ok :: "alloc_res \<Rightarrow> utable \<Rightarrow> bool" where
  "ut_put_ok al t \<longleftrightarrow>
     (ut_num_entries t = uuid_table_size t \<longrightarrow>
        al_ptr al = uuid_table t \<and> 2 * uuid_table_size t * sizeof_UUID_table < 2 ^ 31 \<and>
        (case uheap t (uuid_table t) of
           None \<Rightarrow> True
         | Some b \<Rightarrow> (\<forall>i. int i < ub_cap b \<longrightarrow> al_slot al i = ub_slot b i)))"

lemma ut_invE:
  assumes "ut_inv t"
  obtains b where "uuid_table t \<noteq> 0" "uheap t (uuid_table t) = Some b"
    "ub_cap b = uuid_table_size t" "0 < uuid_table_size t" "0 \<le> ut_num_entries t"
    "ut_num_entries t \<le> uuid_table_size t"
  using assms by (auto simp: ut_inv_def split: option.splits)

lemma ut_invI:
  "uuid_table t \<noteq> 0 \<Longrightarrow> uheap t (uuid_table t) = Some b \<Longrightarrow> ub_cap b = uuid_table_size t \<Longrightarrow>
     0 < uuid_table_size t \<Longrightarrow> 0 \<le> ut_num_entries t \<Longrightarrow> ut_num_entries t \<le> uuid_table_size t \<Longrightarrow>
     ut_inv t"
  by (simp add: ut_inv_def)

lemma length_ut_entries: "ut_inv t \<Longrightarrow> length (ut_entries t) = nat (ut_num_entries t)"
  by (auto simp: ut_entries_def elim: ut_invE)

lemma new_size_bytes_exact:
  assumes "0 < uuid_table_size t" and "2 * uuid_table_size t * sizeof_UUID_table < 2 ^ 31"
  shows "newsize t = 2 * uuid_table_size t" "new_size_bytes t = newsize t * sizeof_UUID_table"
    "realloc_cap t = 2 * uuid_table_size t"
  using assms by (simp_all add: newsize_def new_size_bytes_def realloc_cap_def sizeof_UUID_table_def)

subsection \<open>Access\<close>

lemma ut_read_entry:
  assumes "ut_inv t" and "i < length (ut_entries t)"
  shows "ut_read t (int i) = Ret (ut_entries t ! i)"
proof -
  from assms(1) obtain b where b: "uuid_table t \<noteq> 0" "uheap t (uuid_table t) = Some b"
      "ub_cap b = uuid_table_size t" "0 \<le> ut_num_entries t" "ut_num_entries t \<le> uuid_table_size t"
    by (rule ut_invE)
  with assms have "int i < ut_num_entries t"
    by (simp add: length_ut_entries)
  with b show ?thesis
    by (simp add: ut_read_def ut_block_def ut_entries_def)
qed

text \<open>A store below the capacity of the block: the table stays well-formed, nothing but
  the heap changes, and the slot holds the new entry.\<close>

lemma ut_write_slot:
  assumes b: "uuid_table t \<noteq> 0" "uheap t (uuid_table t) = Some b" and i: "0 \<le> i" "i < ub_cap b"
  shows "ut_write t i e = Ret (t\<lparr>uheap := (uheap t)(uuid_table t \<mapsto>
    b\<lparr>ub_slot := (ub_slot b)(nat i := e)\<rparr>)\<rparr>)"
  using assms by (simp add: ut_write_def ut_block_def)

lemma ut_write_entry:
  assumes inv: "ut_inv t" and i: "i < length (ut_entries t)"
  obtains h where "ut_write t (int i) e = Ret (t\<lparr>uheap := h\<rparr>)" "ut_inv (t\<lparr>uheap := h\<rparr>)"
    "ut_entries (t\<lparr>uheap := h\<rparr>) = (ut_entries t)[i := e]"
proof -
  from inv obtain b where b: "uuid_table t \<noteq> 0" "uheap t (uuid_table t) = Some b"
      "ub_cap b = uuid_table_size t" "0 < uuid_table_size t" "0 \<le> ut_num_entries t"
      "ut_num_entries t \<le> uuid_table_size t"
    by (rule ut_invE)
  let ?b = "b\<lparr>ub_slot := (ub_slot b)(i := e)\<rparr>"
  let ?h = "(uheap t)(uuid_table t \<mapsto> ?b)"
  have lt: "int i < ut_num_entries t"
    using inv i by (simp add: length_ut_entries)
  have "ut_write t (int i) e = Ret (t\<lparr>uheap := ?h\<rparr>)"
    using ut_write_slot [OF b(1,2), of "int i" e] lt b by simp
  moreover have "ut_inv (t\<lparr>uheap := ?h\<rparr>)"
    by (rule ut_invI [where b = ?b]) (use b in simp_all)
  moreover have "ut_entries (t\<lparr>uheap := ?h\<rparr>) = (ut_entries t)[i := e]"
    using b lt by (auto simp: ut_entries_def list_eq_iff_nth_eq nth_list_update)
  ultimately show thesis by (rule that)
qed

lemma ut_errno_frame [simp]:
  "ut_inv (t\<lparr>errno := x\<rparr>) = ut_inv t" "ut_entries (t\<lparr>errno := x\<rparr>) = ut_entries t"
  by (simp_all add: ut_inv_def ut_entries_def cong: option.case_cong)

lemma table_set_xxx_entry:
  assumes inv: "ut_inv t" and i: "i < length (ut_entries t)"
  obtains h where "table_set_xxx (int i) upd t = Ret (t\<lparr>errno := 0, uheap := h\<rparr>)"
    "ut_inv (t\<lparr>errno := 0, uheap := h\<rparr>)"
    "ut_entries (t\<lparr>errno := 0, uheap := h\<rparr>) = (ut_entries t)[i := upd (ut_entries t ! i)]"
proof -
  have inv0: "ut_inv (t\<lparr>errno := 0\<rparr>)" and i0: "i < length (ut_entries (t\<lparr>errno := 0\<rparr>))"
    using inv i by simp_all
  have "int i \<le> ut_num_entries t - 1"
    using inv i by (simp add: length_ut_entries)
  moreover obtain h where "ut_write (t\<lparr>errno := 0\<rparr>) (int i) (upd (ut_entries t ! i)) =
        Ret (t\<lparr>errno := 0, uheap := h\<rparr>)" "ut_inv (t\<lparr>errno := 0, uheap := h\<rparr>)"
      "ut_entries (t\<lparr>errno := 0, uheap := h\<rparr>) = (ut_entries t)[i := upd (ut_entries t ! i)]"
    using ut_write_entry [OF inv0 i0, of "upd (ut_entries t ! i)"] by auto
  ultimately show thesis
    using ut_read_entry [OF inv0 i0]
    by (intro that [of h]) (simp_all add: table_set_xxx_def)
qed

lemma entry_copy_at:
  assumes "ut_inv t" and "i < length (ut_entries t)"
  shows "table_entry_at_index_copy True (int i) t = Ret (Some (ut_entries t ! i))"
  using assms by (simp add: table_entry_at_index_copy_def ut_read_entry length_ut_entries)

subsection \<open>Insertion\<close>

lemma ut_put_append:
  assumes inv: "ut_inv t" and ok: "ut_put_ok al t"
  shows "\<exists>t'. table_put al e t = Ret (0, t') \<and> ut_inv t' \<and> ut_entries t' = ut_entries t @ [e] \<and>
    uuid_table t' = uuid_table t \<and> errno t' = errno t"
proof -
  from inv obtain b where b: "uuid_table t \<noteq> 0" "uheap t (uuid_table t) = Some b"
      "ub_cap b = uuid_table_size t" "0 < uuid_table_size t" "0 \<le> ut_num_entries t"
      "ut_num_entries t \<le> uuid_table_size t"
    by (rule ut_invE)
  define t1 where "t1 = (if ut_num_entries t = uuid_table_size t
                  then (do_realloc al t)\<lparr>uuid_table_size := newsize t\<rparr> else t)"
  have put: "table_put al e t = exec_bind (ut_write t1 (ut_num_entries t1) e) (\<lambda>t2.
             Ret (0, t2\<lparr>ut_num_entries := ut_num_entries t2 + 1\<rparr>))"
    using b ok by (auto simp: table_put_def t1_def ut_put_ok_def Let_def)
  have "\<exists>b1. uheap t1 (uuid_table t) = Some b1 \<and> ub_cap b1 = uuid_table_size t1 \<and>
      ut_num_entries t < ub_cap b1 \<and> (\<forall>i < nat (ut_num_entries t). ub_slot b1 i = ub_slot b i)"
  proof (cases "ut_num_entries t = uuid_table_size t")
    case True
    with ok b have al: "al_ptr al = uuid_table t" "\<And>i. int i < ub_cap b \<Longrightarrow> al_slot al i = ub_slot b i"
      and "2 * uuid_table_size t * sizeof_UUID_table < 2 ^ 31"
      by (auto simp: ut_put_ok_def)
    with new_size_bytes_exact [OF b(4)] b True show ?thesis
      by (auto simp: t1_def do_realloc_def)
  next
    case False
    with b show ?thesis by (simp add: t1_def)
  qed
  then obtain b1 where b1: "uheap t1 (uuid_table t) = Some b1" "ub_cap b1 = uuid_table_size t1"
      "ut_num_entries t < ub_cap b1" "\<And>i. i < nat (ut_num_entries t) \<Longrightarrow> ub_slot b1 i = ub_slot b i"
    by blast
  have same: "uuid_table t1 = uuid_table t" "ut_num_entries t1 = ut_num_entries t" "errno t1 = errno t"
    by (simp_all add: t1_def do_realloc_def)
  let ?b2 = "b1\<lparr>ub_slot := (ub_slot b1)(nat (ut_num_entries t) := e)\<rparr>"
  let ?t' = "t1\<lparr>uheap := (uheap t1)(uuid_table t \<mapsto> ?b2), ut_num_entries := ut_num_entries t + 1\<rparr>"
  have "table_put al e t = Ret (0, ?t')"
    using ut_write_slot [of t1 b1 "ut_num_entries t" e] b b1 same by (simp add: put)
  moreover have "ut_inv ?t'"
    by (rule ut_invI [where b = ?b2]) (use b b1 same in simp_all)
  moreover have "[0..<nat (ut_num_entries t + 1)] = [0..<nat (ut_num_entries t)] @ [nat (ut_num_entries t)]"
    using b(5) by (simp add: nat_add_distrib)
  then have "ut_entries ?t' = ut_entries t @ [e]"
    using b(2) b1(4) same by (simp add: ut_entries_def)
  ultimately show ?thesis using same by simp
qed

text \<open>The table of the server honours the append contract.\<close>

interpretation uta: append_table table_put ut_put_ok ut_entries ut_inv
proof unfold_locales
  show "\<exists>s'. table_put e x s = Ret (0, s') \<and> ut_inv s' \<and> ut_entries s' = ut_entries s @ [x]"
    if "ut_inv s" "ut_put_ok e s" for s e x
    using ut_put_append [OF that, of x] by blast
qed

lemma ut_inv_table_init:
  assumes "uuid_table t = 0" and "0 < uuid_table_size t" and "al_ptr al \<noteq> 0"
  shows "fst (table_init al t) = 0 \<and> ut_inv (snd (table_init al t)) \<and>
    ut_entries (snd (table_init al t)) = []"
  using assms by (simp add: table_init_def ut_inv_def ut_entries_def)

end
