(* ===== verification/Host_Memory.thy ===== *)
theory Host_Memory
  imports Proxy_Runs Uuid_Table
begin

text \<open>
  How the server prepares the memory of a virtual machine: \<open>new_memory\<close>
  (\<open>vm-memory.h\<close>), \<open>get_uuid_layout\<close> and \<open>initialize_memory_uuid\<close>
  (\<open>uuid-table.h\<close>), \<open>get_uuid_size\<close> and \<open>send_packet\<close>
  (\<open>kvm-host-server.c\<close>). A request to the device runs the model of \<open>cdev_ioctl\<close>
  or \<open>cdev_write\<close> on the same user memory. The answers of \<open>malloc\<close>, \<open>mmap\<close>,
  \<open>sysconf\<close> and of KVM are fields of the environment record of the call.
\<close>

subsection \<open>The whole system\<close>

record 'e world =
  wproxy :: "'e proxy"
  wmem :: umem
  wtable :: utable
  wmajor :: int
  wout :: "u8 list"

text \<open>
  The C library turns a negative kernel result between -4095 and -1 into -1 (and
  \<open>errno\<close>).
\<close>

definition sys_ret :: "int \<Rightarrow> int" where
  "sys_ret r = (if -4095 \<le> r \<and> r < 0 then -1 else r)"

lemma sys_ret_simps [simp]: "sys_ret 0 = 0" "sys_ret 1 = 1" "sys_ret (-1) = -1"
  by (simp_all add: sys_ret_def)

lemma sys_ret_sign: "sys_ret r < 0 \<longleftrightarrow> r < 0" "sys_ret r = 0 \<longleftrightarrow> r = 0"
  "sys_ret r = 1 \<longleftrightarrow> r = 1"
  by (auto simp: sys_ret_def)

definition dev_ioctl :: "'e kservices \<Rightarrow> u32 \<Rightarrow> u64 \<Rightarrow> 'e world \<Rightarrow> (int \<times> 'e world) exec" where
  "dev_ioctl sv num param w =
     exec_bind (cdev_ioctl sv num param (wmem w) (wproxy w)) (\<lambda>(r, m, px).
       Ret (sys_ret r, w\<lparr>wmem := m, wproxy := px\<rparr>))"

subsection \<open>Memory descriptors\<close>

text \<open>\<open>new_memory\<close>: the block \<open>malloc\<close> returned, with three fields set.\<close>

definition new_memory :: "vm_memory option \<Rightarrow> vm_memory option" where
  "new_memory al =
     (case al of
        None \<Rightarrow> None
      | Some m \<Rightarrow> Some (m\<lparr>num_regions := 0, base_IDT := 0, size_IDT := 0\<rparr>))"

text \<open>The pointer returned (0 is \<open>NULL\<close>); \<open>buf\<close> is what \<open>malloc\<close> returned.\<close>

definition set_errno :: "int \<Rightarrow> 'e world \<Rightarrow> 'e world" where
  "set_errno x w = w\<lparr>wtable := (wtable w)\<lparr>errno := x\<rparr>\<rparr>"

definition get_uuid_layout ::
    "'e kservices \<Rightarrow> u64 \<Rightarrow> u128 \<Rightarrow> u32 \<Rightarrow> 'e world \<Rightarrow> (u64 \<times> 'e world) exec" where
  "get_uuid_layout sv buf u layout w =
     (let w0 = set_errno 0 w in
      if layout = kvm_host_server_get_init_layout (wmajor w) \<or>
         layout = kvm_host_server_get_core_layout (wmajor w)
      then
        if buf = 0 then Ret (0, set_errno ENOMEM w0)
        else exec_bind (dev_ioctl sv layout buf
                 (w0\<lparr>wmem := umem_write (wmem w) buf (enc_u128 u)\<rparr>)) (\<lambda>(ret_val, w').
               if ret_val = 0 then Ret (buf, w')
               else if ret_val < 0 then Ret (0, set_errno ret_val w')
               else Ret (0, set_errno (-1) w'))
      else Ret (0, set_errno (-1) w0))"

text \<open>\<open>*layout\<close>: the structure at the returned pointer.\<close>

definition layout_at :: "'e world \<Rightarrow> u64 \<Rightarrow> module_layout" where
  "layout_at w p = dec_layout (umem_read (wmem w) p sizeof_module_layout)"

definition get_uuid_size ::
    "'e kservices \<Rightarrow> u64 \<Rightarrow> u128 \<Rightarrow> 'e world \<Rightarrow> (u32 \<times> 'e world) exec" where
  "get_uuid_size sv adr u w =
     exec_bind (dev_ioctl sv (kvm_host_server_get_uuid_size (wmajor w)) adr
         (w\<lparr>wmem := umem_write (wmem w) adr (enc_u128 u)\<rparr>)) (\<lambda>(ret_val, w').
       if ret_val < 0 then Ret (0, set_errno ret_val w')
       else Ret (dec_u32 (umem_read (wmem w') adr 4), set_errno 0 w'))"

subsection \<open>initialize\_memory\_uuid\<close>

definition MAP_FAILED :: u64 where
  "MAP_FAILED = -1"

record 'e init_env =
  page_size :: int
  mem_IDT :: u64
  mem_init :: u64
  mem_core :: u64
  set_IDT :: int
  set_init :: int
  set_core :: int
  buf_init :: u64
  buf_core :: u64
  sv_init :: "'e kservices"
  sv_core :: "'e kservices"

text \<open>\<open>Goto r\<close>: leave with \<open>ret_val = r\<close>. \<open>Next r\<close>: go on, \<open>ret_val\<close> being \<open>r\<close>.\<close>

datatype flow = Goto int | Next int

text \<open>An assignment to fields of \<open>uuid_table[i].memory\<close>.\<close>

definition set_mem :: "int \<Rightarrow> (vm_memory \<Rightarrow> vm_memory) \<Rightarrow> 'e world \<Rightarrow> 'e world exec" where
  "set_mem i f w =
     exec_bind (ut_read (wtable w) i) (\<lambda>e.
       exec_bind (ut_write (wtable w) i (e\<lparr>memory := f (memory e)\<rparr>)) (\<lambda>t. Ret (w\<lparr>wtable := t\<rparr>)))"

definition config_IDT_pages :: int where
  "config_IDT_pages = 1"

definition config_IDT_base :: u64 where
  "config_IDT_base = 0"

definition IDT_size :: "'e init_env \<Rightarrow> u32" where
  "IDT_size env = word_of_int (page_size env * config_IDT_pages)"

text \<open>The region structures are filled field by field; \<open>flags\<close> is not assigned.\<close>

definition fill_region :: "u32 \<Rightarrow> u64 \<Rightarrow> u32 \<Rightarrow> u64 \<Rightarrow> kvm_region \<Rightarrow> kvm_region" where
  "fill_region s gpa sz uaddr r =
     r\<lparr>slot := s, guest_phys_addr := gpa, memory_size := ucast sz, userspace_addr := uaddr\<rparr>"

definition fill_IDT :: "'e init_env \<Rightarrow> vm_memory \<Rightarrow> vm_memory" where
  "fill_IDT env m =
     m\<lparr>size_IDT := IDT_size env, base_IDT := config_IDT_base,
       region_IDT := fill_region 0 config_IDT_base (IDT_size env) (mem_IDT env) (region_IDT m)\<rparr>"

definition fill_init :: "'e init_env \<Rightarrow> module_layout \<Rightarrow> vm_memory \<Rightarrow> vm_memory" where
  "fill_init env l m =
     m\<lparr>region_init := fill_region 1 (ml_base l) (ml_size l) (mem_init env) (region_init m)\<rparr>"

definition fill_core :: "'e init_env \<Rightarrow> module_layout \<Rightarrow> vm_memory \<Rightarrow> vm_memory" where
  "fill_core env l m =
     m\<lparr>region_core := fill_region 2 0x1000 (ml_size l) (mem_core env) (region_core m)\<rparr>"

definition inc_regions :: "vm_memory \<Rightarrow> vm_memory" where
  "inc_regions m = m\<lparr>num_regions := num_regions m + 1\<rparr>"

text \<open>Fill a region, register it with KVM (result \<open>kr\<close>), count it.\<close>

definition add_region :: "int \<Rightarrow> (vm_memory \<Rightarrow> vm_memory) \<Rightarrow> int \<Rightarrow> 'e world \<Rightarrow>
    (flow \<times> 'e world) exec" where
  "add_region i fill kr w =
     exec_bind (set_mem i fill w) (\<lambda>w1.
       if kr < 0 then Ret (Goto kr, w1)
       else exec_bind (set_mem i inc_regions w1) (\<lambda>w2. Ret (Next kr, w2)))"

definition init_IDT_area :: "'e init_env \<Rightarrow> int \<Rightarrow> 'e world \<Rightarrow> (flow \<times> 'e world) exec" where
  "init_IDT_area env i w =
     exec_bind (ut_read (wtable w) i) (\<lambda>e.
       if num_regions (memory e) < 0 then Ret (Goto (-1), w)
       else if num_regions (memory e) \<noteq> 0 then Ret (Goto (-1), w)
       else if mem_IDT env = MAP_FAILED then Ret (Goto (-1), w)
       else add_region i (fill_IDT env) (set_IDT env) w)"

definition init_init_area ::
    "'e init_env \<Rightarrow> u128 \<Rightarrow> int \<Rightarrow> int \<Rightarrow> 'e world \<Rightarrow> (flow \<times> 'e world) exec" where
  "init_init_area env u i ret_val w =
     exec_bind (get_uuid_layout (sv_init env) (buf_init env) u
         (kvm_host_server_get_init_layout (wmajor w)) w) (\<lambda>(p, w1).
       if p = 0 then Ret (Goto ret_val, w1)
       else if mem_init env = MAP_FAILED then Ret (Goto (-1), w1)
       else add_region i (fill_init env (layout_at w1 p)) (set_init env) w1)"

definition init_core_area ::
    "'e init_env \<Rightarrow> u128 \<Rightarrow> int \<Rightarrow> int \<Rightarrow> 'e world \<Rightarrow> (flow \<times> 'e world) exec" where
  "init_core_area env u i ret_val w =
     exec_bind (get_uuid_layout (sv_core env) (buf_core env) u
         (kvm_host_server_get_core_layout (wmajor w)) w) (\<lambda>(p, w1).
       if p = 0 then Ret (Goto ret_val, w1)
       else if mem_core env = MAP_FAILED then Ret (Goto (-1), w1)
       else add_region i (fill_core env (layout_at w1 p)) (set_core env) w1)"

definition flow_bind :: "(flow \<times> 'e world) exec \<Rightarrow> (int \<Rightarrow> 'e world \<Rightarrow> (flow \<times> 'e world) exec) \<Rightarrow>
    (flow \<times> 'e world) exec" where
  "flow_bind x f =
     exec_bind x (\<lambda>(fl, w). case fl of Goto r \<Rightarrow> Ret (Goto r, w) | Next r \<Rightarrow> f r w)"

definition init_entry :: "'e init_env \<Rightarrow> u128 \<Rightarrow> int \<Rightarrow> 'e world \<Rightarrow> (flow \<times> 'e world) exec" where
  "init_entry env u i w =
     flow_bind (init_IDT_area env i w) (\<lambda>r1 w1.
       flow_bind (init_init_area env u i r1 w1) (\<lambda>r2 w2.
         flow_bind (init_core_area env u i r2 w2) (\<lambda>r3 w3. Ret (Next 0, w3))))"

text \<open>The scan, with \<open>debug_on\<close>: it goes on after a match to detect a second one.\<close>

primrec init_scan ::
    "'e init_env \<Rightarrow> u128 \<Rightarrow> bool \<Rightarrow> int \<Rightarrow> nat list \<Rightarrow> 'e world \<Rightarrow> (int \<times> 'e world) exec" where
  "init_scan env u found ret_val [] w = Ret (if found then ret_val else -1, w)"
| "init_scan env u found ret_val (i # is) w =
     exec_bind (ut_read (wtable w) (int i)) (\<lambda>e.
       if uuid e = u then
         if found then Ret (-1, w)
         else exec_bind (init_entry env u (int i) w) (\<lambda>(fl, w').
           case fl of Goto r \<Rightarrow> Ret (r, w') | Next r \<Rightarrow> init_scan env u True r is w')
       else init_scan env u found ret_val is w)"

definition initialize_memory_uuid ::
    "'e init_env \<Rightarrow> u128 \<Rightarrow> 'e world \<Rightarrow> (int \<times> 'e world) exec" where
  "initialize_memory_uuid env u w =
     init_scan env u False 0 [0..<nat (ut_num_entries (wtable w))] w"

subsection \<open>send\_packet\<close>

definition send_packet ::
    "'e kservices \<Rightarrow> u64 \<Rightarrow> u128 \<Rightarrow> vm_memory \<Rightarrow> 'e world \<Rightarrow> (int \<times> 'e world) exec" where
  "send_packet sv adr u mem w =
     (let packet1 = \<lparr>pk_uuid = u, pk_memory = mem\<rparr>;
          m1 = umem_write (wmem w) adr (enc_packet packet1)
      in exec_bind (cdev_write sv adr (word_of_nat sizeof_packet) m1 (wproxy w)) (\<lambda>(r, m2).
           let bytes_written = sys_ret r; w' = w\<lparr>wmem := m2\<rparr> in
           if bytes_written < 0 then Ret (-1, w')
           else if bytes_written = int sizeof_packet then Ret (0, w')
           else Ret (-1, w')))"

lemmas host_memory_defs [server_defs] =
  dev_ioctl_def new_memory_def get_uuid_layout_def layout_at_def get_uuid_size_def set_mem_def
  add_region_def init_IDT_area_def init_init_area_def init_core_area_def flow_bind_def
  init_entry_def initialize_memory_uuid_def send_packet_def

subsection \<open>Assignments to one entry\<close>

definition wentries :: "'e world \<Rightarrow> UUID_table list" where
  "wentries w = ut_entries (wtable w)"

definition winv :: "'e world \<Rightarrow> bool" where
  "winv w \<longleftrightarrow> ut_inv (wtable w)"

lemma wentries_frame [simp]:
  "wentries (w\<lparr>wmem := m\<rparr>) = wentries w" "wentries (w\<lparr>wproxy := px\<rparr>) = wentries w"
  "wentries (w\<lparr>wout := out\<rparr>) = wentries w" "wentries (set_errno x w) = wentries w"
  by (simp_all add: wentries_def set_errno_def)

lemma winv_frame [simp]:
  "winv (w\<lparr>wmem := m\<rparr>) = winv w" "winv (w\<lparr>wproxy := px\<rparr>) = winv w"
  "winv (w\<lparr>wout := out\<rparr>) = winv w" "winv (set_errno x w) = winv w"
  by (simp_all add: winv_def set_errno_def)

lemma set_errno_fields [simp]:
  "wproxy (set_errno x w) = wproxy w" "wmem (set_errno x w) = wmem w"
  "wmajor (set_errno x w) = wmajor w" "wout (set_errno x w) = wout w"
  by (simp_all add: set_errno_def)

lemma read_entry:
  "winv w \<Longrightarrow> i < length (wentries w) \<Longrightarrow> ut_read (wtable w) (int i) = Ret (wentries w ! i)"
  by (simp add: winv_def wentries_def ut_read_entry)

lemma set_mem_entry:
  assumes "winv w" and "i < length (wentries w)"
  obtains t where "set_mem (int i) f w = Ret (w\<lparr>wtable := t\<rparr>)" "winv (w\<lparr>wtable := t\<rparr>)"
    "wentries (w\<lparr>wtable := t\<rparr>) =
       (wentries w)[i := (wentries w ! i)\<lparr>memory := f (memory (wentries w ! i))\<rparr>]"
proof -
  let ?e = "(wentries w ! i)\<lparr>memory := f (memory (wentries w ! i))\<rparr>"
  obtain h where "ut_write (wtable w) (int i) ?e = Ret ((wtable w)\<lparr>uheap := h\<rparr>)"
      "ut_inv ((wtable w)\<lparr>uheap := h\<rparr>)"
      "ut_entries ((wtable w)\<lparr>uheap := h\<rparr>) = (wentries w)[i := ?e]"
    using ut_write_entry [of "wtable w" i ?e] assms unfolding winv_def wentries_def by blast
  then show thesis
    using assms by (intro that [of "(wtable w)\<lparr>uheap := h\<rparr>"])
      (simp_all add: set_mem_def read_entry, simp_all add: winv_def wentries_def)
qed

lemma add_region_entry:
  assumes w: "winv w" "i < length (wentries w)" and kr: "0 \<le> kr"
  obtains t where "add_region (int i) fill kr w = Ret (Next kr, w\<lparr>wtable := t\<rparr>)"
    "winv (w\<lparr>wtable := t\<rparr>)"
    "wentries (w\<lparr>wtable := t\<rparr>) = (wentries w)[i := (wentries w ! i)
       \<lparr>memory := inc_regions (fill (memory (wentries w ! i)))\<rparr>]"
proof -
  obtain t1 where t1: "set_mem (int i) fill w = Ret (w\<lparr>wtable := t1\<rparr>)" "winv (w\<lparr>wtable := t1\<rparr>)"
      "wentries (w\<lparr>wtable := t1\<rparr>) =
         (wentries w)[i := (wentries w ! i)\<lparr>memory := fill (memory (wentries w ! i))\<rparr>]"
    by (rule set_mem_entry [OF w])
  have i: "i < length (wentries (w\<lparr>wtable := t1\<rparr>))"
    using w(2) t1(3) by simp
  obtain t2 where "set_mem (int i) inc_regions (w\<lparr>wtable := t1\<rparr>) = Ret (w\<lparr>wtable := t2\<rparr>)"
      "winv (w\<lparr>wtable := t2\<rparr>)"
      "wentries (w\<lparr>wtable := t2\<rparr>) = (wentries w)[i := (wentries w ! i)
       \<lparr>memory := inc_regions (fill (memory (wentries w ! i)))\<rparr>]"
    using set_mem_entry [OF t1(2) i, of inc_regions] t1(3) w(2) by auto
  with t1(1) kr show thesis
    by (intro that [of t2]) (simp_all add: add_region_def)
qed

subsection \<open>Layouts fetched from the device\<close>

text \<open>The user buffer at \<open>a\<close> can be read and written by the kernel.\<close>

definition accessible :: "'e kservices \<Rightarrow> u64 \<Rightarrow> bool" where
  "accessible sv a \<longleftrightarrow>
     (\<forall>m bs. fst (copy_to_user sv m a bs) = 0) \<and> (\<forall>m n. fst (copy_from_user sv m a n) = 0)"

lemma accessible_to:
  "uaccess_ok sv \<Longrightarrow> accessible sv a \<Longrightarrow> copy_to_user sv m a bs = (0, umem_write m a bs)"
  by (metis accessible_def prod.collapse uaccess_to)

lemma accessible_from:
  "uaccess_ok sv \<Longrightarrow> accessible sv a \<Longrightarrow> copy_from_user sv m a n = (0, umem_read m a n)"
  by (metis accessible_def prod.collapse uaccess_from)

text \<open>The proxy holds a live module for \<open>u\<close>.\<close>

definition knows :: "'e proxy \<Rightarrow> u128 \<Rightarrow> kmodule \<Rightarrow> bool" where
  "knows px u md \<longleftrightarrow>
     proxy_inv px \<and> (\<exists>x. mt_find u (ptable px) = Some x \<and> kmodules px (mt_module x) = Some md)"

definition sel_layout :: "layout_req \<Rightarrow> kmodule \<Rightarrow> module_layout" where
  "sel_layout which md = (case which of InitLayout \<Rightarrow> mod_init_layout md | CoreLayout \<Rightarrow> mod_core_layout md)"

definition layout_number :: "layout_req \<Rightarrow> int \<Rightarrow> u32" where
  "layout_number which major =
     (case which of InitLayout \<Rightarrow> kvm_host_server_get_init_layout major
                  | CoreLayout \<Rightarrow> kvm_host_server_get_core_layout major)"

lemma cdev_ioctl_layout:
  "cdev_ioctl sv (layout_number which (lxc_uio_cdev_major_number px)) p m px =
     ioctl_get_layout sv which p m px"
  by (cases which) (simp_all add: layout_number_def)

lemma knows_layout_ok: "knows px u md \<Longrightarrow> layout_ok (sel_layout which md)"
  unfolding knows_def
  by (cases which) (auto elim!: proxy_find [where km = "Some _"] simp: sel_layout_def)

lemma get_uuid_layout_ok:
  assumes k: "knows (wproxy w) u md" and sv: "uaccess_ok sv" "accessible sv buf" "kmalloc_mts sv \<noteq> None"
    and w: "wmajor w = lxc_uio_cdev_major_number (wproxy w)" and buf: "buf \<noteq> 0"
  obtains m' where
    "get_uuid_layout sv buf u (layout_number which (wmajor w)) w =
       Ret (buf, (set_errno 0 w)\<lparr>wmem := m'\<rparr>)"
    "layout_at ((set_errno 0 w)\<lparr>wmem := m'\<rparr>) buf = sel_layout which md"
proof -
  let ?l = "sel_layout which md"
  let ?m = "umem_write (wmem w) buf (enc_u128 u)"
  from k obtain x where x: "proxy_inv (wproxy w)" "mt_find u (ptable (wproxy w)) = Some x"
      "kmodules (wproxy w) (mt_module x) = Some md"
    by (auto simp: knows_def)
  from sv(3) obtain g where g: "kmalloc_mts sv = Some g" by blast
  have len: "length (enc_layout ?l) = sizeof_module_layout"
    by (rule length_enc_layout [OF knows_layout_ok [OF k]])
  have rd: "copy_from_user sv ?m buf 16 = (0, enc_u128 u)"
    using accessible_from [OF sv(1,2), of ?m 16] umem_read_write [of "enc_u128 u" "wmem w" buf]
    by simp
  have io: "ioctl_get_layout sv which buf ?m (wproxy w) =
      Ret (0, umem_write ?m buf (enc_layout ?l), wproxy w)"
    using get_layout_ok [OF x(1) sv(1) g rd x(2,3) sel_layout_def accessible_to [OF sv(1,2)]]
    by simp
  have num: "layout_number which (wmajor w) = kvm_host_server_get_init_layout (wmajor w) \<or>
      layout_number which (wmajor w) = kvm_host_server_get_core_layout (wmajor w)"
    by (cases which) (simp_all add: layout_number_def)
  have "get_uuid_layout sv buf u (layout_number which (wmajor w)) w =
      Ret (buf, (set_errno 0 w)\<lparr>wmem := umem_write ?m buf (enc_layout ?l)\<rparr>)"
    using num buf io w by (simp add: get_uuid_layout_def dev_ioctl_def Let_def cdev_ioctl_layout)
  moreover have "layout_at ((set_errno 0 w)\<lparr>wmem := umem_write ?m buf (enc_layout ?l)\<rparr>) buf = ?l"
    using umem_read_write [of "enc_layout ?l" ?m buf] dec_enc_layout [OF knows_layout_ok [OF k]]
    by (simp add: layout_at_def len sizeof_module_layout_def)
  ultimately show thesis by (rule that)
qed

subsection \<open>Initialising an entry\<close>

text \<open>Every call of the environment succeeds.\<close>

definition init_env_ok :: "'e init_env \<Rightarrow> bool" where
  "init_env_ok env \<longleftrightarrow>
     mem_IDT env \<noteq> MAP_FAILED \<and> mem_init env \<noteq> MAP_FAILED \<and> mem_core env \<noteq> MAP_FAILED \<and>
     0 \<le> set_IDT env \<and> 0 \<le> set_init env \<and> 0 \<le> set_core env \<and>
     buf_init env \<noteq> 0 \<and> buf_core env \<noteq> 0 \<and>
     uaccess_ok (sv_init env) \<and> accessible (sv_init env) (buf_init env) \<and>
     kmalloc_mts (sv_init env) \<noteq> None \<and>
     uaccess_ok (sv_core env) \<and> accessible (sv_core env) (buf_core env) \<and>
     kmalloc_mts (sv_core env) \<noteq> None"

definition initialised :: "'e init_env \<Rightarrow> kmodule \<Rightarrow> vm_memory \<Rightarrow> vm_memory" where
  "initialised env md m =
     inc_regions (fill_core env (mod_core_layout md)
       (inc_regions (fill_init env (mod_init_layout md)
         (inc_regions (fill_IDT env m)))))"

lemma add_region_frame:
  "add_region i fill kr w = Ret (fl, w') \<Longrightarrow>
     wproxy w' = wproxy w \<and> wmem w' = wmem w \<and> wmajor w' = wmajor w \<and> wout w' = wout w"
  by (auto simp: add_region_def set_mem_def split: exec_bind_splits if_splits)

text \<open>Fetching a layout and adding its region, for either layout.\<close>

lemma layout_region:
  assumes w: "winv w" "i < length (wentries w)" and k: "knows (wproxy w) u md"
    and major: "wmajor w = lxc_uio_cdev_major_number (wproxy w)"
    and sv: "uaccess_ok sv" "accessible sv buf" "kmalloc_mts sv \<noteq> None" "buf \<noteq> 0"
    and kr: "0 \<le> kr"
  obtains w' where
    "exec_bind (get_uuid_layout sv buf u (layout_number which (wmajor w)) w) (\<lambda>(p, w1).
       if p = 0 then Ret (Goto r, w1) else if mem = MAP_FAILED then Ret (Goto (-1), w1)
       else add_region (int i) (fill (layout_at w1 p)) kr w1) =
     (if mem = MAP_FAILED then
        exec_bind (get_uuid_layout sv buf u (layout_number which (wmajor w)) w) (\<lambda>(p, w1).
          Ret (Goto (-1), w1))
      else Ret (Next kr, w'))"
    "winv w'" "wproxy w' = wproxy w" "wmajor w' = wmajor w" "wout w' = wout w"
    "wentries w' = (wentries w)[i := (wentries w ! i)
       \<lparr>memory := inc_regions (fill (sel_layout which md) (memory (wentries w ! i)))\<rparr>]"
proof -
  obtain m' where g: "get_uuid_layout sv buf u (layout_number which (wmajor w)) w =
       Ret (buf, (set_errno 0 w)\<lparr>wmem := m'\<rparr>)"
    "layout_at ((set_errno 0 w)\<lparr>wmem := m'\<rparr>) buf = sel_layout which md"
    by (rule get_uuid_layout_ok [OF k sv(1,2,3) major sv(4)])
  let ?w1 = "(set_errno 0 w)\<lparr>wmem := m'\<rparr>"
  have w1: "winv ?w1" "i < length (wentries ?w1)" using w by simp_all
  obtain t where t: "add_region (int i) (fill (sel_layout which md)) kr ?w1 =
      Ret (Next kr, ?w1\<lparr>wtable := t\<rparr>)" "winv (?w1\<lparr>wtable := t\<rparr>)"
    "wentries (?w1\<lparr>wtable := t\<rparr>) = (wentries ?w1)[i := (wentries ?w1 ! i)
       \<lparr>memory := inc_regions (fill (sel_layout which md) (memory (wentries ?w1 ! i)))\<rparr>]"
    by (rule add_region_entry [OF w1 kr])
  show thesis
    using g t sv(4) by (intro that [of "?w1\<lparr>wtable := t\<rparr>"]) simp_all
qed

lemma init_entry_ok:
  assumes w: "winv w" "i < length (wentries w)" and k: "knows (wproxy w) u md"
    and major: "wmajor w = lxc_uio_cdev_major_number (wproxy w)"
    and env: "init_env_ok env" and zero: "num_regions (memory (wentries w ! i)) = 0"
  obtains w' where "init_entry env u (int i) w = Ret (Next 0, w')" "winv w'"
    "wproxy w' = wproxy w" "wmajor w' = wmajor w" "wout w' = wout w"
    "wentries w' = (wentries w)[i := (wentries w ! i)
       \<lparr>memory := initialised env md (memory (wentries w ! i))\<rparr>]"
proof -
  from env have e: "mem_IDT env \<noteq> MAP_FAILED" "mem_init env \<noteq> MAP_FAILED" "mem_core env \<noteq> MAP_FAILED"
     "0 \<le> set_IDT env" "0 \<le> set_init env" "0 \<le> set_core env" "buf_init env \<noteq> 0" "buf_core env \<noteq> 0"
     and svi: "uaccess_ok (sv_init env)" "accessible (sv_init env) (buf_init env)"
       "kmalloc_mts (sv_init env) \<noteq> None"
     and svc: "uaccess_ok (sv_core env)" "accessible (sv_core env) (buf_core env)"
       "kmalloc_mts (sv_core env) \<noteq> None"
    by (auto simp: init_env_ok_def)
  let ?e = "wentries w ! i"
  obtain t where t: "add_region (int i) (fill_IDT env) (set_IDT env) w =
      Ret (Next (set_IDT env), w\<lparr>wtable := t\<rparr>)" "winv (w\<lparr>wtable := t\<rparr>)"
    "wentries (w\<lparr>wtable := t\<rparr>) = (wentries w)[i := ?e\<lparr>memory := inc_regions (fill_IDT env (memory ?e))\<rparr>]"
    by (rule add_region_entry [OF w e(4)])
  define w1 where "w1 = w\<lparr>wtable := t\<rparr>"
  have idt: "init_IDT_area env (int i) w = Ret (Next (set_IDT env), w1)"
    using t(1) e(1) zero read_entry [OF w] by (simp add: init_IDT_area_def w1_def)
  have w1: "winv w1" "i < length (wentries w1)" "knows (wproxy w1) u md"
      "wmajor w1 = lxc_uio_cdev_major_number (wproxy w1)"
    using t w k major by (simp_all add: w1_def)
  obtain w2 where ini: "init_init_area env u (int i) (set_IDT env) w1 = Ret (Next (set_init env), w2)"
    and w2: "winv w2" "wproxy w2 = wproxy w1" "wmajor w2 = wmajor w1" "wout w2 = wout w1"
      "wentries w2 = (wentries w1)[i := (wentries w1 ! i)
       \<lparr>memory := inc_regions (fill_init env (sel_layout InitLayout md) (memory (wentries w1 ! i)))\<rparr>]"
    using layout_region [OF w1 svi e(7) e(5), where which = InitLayout and mem = "mem_init env"
        and fill = "fill_init env" and r = "set_IDT env"] e(2)
    by (auto simp: init_init_area_def layout_number_def)
  have w2': "i < length (wentries w2)" "knows (wproxy w2) u md"
      "wmajor w2 = lxc_uio_cdev_major_number (wproxy w2)"
    using w2 w1 by simp_all
  obtain w3 where cor: "init_core_area env u (int i) (set_init env) w2 = Ret (Next (set_core env), w3)"
    and w3: "winv w3" "wproxy w3 = wproxy w2" "wmajor w3 = wmajor w2" "wout w3 = wout w2"
      "wentries w3 = (wentries w2)[i := (wentries w2 ! i)
       \<lparr>memory := inc_regions (fill_core env (sel_layout CoreLayout md) (memory (wentries w2 ! i)))\<rparr>]"
    using layout_region [OF w2(1) w2' svc e(8) e(6), where which = CoreLayout and mem = "mem_core env"
        and fill = "fill_core env" and r = "set_init env"] e(3)
    by (auto simp: init_core_area_def layout_number_def)
  show thesis
    using idt ini cor w3 w2 t w(2)
    by (intro that [of w3])
      (simp_all add: init_entry_def flow_bind_def initialised_def w1_def sel_layout_def)
qed

lemma init_scan_skip:
  assumes "winv w" and "\<forall>j\<in>set js. j < length (wentries w) \<and> uuid (wentries w ! j) \<noteq> u"
  shows "init_scan env u f r (js @ is) w = init_scan env u f r is w"
  using assms by (induction js) (simp_all add: read_entry)

text \<open>Exactly one entry carries the identifier: it is initialised, the others stay.\<close>

lemma initialize_memory_ok:
  assumes w: "winv w" "i < length (wentries w)" and k: "knows (wproxy w) (uuid (wentries w ! i)) md"
    and major: "wmajor w = lxc_uio_cdev_major_number (wproxy w)"
    and env: "init_env_ok env" and zero: "num_regions (memory (wentries w ! i)) = 0"
    and dist: "distinct (map uuid (wentries w))"
  obtains w' where "initialize_memory_uuid env (uuid (wentries w ! i)) w = Ret (0, w')" "winv w'"
    "wproxy w' = wproxy w" "wmajor w' = wmajor w" "wout w' = wout w"
    "wentries w' = (wentries w)[i := (wentries w ! i)
       \<lparr>memory := initialised env md (memory (wentries w ! i))\<rparr>]"
proof -
  let ?u = "uuid (wentries w ! i)"
  obtain w' where w': "init_entry env ?u (int i) w = Ret (Next 0, w')" "winv w'"
    "wproxy w' = wproxy w" "wmajor w' = wmajor w" "wout w' = wout w"
    "wentries w' = (wentries w)[i := (wentries w ! i)
       \<lparr>memory := initialised env md (memory (wentries w ! i))\<rparr>]"
    by (rule init_entry_ok [OF w k major env zero])
  have n: "nat (ut_num_entries (wtable w)) = length (wentries w)"
    using w(1) by (simp add: winv_def wentries_def length_ut_entries)
  note split = upt_split [OF w(2)]
  have other: "uuid (wentries w ! j) \<noteq> ?u" if "j < length (wentries w)" "j \<noteq> i" for j
    using dist that w(2) by (auto simp: distinct_conv_nth)
  have pre: "\<forall>j\<in>set [0..<i]. j < length (wentries w) \<and> uuid (wentries w ! j) \<noteq> ?u"
    using other w(2) by auto
  have post: "\<forall>j\<in>set [Suc i..<length (wentries w)]. j < length (wentries w') \<and> uuid (wentries w' ! j) \<noteq> ?u"
    using other w'(6) by auto
  have "initialize_memory_uuid env ?u w =
      init_scan env ?u False 0 (i # [Suc i..<length (wentries w)]) w"
    unfolding initialize_memory_uuid_def n split by (rule init_scan_skip [OF w(1) pre])
  also have "\<dots> = init_scan env ?u True 0 ([Suc i..<length (wentries w)] @ []) w'"
    using w' w by (simp add: read_entry)
  also have "\<dots> = Ret (0, w')"
    by (subst init_scan_skip [OF w'(2) post]) simp
  finally show thesis using w' by (intro that)
qed

subsection \<open>What initialisation may touch\<close>

text \<open>Whatever the environment answers, only the memory descriptor of one entry
  changes.\<close>

definition mem_only :: "nat \<Rightarrow> 'e world \<Rightarrow> 'e world \<Rightarrow> bool" where
  "mem_only i w w' \<longleftrightarrow>
     winv w' \<and> (\<exists>mem. wentries w' = (wentries w)[i := (wentries w ! i)\<lparr>memory := mem\<rparr>])"

lemma mem_only_refl: "winv w' \<Longrightarrow> wentries w' = wentries w \<Longrightarrow> mem_only i w w'"
proof -
  assume "winv w'" "wentries w' = wentries w"
  moreover have "(wentries w)[i := (wentries w ! i)\<lparr>memory := memory (wentries w ! i)\<rparr>] = wentries w"
    by simp
  ultimately show ?thesis unfolding mem_only_def by metis
qed

lemma mem_only_trans:
  assumes "i < length (wentries w)" and "mem_only i w w1" and "mem_only i w1 w2"
  shows "mem_only i w w2"
  using assms by (auto simp: mem_only_def)

lemma mem_only_length: "mem_only i w w' \<Longrightarrow> length (wentries w') = length (wentries w)"
  by (auto simp: mem_only_def)

lemma set_mem_mem_only:
  assumes "winv w" "i < length (wentries w)" "set_mem (int i) f w = Ret w'"
  shows "mem_only i w w'"
  using set_mem_entry [OF assms(1,2), of f] assms(3) by (auto simp: mem_only_def)

lemma add_region_mem_only:
  assumes w: "winv w" "i < length (wentries w)" and r: "add_region (int i) fill kr w = Ret (fl, w')"
  shows "mem_only i w w'"
proof -
  from r obtain w1 where w1: "set_mem (int i) fill w = Ret w1"
    "w' = w1 \<or> set_mem (int i) inc_regions w1 = Ret w'"
    by (auto simp: add_region_def split: exec_bind_splits if_splits)
  have m1: "mem_only i w w1" by (rule set_mem_mem_only [OF w w1(1)])
  then have "winv w1" "i < length (wentries w1)"
    using w by (simp_all add: mem_only_def mem_only_length [OF m1])
  with w1(2) m1 w show ?thesis
    using set_mem_mem_only mem_only_trans by blast
qed

lemma dev_ioctl_frame:
  "dev_ioctl sv num p w = Ret (r, w') \<Longrightarrow>
     wtable w' = wtable w \<and> wmajor w' = wmajor w \<and> wout w' = wout w"
  by (auto simp: dev_ioctl_def split: exec_bind_splits)

lemma get_uuid_layout_frame:
  assumes "winv w" and "get_uuid_layout sv buf u num w = Ret (p, w')"
  shows "winv w' \<and> wentries w' = wentries w"
  using assms
  by (auto simp: get_uuid_layout_def Let_def winv_def wentries_def set_errno_def
      split: if_splits exec_bind_splits dest!: dev_ioctl_frame)

text \<open>The three stages share their shape, so does the argument.\<close>

lemma fetch_region_mem_only:
  assumes w: "winv w" "i < length (wentries w)"
    and r: "exec_bind (get_uuid_layout sv buf u num w) (\<lambda>(p, w1).
       if p = 0 then Ret (Goto r0, w1) else if mem = MAP_FAILED then Ret (Goto (-1), w1)
       else add_region (int i) (fill (layout_at w1 p)) kr w1) = Ret (fl, w')"
  shows "mem_only i w w'"
proof -
  from r obtain p w1 where g: "get_uuid_layout sv buf u num w = Ret (p, w1)"
    and "w' = w1 \<or> add_region (int i) (fill (layout_at w1 p)) kr w1 = Ret (fl, w')"
    by (auto split: exec_bind_splits if_splits)
  moreover have w1: "winv w1" "wentries w1 = wentries w"
    using get_uuid_layout_frame [OF w(1) g] by simp_all
  moreover have "mem_only i w w1" using w1 by (rule mem_only_refl)
  ultimately show ?thesis
    using w add_region_mem_only [of w1 i] mem_only_trans [of i w w1 w'] by auto
qed

lemma flow_bind_mem_only:
  assumes "flow_bind x f = Ret (fl, w')"
    and "\<And>fl1 w1. x = Ret (fl1, w1) \<Longrightarrow> mem_only i w w1"
    and "\<And>r w1 fl2 w2. mem_only i w w1 \<Longrightarrow> f r w1 = Ret (fl2, w2) \<Longrightarrow> mem_only i w w2"
  shows "mem_only i w w'"
proof -
  from assms(1) obtain fl1 w1 where x: "x = Ret (fl1, w1)"
    and f: "(case fl1 of Goto r \<Rightarrow> Ret (Goto r, w1) | Next r \<Rightarrow> f r w1) = Ret (fl, w')"
    by (auto simp: flow_bind_def exec_bind_eq_Ret_iff)
  with assms(2) have "mem_only i w w1" by blast
  with f assms(3) show ?thesis by (cases fl1) auto
qed

lemma mem_only_step:
  assumes "i < length (wentries w)" and "mem_only i w w1"
    and "winv w1 \<Longrightarrow> i < length (wentries w1) \<Longrightarrow> mem_only i w1 w2"
  shows "mem_only i w w2"
  using assms mem_only_trans [of i w w1 w2] mem_only_length [OF assms(2)]
  by (simp add: mem_only_def)

lemma init_entry_mem_only:
  assumes w: "winv w" "i < length (wentries w)" and r: "init_entry env u (int i) w = Ret (fl, w')"
  shows "mem_only i w w'"
  using r unfolding init_entry_def
proof (rule flow_bind_mem_only)
  fix fl1 w1
  assume "init_IDT_area env (int i) w = Ret (fl1, w1)"
  then show "mem_only i w w1"
    using add_region_mem_only [OF w] mem_only_refl [OF w(1) refl] read_entry [OF w]
    by (auto simp: init_IDT_area_def split: if_splits)
next
  fix r1 w1 fl2 w2
  assume m1: "mem_only i w w1"
  assume "flow_bind (init_init_area env u (int i) r1 w1) (\<lambda>r2 w2.
    flow_bind (init_core_area env u (int i) r2 w2) (\<lambda>r3 w3. Ret (Next 0, w3))) = Ret (fl2, w2)"
  then show "mem_only i w w2"
  proof (rule flow_bind_mem_only)
    fix fl3 w3
    assume "init_init_area env u (int i) r1 w1 = Ret (fl3, w3)"
    then show "mem_only i w w3"
      unfolding init_init_area_def
      by (intro mem_only_step [OF w(2) m1]) (rule fetch_region_mem_only)
  next
    fix r3 w3 fl4 w4
    assume m3: "mem_only i w w3"
    assume "flow_bind (init_core_area env u (int i) r3 w3) (\<lambda>r3 w3. Ret (Next 0, w3)) = Ret (fl4, w4)"
    then show "mem_only i w w4"
    proof (rule flow_bind_mem_only)
      fix fl5 w5
      assume "init_core_area env u (int i) r3 w3 = Ret (fl5, w5)"
      then show "mem_only i w w5"
        unfolding init_core_area_def
        by (intro mem_only_step [OF w(2) m3]) (rule fetch_region_mem_only)
    qed simp
  qed
qed

lemma initialize_memory_mem_only:
  assumes w: "winv w" "i < length (wentries w)" and dist: "distinct (map uuid (wentries w))"
    and r: "initialize_memory_uuid env (uuid (wentries w ! i)) w = Ret (r, w')"
  shows "mem_only i w w'"
proof -
  let ?u = "uuid (wentries w ! i)"
  have n: "nat (ut_num_entries (wtable w)) = length (wentries w)"
    using w(1) by (simp add: winv_def wentries_def length_ut_entries)
  note split = upt_split [OF w(2)]
  have other: "uuid (wentries w ! j) \<noteq> ?u" if "j < length (wentries w)" "j \<noteq> i" for j
    using dist that w(2) by (auto simp: distinct_conv_nth)
  have pre: "\<forall>j\<in>set [0..<i]. j < length (wentries w) \<and> uuid (wentries w ! j) \<noteq> ?u"
    using other w(2) by auto
  have "init_scan env ?u False 0 (i # [Suc i..<length (wentries w)]) w = Ret (r, w')"
    using r init_scan_skip [OF w(1) pre] unfolding initialize_memory_uuid_def n split by metis
  then obtain fl w1 where e: "init_entry env ?u (int i) w = Ret (fl, w1)"
    and rest: "(case fl of Goto r' \<Rightarrow> Ret (r', w1)
       | Next r' \<Rightarrow> init_scan env ?u True r' [Suc i..<length (wentries w)] w1) = Ret (r, w')"
    using read_entry [OF w] by (auto simp: exec_bind_eq_Ret_iff)
  have m: "mem_only i w w1" by (rule init_entry_mem_only [OF w e])
  then have w1: "winv w1" and post:
      "\<forall>j\<in>set [Suc i..<length (wentries w)]. j < length (wentries w1) \<and> uuid (wentries w1 ! j) \<noteq> ?u"
    using other by (auto simp: mem_only_def)
  have "init_scan env ?u True r' [Suc i..<length (wentries w)] w1 = Ret (r', w1)" for r'
    using init_scan_skip [OF w1 post, of env True r' "[]"] by simp
  with rest m show ?thesis by (cases fl) auto
qed

end
