(* ===== verification/Host_Server.thy ===== *)
theory Host_Server
  imports Host_Memory
begin

text \<open>
  The work loop of the server (\<open>kvm-host-server.c\<close>): \<open>get_new_entry\<close> takes one
  identifier from the proxy into the table, \<open>process_entry\<close> builds a virtual machine
  for the first unprocessed entry and runs it. \<open>process_entry\<close> is split at its own
  stages; every \<open>goto out\<close> is a \<open>Some (ret_val, state)\<close>. The results of the KVM
  requests are fields of the environment; the results of \<open>KVM_RUN\<close> are a list, and a
  run whose list ends before the guest stops has not returned (\<open>None\<close>).
\<close>

subsection \<open>get\_new\_entry\<close>

record 'e new_env =
  ne_sv :: "'e kservices"
  ne_adr :: u64
  ne_mem :: "vm_memory option"
  ne_alloc :: alloc_res

definition new_entry :: "u128 \<Rightarrow> vm_memory \<Rightarrow> UUID_table" where
  "new_entry u mem =
     \<lparr>uuid = u, vmfd = -1, vcpufd = -1, memory = mem, processed = False, could_not_process = False\<rparr>"

definition get_new_entry :: "'e new_env \<Rightarrow> 'e world \<Rightarrow> (int \<times> 'e world) exec" where
  "get_new_entry env w =
     exec_bind (dev_ioctl (ne_sv env) (kvm_host_server_get_pending_module (wmajor w)) (ne_adr env)
         (w\<lparr>wmem := umem_write (wmem w) (ne_adr env) (enc_u128 0)\<rparr>)) (\<lambda>(ret_val, w1).
       if ret_val < 0 then Ret (ret_val, w1)
       else if ret_val = 0 then Ret (ret_val, w1)
       else if ret_val = 1 then
         (case new_memory (ne_mem env) of
            None \<Rightarrow> Ret (-1, w1)
          | Some mem \<Rightarrow>
              exec_bind (table_put (ne_alloc env)
                  (new_entry (dec_u128 (umem_read (wmem w1) (ne_adr env) 16)) mem) (wtable w1))
                (\<lambda>(_, t). Ret (ret_val, w1\<lparr>wtable := t\<rparr>)))
       else Ret (ret_val, w1))"

subsection \<open>Running the guest\<close>

datatype kvm_exit =
    ExitHlt
  | ExitIo bool nat u32 nat u8  \<comment> \<open>direction is out, size, port, count, data\<close>
  | ExitFailEntry
  | ExitInternalError
  | ExitOther

record kvm_regs =
  rip :: u64
  rax :: u64
  rbx :: u64
  rflags :: u64

definition initial_regs :: kvm_regs where
  "initial_regs = \<lparr>rip = 0x1000, rax = 2, rbx = 2, rflags = 0x2\<rparr>"

definition serial_out :: "bool \<Rightarrow> nat \<Rightarrow> u32 \<Rightarrow> nat \<Rightarrow> bool" where
  "serial_out dir sz port cnt \<longleftrightarrow> dir \<and> sz = 1 \<and> port = 0x3f8 \<and> cnt = 1"

primrec kvm_run_loop ::
    "u64 \<Rightarrow> int \<Rightarrow> (int \<times> kvm_exit) list \<Rightarrow> 'e world \<Rightarrow> (int \<times> 'e world) option exec" where
  "kvm_run_loop run i [] w = Ret None"
| "kvm_run_loop run i (x # xs) w =
     (if fst x < 0 then Ret (Some (fst x, w))
      else if run = MAP_FAILED then Crash BadPointer
      else case snd x of
        ExitHlt \<Rightarrow>
          exec_bind (table_set_xxx i (\<lambda>e. e\<lparr>processed := True\<rparr>) (wtable w)) (\<lambda>t.
            Ret (Some (if errno t < 0 then -1 else 1, w\<lparr>wtable := t\<rparr>)))
      | ExitIo dir sz port cnt data \<Rightarrow>
          if serial_out dir sz port cnt
          then kvm_run_loop run i xs (w\<lparr>wout := wout w @ [data]\<rparr>)
          else kvm_run_loop run i xs w
      | ExitFailEntry \<Rightarrow> Ret (Some (-1, w))
      | ExitInternalError \<Rightarrow> Ret (Some (-1, w))
      | ExitOther \<Rightarrow> kvm_run_loop run i xs w)"

subsection \<open>process\_entry\<close>

record 'e pe_env =
  pe_copy :: "nat \<Rightarrow> bool"
  pe_copy_mem :: bool
  pe_copy_sent :: bool
  pe_copy_regs :: bool
  pe_vmfd :: int
  pe_init :: "'e init_env"
  pe_sv :: "'e kservices"
  pe_packet :: u64
  pe_vcpufd :: int
  pe_mmap_size :: int
  pe_sizeof_run :: int
  pe_run :: u64
  pe_get_sregs :: int
  pe_set_sregs :: int
  pe_set_regs :: "kvm_regs \<Rightarrow> int"
  pe_exits :: "kvm_regs \<Rightarrow> (int \<times> kvm_exit) list"

text \<open>Mark the entry as not processable and leave with \<open>r\<close>.\<close>

definition pe_fail :: "int \<Rightarrow> int \<Rightarrow> 'e world \<Rightarrow> (int \<times> 'e world) option exec" where
  "pe_fail i r w =
     exec_bind (table_set_xxx i (\<lambda>e. e\<lparr>could_not_process := True\<rparr>) (wtable w)) (\<lambda>t.
       Ret (Some (r, w\<lparr>wtable := t\<rparr>)))"

definition pe_start_cpu :: "'e pe_env \<Rightarrow> int \<Rightarrow> 'e world \<Rightarrow> (int \<times> 'e world) option exec" where
  "pe_start_cpu env i w =
     exec_bind (table_entry_at_index_copy (pe_copy_regs env) i (wtable w)) (\<lambda>ptr.
       if ptr = None then Ret (Some (-1, w))
       else if pe_set_regs env initial_regs < 0 then Ret (Some (pe_set_regs env initial_regs, w))
       else kvm_run_loop (pe_run env) i (pe_exits env initial_regs) w)"

definition pe_vcpu :: "'e pe_env \<Rightarrow> int \<Rightarrow> 'e world \<Rightarrow> (int \<times> 'e world) option exec" where
  "pe_vcpu env i w =
     (if pe_vcpufd env < 0 then pe_fail i (-1) w
      else exec_bind (table_set_xxx i (\<lambda>e. e\<lparr>vcpufd := pe_vcpufd env\<rparr>) (wtable w)) (\<lambda>t.
        let w1 = w\<lparr>wtable := t\<rparr> in
        if errno t < 0 then pe_fail i (-1) w1
        else if pe_mmap_size env < 0 then pe_fail i (-1) w1
        else if pe_mmap_size env < pe_sizeof_run env then Ret (Some (-1, w1))
        else if pe_run env = 0 then Ret (Some (-1, w1))
        else if pe_get_sregs env < 0 then Ret (Some (pe_get_sregs env, w1))
        else if pe_set_sregs env < 0 then Ret (Some (pe_set_sregs env, w1))
        else pe_start_cpu env i w1))"

definition pe_send :: "'e pe_env \<Rightarrow> int \<Rightarrow> UUID_table \<Rightarrow> 'e world \<Rightarrow> (int \<times> 'e world) option exec" where
  "pe_send env i ptr w =
     exec_bind (send_packet (pe_sv env) (pe_packet env) (uuid ptr) (memory ptr) w) (\<lambda>(r, w1).
       if r < 0 then pe_fail i r w1
       else exec_bind (table_entry_at_index_copy (pe_copy_sent env) i (wtable w1)) (\<lambda>ptr'.
         if ptr' = None then Ret (Some (-1, w1)) else pe_vcpu env i w1))"

definition pe_memory :: "'e pe_env \<Rightarrow> int \<Rightarrow> UUID_table \<Rightarrow> 'e world \<Rightarrow> (int \<times> 'e world) option exec" where
  "pe_memory env i ptr w =
     exec_bind (initialize_memory_uuid (pe_init env) (uuid ptr) w) (\<lambda>(r, w1).
       if r < 0 then pe_fail i r w1
       else exec_bind (table_entry_at_index_copy (pe_copy_mem env) i (wtable w1)) (\<lambda>ptr'.
         case ptr' of None \<Rightarrow> Ret (Some (-1, w1)) | Some e \<Rightarrow> pe_send env i e w1))"

definition pe_create_vm :: "'e pe_env \<Rightarrow> int \<Rightarrow> UUID_table \<Rightarrow> 'e world \<Rightarrow> (int \<times> 'e world) option exec" where
  "pe_create_vm env i ptr w =
     (if pe_vmfd env < 0 then pe_fail i (-1) w
      else exec_bind (table_set_xxx i (\<lambda>e. e\<lparr>vmfd := pe_vmfd env\<rparr>) (wtable w)) (\<lambda>t.
        let w1 = w\<lparr>wtable := t\<rparr> in
        if errno t < 0 then pe_fail i (-1) w1 else pe_memory env i ptr w1))"

primrec pe_scan :: "'e pe_env \<Rightarrow> nat list \<Rightarrow> 'e world \<Rightarrow> (int \<times> 'e world) option exec" where
  "pe_scan env [] w = Ret (Some (0, w))"
| "pe_scan env (i # is) w =
     exec_bind (table_entry_at_index_copy (pe_copy env i) (int i) (wtable w)) (\<lambda>p.
       case p of
         None \<Rightarrow> Ret (Some (-1, w))
       | Some ptr \<Rightarrow>
           if processed ptr \<and> could_not_process ptr then Ret (Some (-1, w))
           else if \<not> processed ptr \<and> \<not> could_not_process ptr
             then pe_create_vm env (int i) ptr w
           else pe_scan env is w)"

definition process_entry :: "'e pe_env \<Rightarrow> 'e world \<Rightarrow> (int \<times> 'e world) option exec" where
  "process_entry env w =
     (let num_entries = get_table_num_entries (wtable w) in
      if num_entries = 0 then Ret (Some (0, w))
      else if num_entries < 0 then Ret (Some (-1, w))
      else pe_scan env [0..<nat num_entries] w)"

lemmas process_entry_defs [server_defs] =
  pe_fail_def pe_start_cpu_def pe_vcpu_def pe_send_def pe_memory_def pe_create_vm_def
  process_entry_def get_new_entry_def

subsection \<open>The guest loop\<close>

definition guest_goes_on :: "int \<times> kvm_exit \<Rightarrow> bool" where
  "guest_goes_on x \<longleftrightarrow>
     0 \<le> fst x \<and> (case snd x of ExitIo _ _ _ _ _ \<Rightarrow> True | ExitOther \<Rightarrow> True | _ \<Rightarrow> False)"

definition serial_byte :: "int \<times> kvm_exit \<Rightarrow> u8 list" where
  "serial_byte x =
     (case snd x of
        ExitIo dir sz port cnt data \<Rightarrow> if serial_out dir sz port cnt then [data] else []
      | _ \<Rightarrow> [])"

lemma kvm_run_loop_prefix:
  assumes "run \<noteq> MAP_FAILED" and "list_all guest_goes_on pre"
  shows "kvm_run_loop run i (pre @ xs) w =
    kvm_run_loop run i xs (w\<lparr>wout := wout w @ concat (map serial_byte pre)\<rparr>)"
  using assms(2)
proof (induction pre arbitrary: w)
  case Nil
  then show ?case by simp
next
  case (Cons x pre)
  then show ?case
    using assms(1) by (cases "snd x") (auto simp: guest_goes_on_def serial_byte_def)
qed

lemma set_entry:
  assumes "winv w" and "i < length (wentries w)"
  obtains t where "table_set_xxx (int i) f (wtable w) = Ret t" "errno t = 0"
    "winv (w\<lparr>wtable := t\<rparr>)" "wentries (w\<lparr>wtable := t\<rparr>) = (wentries w)[i := f (wentries w ! i)]"
proof -
  obtain h where "table_set_xxx (int i) f (wtable w) = Ret ((wtable w)\<lparr>errno := 0, uheap := h\<rparr>)"
    "ut_inv ((wtable w)\<lparr>errno := 0, uheap := h\<rparr>)"
    "ut_entries ((wtable w)\<lparr>errno := 0, uheap := h\<rparr>) =
       (ut_entries (wtable w))[i := f (ut_entries (wtable w) ! i)]"
    using assms unfolding winv_def wentries_def by (rule table_set_xxx_entry)
  then show thesis
    by (intro that [of "(wtable w)\<lparr>errno := 0, uheap := h\<rparr>"]) (simp_all add: winv_def wentries_def)
qed

lemma copy_entry:
  "winv w \<Longrightarrow> i < length (wentries w) \<Longrightarrow>
     table_entry_at_index_copy ok (int i) (wtable w) = Ret (if ok then Some (wentries w ! i) else None)"
  using entry_copy_at [of "wtable w" i]
  by (auto simp: winv_def wentries_def table_entry_at_index_copy_def)

subsection \<open>Contract of process\_entry\<close>

text \<open>
  What a call that worked on entry \<open>i\<close> may have done, \<open>r\<close> being its result: other
  entries are untouched and the identifier stays. Either the call failed and the entry
  is not marked processed, or it returned 1 and the entry is marked processed.
\<close>

definition pe_post :: "nat \<Rightarrow> UUID_table \<Rightarrow> int \<Rightarrow> 'e world \<Rightarrow> 'e world \<Rightarrow> bool" where
  "pe_post i e0 r w w' \<longleftrightarrow>
     winv w' \<and>
     (\<exists>e. wentries w' = (wentries w)[i := e] \<and> uuid e = uuid e0 \<and>
        (r = 1 \<and> processed e \<and> could_not_process e = could_not_process e0 \<or>
         r < 0 \<and> processed e = processed e0))"

text \<open>An intermediate state: the entry keeps identifier and flags.\<close>

definition pe_mid :: "nat \<Rightarrow> UUID_table \<Rightarrow> 'e world \<Rightarrow> 'e world \<Rightarrow> bool" where
  "pe_mid i e0 w w' \<longleftrightarrow>
     winv w' \<and> i < length (wentries w) \<and>
     (\<exists>e. wentries w' = (wentries w)[i := e] \<and> uuid e = uuid e0 \<and> processed e = processed e0 \<and>
        could_not_process e = could_not_process e0)"

lemma pe_mid_refl: "winv w \<Longrightarrow> i < length (wentries w) \<Longrightarrow> pe_mid i (wentries w ! i) w w"
  unfolding pe_mid_def by (intro conjI exI [of _ "wentries w ! i"]) simp_all

lemma pe_midD: "pe_mid i e0 w w' \<Longrightarrow> winv w' \<and> i < length (wentries w')"
  by (auto simp: pe_mid_def)

lemma pe_mid_set:
  assumes "pe_mid i e0 w w1" and "table_set_xxx (int i) f (wtable w1) = Ret t"
    and "\<And>e. uuid (f e) = uuid e \<and> processed (f e) = processed e \<and>
      could_not_process (f e) = could_not_process e"
  shows "pe_mid i e0 w (w1\<lparr>wtable := t\<rparr>) \<and> errno t = 0"
proof -
  obtain t' where t': "table_set_xxx (int i) f (wtable w1) = Ret t'" "errno t' = 0"
      "winv (w1\<lparr>wtable := t'\<rparr>)" "wentries (w1\<lparr>wtable := t'\<rparr>) = (wentries w1)[i := f (wentries w1 ! i)]"
    using set_entry pe_midD [OF assms(1)] by metis
  with assms(2) have "t' = t" by simp
  from assms(1) obtain e where e: "i < length (wentries w)" "wentries w1 = (wentries w)[i := e]"
      "uuid e = uuid e0" "processed e = processed e0" "could_not_process e = could_not_process e0"
    by (auto simp: pe_mid_def)
  with t' \<open>t' = t\<close> assms(3) [of e] show ?thesis
    unfolding pe_mid_def by (intro conjI exI [of _ "f e"]) simp_all
qed

lemma pe_mid_same:
  "pe_mid i e0 w w1 \<Longrightarrow> winv w2 \<Longrightarrow> wentries w2 = wentries w1 \<Longrightarrow> pe_mid i e0 w w2"
  by (simp add: pe_mid_def)

lemma pe_mid_mem_only: "pe_mid i e0 w w1 \<Longrightarrow> mem_only i w1 w2 \<Longrightarrow> pe_mid i e0 w w2"
  by (auto simp: pe_mid_def mem_only_def)

lemma pe_mid_leave: "pe_mid i e0 w w' \<Longrightarrow> r < 0 \<Longrightarrow> pe_post i e0 r w w'"
  by (auto simp: pe_mid_def pe_post_def)

lemma pe_fail_post:
  assumes m: "pe_mid i e0 w w1" and r: "r < 0" and f: "pe_fail (int i) r w1 = Ret (Some (r', w'))"
  shows "pe_post i e0 r' w w'"
proof -
  obtain t where t: "table_set_xxx (int i) (\<lambda>e. e\<lparr>could_not_process := True\<rparr>) (wtable w1) = Ret t"
    "winv (w1\<lparr>wtable := t\<rparr>)"
    "wentries (w1\<lparr>wtable := t\<rparr>) = (wentries w1)[i := (wentries w1 ! i)\<lparr>could_not_process := True\<rparr>]"
    using set_entry pe_midD [OF m] by metis
  with f have "r' = r" "w' = w1\<lparr>wtable := t\<rparr>" by (simp_all add: pe_fail_def)
  with t m r show ?thesis by (auto simp: pe_post_def pe_mid_def)
qed

lemma kvm_run_loop_post:
  assumes "pe_mid i e0 w w1" and "kvm_run_loop run (int i) xs w1 = Ret (Some (r, w'))"
  shows "pe_post i e0 r w w'"
  using assms
proof (induction xs arbitrary: w1)
  case Nil
  then show ?case by simp
next
  case (Cons x xs)
  have out: "pe_mid i e0 w (w1\<lparr>wout := b\<rparr>)" for b
    using Cons.prems(1) by (simp add: pe_mid_def)
  obtain t where t: "table_set_xxx (int i) (\<lambda>e. e\<lparr>processed := True\<rparr>) (wtable w1) = Ret t"
    "errno t = 0" "winv (w1\<lparr>wtable := t\<rparr>)"
    "wentries (w1\<lparr>wtable := t\<rparr>) = (wentries w1)[i := (wentries w1 ! i)\<lparr>processed := True\<rparr>]"
    using set_entry pe_midD [OF Cons.prems(1)] by metis
  have hlt: "pe_post i e0 1 w (w1\<lparr>wtable := t\<rparr>)"
    using t Cons.prems(1) by (auto simp: pe_post_def pe_mid_def)
  show ?case
    using Cons.prems Cons.IH [OF Cons.prems(1)] Cons.IH [OF out] pe_mid_leave [OF Cons.prems(1)] hlt t
    by (cases "snd x") (auto split: if_splits)
qed

lemma pe_start_cpu_post:
  assumes m: "pe_mid i e0 w w1" and r: "pe_start_cpu env (int i) w1 = Ret (Some (r, w'))"
  shows "pe_post i e0 r w w'"
  using r pe_midD [OF m] kvm_run_loop_post [OF m] pe_mid_leave [OF m]
  by (auto simp: pe_start_cpu_def copy_entry split: if_splits)

lemma pe_vcpu_post:
  assumes m: "pe_mid i e0 w w1" and r: "pe_vcpu env (int i) w1 = Ret (Some (r, w'))"
  shows "pe_post i e0 r w w'"
proof (cases "pe_vcpufd env < 0")
  case True
  with r pe_fail_post [OF m, of "-1"] show ?thesis by (simp add: pe_vcpu_def)
next
  case False
  obtain t where t: "table_set_xxx (int i) (\<lambda>e. e\<lparr>vcpufd := pe_vcpufd env\<rparr>) (wtable w1) = Ret t"
    using set_entry pe_midD [OF m] by metis
  have m2: "pe_mid i e0 w (w1\<lparr>wtable := t\<rparr>)" "errno t = 0"
    using pe_mid_set [OF m t] by simp_all
  show ?thesis
    using r False t m2(2) pe_fail_post [OF m2(1), of "-1"] pe_mid_leave [OF m2(1)] pe_start_cpu_post [OF m2(1)]
    by (auto simp: pe_vcpu_def Let_def split: if_splits)
qed

lemma send_packet_frame:
  "send_packet sv adr u mem w = Ret (r, w') \<Longrightarrow> \<exists>m. w' = w\<lparr>wmem := m\<rparr>"
  by (auto simp: send_packet_def Let_def split: exec_bind_splits if_splits)

lemma pe_send_post:
  assumes m: "pe_mid i e0 w w1" and r: "pe_send env (int i) ptr w1 = Ret (Some (r, w'))"
  shows "pe_post i e0 r w w'"
proof -
  from r obtain r1 w2 where sp: "send_packet (pe_sv env) (pe_packet env) (uuid ptr) (memory ptr) w1 = Ret (r1, w2)"
    and rest: "(if r1 < 0 then pe_fail (int i) r1 w2
       else exec_bind (table_entry_at_index_copy (pe_copy_sent env) (int i) (wtable w2)) (\<lambda>ptr'.
         if ptr' = None then Ret (Some (-1, w2)) else pe_vcpu env (int i) w2)) = Ret (Some (r, w'))"
    by (auto simp: pe_send_def exec_bind_eq_Ret_iff)
  have m2: "pe_mid i e0 w w2"
    using send_packet_frame [OF sp] pe_mid_same [OF m] pe_midD [OF m] by auto
  show ?thesis
    using rest pe_fail_post [OF m2] pe_midD [OF m2] pe_mid_leave [OF m2] pe_vcpu_post [OF m2]
    by (auto simp: copy_entry split: if_splits)
qed

lemma pe_memory_post:
  assumes m: "pe_mid i e0 w w1" and dist: "distinct (map uuid (wentries w1))"
    and ptr: "uuid ptr = uuid (wentries w1 ! i)"
    and r: "pe_memory env (int i) ptr w1 = Ret (Some (r, w'))"
  shows "pe_post i e0 r w w'"
proof -
  from r obtain r1 w2 where im: "initialize_memory_uuid (pe_init env) (uuid ptr) w1 = Ret (r1, w2)"
    and rest: "(if r1 < 0 then pe_fail (int i) r1 w2
       else exec_bind (table_entry_at_index_copy (pe_copy_mem env) (int i) (wtable w2)) (\<lambda>ptr'.
         case ptr' of None \<Rightarrow> Ret (Some (-1, w2)) | Some e \<Rightarrow> pe_send env (int i) e w2)) = Ret (Some (r, w'))"
    by (auto simp: pe_memory_def exec_bind_eq_Ret_iff)
  have "mem_only i w1 w2"
    using initialize_memory_mem_only [OF _ _ dist] im ptr pe_midD [OF m] by simp
  with m have m2: "pe_mid i e0 w w2" by (rule pe_mid_mem_only)
  show ?thesis
    using rest pe_fail_post [OF m2] pe_midD [OF m2] pe_mid_leave [OF m2] pe_send_post [OF m2]
    by (auto simp: copy_entry split: if_splits)
qed

lemma pe_create_vm_post:
  assumes w: "winv w" "i < length (wentries w)" and dist: "distinct (map uuid (wentries w))"
    and r: "pe_create_vm env (int i) (wentries w ! i) w = Ret (Some (r, w'))"
  shows "pe_post i (wentries w ! i) r w w'"
proof (cases "pe_vmfd env < 0")
  case True
  with r pe_fail_post [OF pe_mid_refl [OF w], of "-1"] show ?thesis by (simp add: pe_create_vm_def)
next
  case False
  obtain t where t: "table_set_xxx (int i) (\<lambda>e. e\<lparr>vmfd := pe_vmfd env\<rparr>) (wtable w) = Ret t"
    "errno t = 0" "winv (w\<lparr>wtable := t\<rparr>)"
    "wentries (w\<lparr>wtable := t\<rparr>) = (wentries w)[i := (wentries w ! i)\<lparr>vmfd := pe_vmfd env\<rparr>]"
    by (rule set_entry [OF w])
  have m: "pe_mid i (wentries w ! i) w (w\<lparr>wtable := t\<rparr>)"
    using pe_mid_set [OF pe_mid_refl [OF w] t(1)] by simp
  have "map uuid (wentries (w\<lparr>wtable := t\<rparr>)) = map uuid (wentries w)"
    using t(4) w(2) by (simp add: map_update list_update_same_conv)
  with dist have d: "distinct (map uuid (wentries (w\<lparr>wtable := t\<rparr>)))" by simp
  show ?thesis
    using r False t w(2) pe_memory_post [OF m d] by (simp add: pe_create_vm_def Let_def)
qed

lemma pe_create_vm_returns_neg_or_1:
  "pe_post i e0 r w w' \<Longrightarrow> r = 1 \<or> r < 0"
  by (auto simp: pe_post_def)

text \<open>An entry the server is done with, and one it must not contain.\<close>

definition entry_done :: "UUID_table \<Rightarrow> bool" where
  "entry_done e \<longleftrightarrow> processed e \<or> could_not_process e"

definition flags_ok :: "UUID_table \<Rightarrow> bool" where
  "flags_ok e \<longleftrightarrow> \<not> (processed e \<and> could_not_process e)"

lemma pe_scan_skip:
  assumes "winv w" and "\<And>j. pe_copy env j"
    and "\<forall>j\<in>set js. j < length (wentries w) \<and> entry_done (wentries w ! j) \<and> flags_ok (wentries w ! j)"
  shows "pe_scan env (js @ is) w = pe_scan env is w"
  using assms(3)
proof (induction js)
  case Nil
  then show ?case by simp
next
  case (Cons j js)
  then show ?case
    using assms(1,2) by (auto simp: copy_entry entry_done_def flags_ok_def)
qed

lemma pe_scan_result:
  assumes w: "winv w" and dist: "distinct (map uuid (wentries w))"
    and "set is \<subseteq> {..<length (wentries w)}"
    and "pe_scan env is w = Ret (Some (r, w'))"
  shows "(r = 0 \<and> w' = w \<and> (\<forall>j\<in>set is. entry_done (wentries w ! j))) \<or>
    (r = -1 \<and> w' = w) \<or>
    (\<exists>i. i < length (wentries w) \<and> \<not> entry_done (wentries w ! i) \<and>
       pe_post i (wentries w ! i) r w w')"
  using assms(3,4)
proof (induction "is")
  case Nil
  then show ?case by simp
next
  case (Cons i "is")
  from Cons.prems(1) have i: "i < length (wentries w)" by simp
  let ?e = "wentries w ! i"
  consider "\<not> pe_copy env i" | "processed ?e \<and> could_not_process ?e" | "\<not> entry_done ?e" "pe_copy env i"
    | "entry_done ?e" "flags_ok ?e" "pe_copy env i"
    by (auto simp: entry_done_def flags_ok_def)
  then show ?case
  proof cases
    case 3
    with Cons.prems(2) i w have "pe_create_vm env (int i) ?e w = Ret (Some (r, w'))"
      by (simp add: copy_entry entry_done_def)
    with pe_create_vm_post [OF w i dist] 3 i show ?thesis by blast
  next
    case 4
    with Cons i w show ?thesis by (auto simp: copy_entry entry_done_def flags_ok_def)
  qed (use Cons.prems i w in \<open>auto simp: copy_entry split: if_splits\<close>)
qed

lemma num_entries_small:
  assumes "winv w" and "length (wentries w) < 2 ^ 31"
  shows "get_table_num_entries (wtable w) = int (length (wentries w))"
proof -
  have "0 \<le> ut_num_entries (wtable w)"
    using assms(1) by (auto simp: winv_def elim: ut_invE)
  then show ?thesis
    using assms by (simp add: winv_def wentries_def length_ut_entries get_table_num_entries_def)
qed

lemma process_entry_cases:
  assumes "winv w" and "distinct (map uuid (wentries w))" and "length (wentries w) < 2 ^ 31"
    and "list_all flags_ok (wentries w)" and "process_entry env w = Ret (Some (r, w'))"
  shows "winv w' \<and> map uuid (wentries w') = map uuid (wentries w) \<and> list_all flags_ok (wentries w') \<and>
    (r = 0 \<and> w' = w \<and> list_all entry_done (wentries w) \<or>
     r < 0 \<and> map processed (wentries w') = map processed (wentries w) \<and>
       (\<exists>i e. wentries w' = (wentries w)[i := e]) \<or>
     r = 1 \<and> (\<exists>i e. i < length (wentries w) \<and> \<not> entry_done (wentries w ! i) \<and>
       wentries w' = (wentries w)[i := e] \<and> processed e))"
proof -
  have same: "\<exists>i e. wentries w = (wentries w)[i := e]"
    by (metis list_update_id)
  have n: "get_table_num_entries (wtable w) = int (length (wentries w))"
    by (rule num_entries_small [OF assms(1,3)])
  have "pe_scan env [0..<length (wentries w)] w = Ret (Some (r, w'))"
    using assms(5) n by (auto simp: process_entry_def Let_def split: if_splits)
  note res = pe_scan_result [OF assms(1,2) _ this]
  consider "r = 0" "w' = w" "list_all entry_done (wentries w)" | "r = -1" "w' = w"
    | i where "i < length (wentries w)" "\<not> entry_done (wentries w ! i)" "pe_post i (wentries w ! i) r w w'"
    using res by (fastforce simp: list_all_length)
  then show ?thesis
  proof cases
    case (3 i)
    let ?e0 = "wentries w ! i"
    from 3(3) obtain e where e: "winv w'" "wentries w' = (wentries w)[i := e]" "uuid e = uuid ?e0"
        "r = 1 \<and> processed e \<and> could_not_process e = could_not_process ?e0 \<or>
         r < 0 \<and> processed e = processed ?e0"
      by (auto simp: pe_post_def)
    have ids: "map uuid (wentries w') = map uuid (wentries w)"
      using e(2,3) 3(1) by (simp add: map_update list_update_same_conv)
    have "flags_ok e" using e(4) 3(2) by (auto simp: flags_ok_def entry_done_def)
    then have fl: "list_all flags_ok (wentries w')"
      using assms(4) e(2) 3(1) by (auto simp: list_all_length nth_list_update)
    have "r < 0 \<Longrightarrow> map processed (wentries w') = map processed (wentries w)"
      using e(2,4) 3(1) by (simp add: map_update list_update_same_conv)
    with e ids fl 3(1,2) show ?thesis by blast
  qed (use assms(1,4) same in simp_all)
qed

subsection \<open>The successful run\<close>

definition core_bytes :: "'e proxy \<Rightarrow> kmodule \<Rightarrow> u8 list" where
  "core_bytes px md =
     umem_read (kmem px) (ml_base (mod_core_layout md)) (unat (ml_size (mod_core_layout md)))"

lemma length_core_bytes: "length (core_bytes px md) = unat (ml_size (mod_core_layout md))"
  by (simp add: core_bytes_def)

lemma length_core_bytes_le: "length (core_bytes px md) \<le> 2 ^ 64"
  using unsigned_less [of "ml_size (mod_core_layout md)", where 'a = nat]
  by (simp add: length_core_bytes)

lemma send_packet_ok:
  assumes k: "knows (wproxy w) u md" and mem: "vm_memory_ok mem"
    and sv: "uaccess_ok sv" "accessible sv adr" "kmalloc_mts sv \<noteq> None"
    and dst: "accessible sv (userspace_addr (region_core mem))"
  obtains m' where "send_packet sv adr u mem w = Ret (0, w\<lparr>wmem := m'\<rparr>)"
    "umem_read m' (userspace_addr (region_core mem)) (unat (ml_size (mod_core_layout md))) =
       core_bytes (wproxy w) md"
proof -
  let ?p = "\<lparr>pk_uuid = u, pk_memory = mem\<rparr>" and ?a = "userspace_addr (region_core mem)"
  let ?m = "umem_write (wmem w) adr (enc_packet ?p)" and ?c = "core_bytes (wproxy w) md"
  from k obtain x where x: "proxy_inv (wproxy w)" "mt_find u (ptable (wproxy w)) = Some x"
      "kmodules (wproxy w) (mt_module x) = Some md"
    by (auto simp: knows_def)
  from sv(3) obtain g where g: "kmalloc_mts sv = Some g" by blast
  have len: "length (enc_packet ?p) = sizeof_packet"
    using mem by (simp add: length_enc_packet)
  have rd: "copy_from_user sv ?m adr sizeof_packet = (0, enc_packet ?p)"
    using accessible_from [OF sv(1,2), of ?m sizeof_packet]
      umem_read_write [of "enc_packet ?p" "wmem w" adr] len
    by (simp add: sizeof_packet_def)
  have cp: "copy_to_user sv ?m ?a ?c = (0, umem_write ?m ?a ?c)"
    by (rule accessible_to [OF sv(1) dst])
  have "process_packet sv ?p ?m (wproxy w) = Ret (0, umem_write ?m ?a ?c)"
    using process_packet_ok [OF x(1) sv(1) g, of ?p x md ?c ?m 0] x cp
    by (simp add: core_bytes_def)
  moreover have "dec_packet (enc_packet ?p) = ?p"
    using mem by (simp add: dec_enc_packet)
  ultimately have "send_packet sv adr u mem w = Ret (0, w\<lparr>wmem := umem_write ?m ?a ?c\<rparr>)"
    using rd by (simp add: send_packet_def cdev_write_def sys_ret_def sizeof_packet_def)
  then show thesis
    by (rule that)
      (metis length_core_bytes length_core_bytes_le umem_read_write)
qed

text \<open>Every call the environment makes for the entry succeeds and the guest halts after
  the exits \<open>pre\<close>.\<close>

definition pe_env_ok :: "'e pe_env \<Rightarrow> (int \<times> kvm_exit) list \<Rightarrow> bool" where
  "pe_env_ok env pre \<longleftrightarrow>
     (\<forall>j. pe_copy env j) \<and> pe_copy_mem env \<and> pe_copy_sent env \<and> pe_copy_regs env \<and>
     0 \<le> pe_vmfd env \<and> init_env_ok (pe_init env) \<and>
     uaccess_ok (pe_sv env) \<and> kmalloc_mts (pe_sv env) \<noteq> None \<and>
     accessible (pe_sv env) (pe_packet env) \<and> accessible (pe_sv env) (mem_core (pe_init env)) \<and>
     0 \<le> pe_vcpufd env \<and> 0 \<le> pe_sizeof_run env \<and> pe_sizeof_run env \<le> pe_mmap_size env \<and>
     pe_run env \<noteq> 0 \<and> pe_run env \<noteq> MAP_FAILED \<and>
     0 \<le> pe_get_sregs env \<and> 0 \<le> pe_set_sregs env \<and> 0 \<le> pe_set_regs env initial_regs \<and>
     list_all guest_goes_on pre \<and>
     (\<exists>rest. pe_exits env initial_regs = pre @ (0, ExitHlt) # rest)"

text \<open>The entry after a successful run.\<close>

definition run_entry :: "'e pe_env \<Rightarrow> kmodule \<Rightarrow> UUID_table \<Rightarrow> UUID_table" where
  "run_entry env md e =
     e\<lparr>vmfd := pe_vmfd env, memory := initialised (pe_init env) md (memory e),
       vcpufd := pe_vcpufd env, processed := True\<rparr>"

lemma initialised_simps [simp]:
  "userspace_addr (region_core (initialised ienv md m)) = mem_core ienv"
  "guest_phys_addr (region_core (initialised ienv md m)) = 0x1000"
  "memory_size (region_core (initialised ienv md m)) = ucast (ml_size (mod_core_layout md))"
  "slot (region_core (initialised ienv md m)) = 2"
  "guest_phys_addr (region_init (initialised ienv md m)) = ml_base (mod_init_layout md)"
  "slot (region_init (initialised ienv md m)) = 1"
  "slot (region_IDT (initialised ienv md m)) = 0"
  "guest_phys_addr (region_IDT (initialised ienv md m)) = 0"
  "num_regions (initialised ienv md m) = num_regions m + 3"
  "core_layout (initialised ienv md m) = core_layout m"
  "init_layout (initialised ienv md m) = init_layout m"
  by (simp_all add: initialised_def inc_regions_def fill_core_def fill_init_def fill_IDT_def
      fill_region_def config_IDT_base_def)

lemma start_cpu_ok:
  assumes w: "winv w" "i < length (wentries w)" and env: "pe_env_ok env pre"
  obtains w' where "pe_vcpu env (int i) w = Ret (Some (1, w'))" "winv w'"
    "wentries w' = (wentries w)[i := (wentries w ! i)\<lparr>vcpufd := pe_vcpufd env, processed := True\<rparr>]"
    "wmem w' = wmem w" "wproxy w' = wproxy w" "wout w' = wout w @ concat (map serial_byte pre)"
    "wmajor w' = wmajor w"
proof -
  from env obtain rest where e: "pe_copy_regs env" "0 \<le> pe_vcpufd env" "0 \<le> pe_sizeof_run env"
      "pe_sizeof_run env \<le> pe_mmap_size env" "pe_run env \<noteq> 0" "pe_run env \<noteq> MAP_FAILED"
      "0 \<le> pe_get_sregs env" "0 \<le> pe_set_sregs env" "0 \<le> pe_set_regs env initial_regs"
      "list_all guest_goes_on pre" "pe_exits env initial_regs = pre @ (0, ExitHlt) # rest"
    by (auto simp: pe_env_ok_def)
  obtain t where t: "table_set_xxx (int i) (\<lambda>e. e\<lparr>vcpufd := pe_vcpufd env\<rparr>) (wtable w) = Ret t"
    "errno t = 0" "winv (w\<lparr>wtable := t\<rparr>)"
    "wentries (w\<lparr>wtable := t\<rparr>) = (wentries w)[i := (wentries w ! i)\<lparr>vcpufd := pe_vcpufd env\<rparr>]"
    by (rule set_entry [OF w])
  define w1 where "w1 = w\<lparr>wtable := t, wout := wout w @ concat (map serial_byte pre)\<rparr>"
  have w1: "winv w1" "i < length (wentries w1)" "wentries w1 = wentries (w\<lparr>wtable := t\<rparr>)"
    using t w(2) by (simp_all add: w1_def winv_def wentries_def)
  obtain t2 where t2: "table_set_xxx (int i) (\<lambda>e. e\<lparr>processed := True\<rparr>) (wtable w1) = Ret t2"
    "errno t2 = 0" "winv (w1\<lparr>wtable := t2\<rparr>)"
    "wentries (w1\<lparr>wtable := t2\<rparr>) = (wentries w1)[i := (wentries w1 ! i)\<lparr>processed := True\<rparr>]"
    by (rule set_entry [OF w1(1,2)])
  have "kvm_run_loop (pe_run env) (int i) (pe_exits env initial_regs) (w\<lparr>wtable := t\<rparr>) =
      Ret (Some (1, w1\<lparr>wtable := t2\<rparr>))"
    using t2(1,2) e(6) unfolding e(11) kvm_run_loop_prefix [OF e(6,10)] by (simp add: w1_def)
  moreover have "table_entry_at_index_copy (pe_copy_regs env) (int i) t = Ret (Some (wentries w1 ! i))"
    using copy_entry [OF w1(1,2), of "pe_copy_regs env"] e(1) by (simp add: w1_def)
  ultimately have "pe_vcpu env (int i) w = Ret (Some (1, w1\<lparr>wtable := t2\<rparr>))"
    using e t by (simp add: pe_vcpu_def pe_start_cpu_def Let_def)
  then show thesis
    using t2 t w1 w(2) by (intro that [of "w1\<lparr>wtable := t2\<rparr>"]) (simp_all add: w1_def)
qed

lemma create_vm_ok:
  assumes w: "winv w" "i < length (wentries w)" and dist: "distinct (map uuid (wentries w))"
    and k: "knows (wproxy w) (uuid (wentries w ! i)) md"
    and major: "wmajor w = lxc_uio_cdev_major_number (wproxy w)"
    and env: "pe_env_ok env pre" and zero: "num_regions (memory (wentries w ! i)) = 0"
    and mem: "vm_memory_ok (memory (wentries w ! i))"
  obtains w' where "pe_create_vm env (int i) (wentries w ! i) w = Ret (Some (1, w'))" "winv w'"
    "wentries w' = (wentries w)[i := run_entry env md (wentries w ! i)]"
    "umem_read (wmem w') (mem_core (pe_init env)) (unat (ml_size (mod_core_layout md))) =
       core_bytes (wproxy w) md"
    "wproxy w' = wproxy w" "wout w' = wout w @ concat (map serial_byte pre)" "wmajor w' = wmajor w"
proof -
  let ?e = "wentries w ! i"
  from env have e: "pe_copy_mem env" "pe_copy_sent env" "0 \<le> pe_vmfd env" "init_env_ok (pe_init env)"
     "uaccess_ok (pe_sv env)" "kmalloc_mts (pe_sv env) \<noteq> None"
     "accessible (pe_sv env) (pe_packet env)" "accessible (pe_sv env) (mem_core (pe_init env))"
    by (auto simp: pe_env_ok_def)
  obtain t where t: "table_set_xxx (int i) (\<lambda>e. e\<lparr>vmfd := pe_vmfd env\<rparr>) (wtable w) = Ret t"
    "errno t = 0" "winv (w\<lparr>wtable := t\<rparr>)"
    "wentries (w\<lparr>wtable := t\<rparr>) = (wentries w)[i := ?e\<lparr>vmfd := pe_vmfd env\<rparr>]"
    by (rule set_entry [OF w])
  define w1 where "w1 = w\<lparr>wtable := t\<rparr>"
  have w1: "winv w1" "i < length (wentries w1)" "wproxy w1 = wproxy w" "wmajor w1 = wmajor w"
      "wout w1 = wout w" "wentries w1 = (wentries w)[i := ?e\<lparr>vmfd := pe_vmfd env\<rparr>]"
    using t w(2) by (simp_all add: w1_def)
  have u1: "uuid (wentries w1 ! i) = uuid ?e" "num_regions (memory (wentries w1 ! i)) = 0"
    using w1 w(2) zero by simp_all
  have "map uuid (wentries w1) = map uuid (wentries w)"
    using w1(6) w(2) by (simp add: map_update list_update_same_conv)
  with dist have d1: "distinct (map uuid (wentries w1))" by simp
  obtain w2 where w2: "initialize_memory_uuid (pe_init env) (uuid ?e) w1 = Ret (0, w2)" "winv w2"
    "wproxy w2 = wproxy w" "wmajor w2 = wmajor w" "wout w2 = wout w"
    "wentries w2 = (wentries w)[i := ?e\<lparr>vmfd := pe_vmfd env, memory := initialised (pe_init env) md (memory ?e)\<rparr>]"
    using initialize_memory_ok [OF w1(1,2), of md "pe_init env"] k major e(4) u1 d1 w1 w(2) by auto
  let ?e2 = "?e\<lparr>vmfd := pe_vmfd env, memory := initialised (pe_init env) md (memory ?e)\<rparr>"
  have i2: "i < length (wentries w2)" "wentries w2 ! i = ?e2" using w2 w(2) by simp_all
  have mem2: "vm_memory_ok (initialised (pe_init env) md (memory ?e))"
    using mem zero by (simp add: vm_memory_ok_def)
  obtain m3 where m3: "send_packet (pe_sv env) (pe_packet env) (uuid ?e)
        (initialised (pe_init env) md (memory ?e)) w2 = Ret (0, w2\<lparr>wmem := m3\<rparr>)"
      "umem_read m3 (mem_core (pe_init env)) (unat (ml_size (mod_core_layout md))) = core_bytes (wproxy w) md"
    using send_packet_ok [of w2 "uuid ?e" md "initialised (pe_init env) md (memory ?e)" "pe_sv env"
        "pe_packet env"] k mem2 e w2(3) by auto
  have w3: "winv (w2\<lparr>wmem := m3\<rparr>)" "i < length (wentries (w2\<lparr>wmem := m3\<rparr>))"
    using w2 i2 by simp_all
  obtain w' where w': "pe_vcpu env (int i) (w2\<lparr>wmem := m3\<rparr>) = Ret (Some (1, w'))" "winv w'"
    "wentries w' = (wentries w2)[i := ?e2\<lparr>vcpufd := pe_vcpufd env, processed := True\<rparr>]"
    "wmem w' = m3" "wproxy w' = wproxy w" "wout w' = wout w @ concat (map serial_byte pre)"
    "wmajor w' = wmajor w"
    using start_cpu_ok [OF w3 env] w2 i2 by auto
  have "pe_create_vm env (int i) ?e w = pe_memory env (int i) ?e w1"
    using t e(3) by (simp add: pe_create_vm_def w1_def Let_def)
  also have "\<dots> = pe_send env (int i) ?e2 w2"
    using w2(1) copy_entry [OF w2(2) i2(1), of "pe_copy_mem env"] i2(2) e(1)
    by (simp add: pe_memory_def)
  also have "\<dots> = Ret (Some (1, w'))"
    using m3(1) copy_entry [OF w3, of "pe_copy_sent env"] e(2) w'(1) by (simp add: pe_send_def)
  finally show thesis
    using w' m3 w2(6) w(2) by (intro that [of w']) (simp_all add: run_entry_def)
qed

lemma process_entry_ok:
  assumes w: "winv w" "i < length (wentries w)" "length (wentries w) < 2 ^ 31"
    and dist: "distinct (map uuid (wentries w))"
    and before: "\<forall>j < i. entry_done (wentries w ! j) \<and> flags_ok (wentries w ! j)"
    and todo: "\<not> entry_done (wentries w ! i)"
    and k: "knows (wproxy w) (uuid (wentries w ! i)) md"
    and major: "wmajor w = lxc_uio_cdev_major_number (wproxy w)"
    and env: "pe_env_ok env pre" and zero: "num_regions (memory (wentries w ! i)) = 0"
    and mem: "vm_memory_ok (memory (wentries w ! i))"
  obtains w' where "process_entry env w = Ret (Some (1, w'))" "winv w'"
    "wentries w' = (wentries w)[i := run_entry env md (wentries w ! i)]"
    "umem_read (wmem w') (mem_core (pe_init env)) (unat (ml_size (mod_core_layout md))) =
       core_bytes (wproxy w) md"
    "wproxy w' = wproxy w" "wout w' = wout w @ concat (map serial_byte pre)" "wmajor w' = wmajor w"
proof -
  obtain w' where w': "pe_create_vm env (int i) (wentries w ! i) w = Ret (Some (1, w'))" "winv w'"
    "wentries w' = (wentries w)[i := run_entry env md (wentries w ! i)]"
    "umem_read (wmem w') (mem_core (pe_init env)) (unat (ml_size (mod_core_layout md))) =
       core_bytes (wproxy w) md"
    "wproxy w' = wproxy w" "wout w' = wout w @ concat (map serial_byte pre)" "wmajor w' = wmajor w"
    by (rule create_vm_ok [OF w(1,2) dist k major env zero mem])
  have n: "get_table_num_entries (wtable w) = int (length (wentries w))"
    by (rule num_entries_small [OF w(1,3)])
  have cp: "\<And>j. pe_copy env j" using env by (simp add: pe_env_ok_def)
  have pre: "\<forall>j\<in>set [0..<i]. j < length (wentries w) \<and> entry_done (wentries w ! j) \<and> flags_ok (wentries w ! j)"
    using before w(2) by auto
  have "process_entry env w = pe_scan env ([0..<i] @ i # [Suc i..<length (wentries w)]) w"
    using n w(2) by (auto simp: process_entry_def Let_def simp flip: upt_split)
  also have "\<dots> = Ret (Some (1, w'))"
    unfolding pe_scan_skip [OF w(1) cp pre]
    using w'(1) todo cp copy_entry [OF w(1,2)] by (simp add: entry_done_def)
  finally show thesis using w' by (intro that)
qed

subsection \<open>Taking a new entry\<close>

definition new_env_ok :: "'e new_env \<Rightarrow> utable \<Rightarrow> bool" where
  "new_env_ok env t \<longleftrightarrow>
     uaccess_ok (ne_sv env) \<and> accessible (ne_sv env) (ne_adr env) \<and> ne_mem env \<noteq> None \<and>
     ut_put_ok (ne_alloc env) t"

definition fresh_memory :: "vm_memory \<Rightarrow> vm_memory" where
  "fresh_memory m = m\<lparr>num_regions := 0, base_IDT := 0, size_IDT := 0\<rparr>"

lemma get_new_entry_none:
  assumes "proxy_inv (wproxy w)" and "pending_uuids (wproxy w) = []"
    and "wmajor w = lxc_uio_cdev_major_number (wproxy w)"
  shows "\<exists>m. get_new_entry env w = Ret (0, w\<lparr>wmem := m\<rparr>)"
  using assms
  by (simp add: get_new_entry_def dev_ioctl_def get_pending_Nil proxy_inv_def pending_uuids_def) blast

lemma get_new_entry_some:
  assumes inv: "winv w" "proxy_inv (wproxy w)" and pend: "pending_uuids (wproxy w) = u # us"
    and major: "wmajor w = lxc_uio_cdev_major_number (wproxy w)" and env: "new_env_ok env (wtable w)"
  obtains w' where "get_new_entry env w = Ret (1, w')" "winv w'" "proxy_inv (wproxy w')"
    "pending_uuids (wproxy w') = us"
    "wentries w' = wentries w @ [new_entry u (fresh_memory (the (ne_mem env)))]"
    "\<exists>t1. wproxy w' = (wproxy w)\<lparr>ptable := t1\<rparr> \<and> mt_entries t1 = mt_entries (ptable (wproxy w))"
    "wmajor w' = wmajor w" "wout w' = wout w"
    "table_put (ne_alloc env) (new_entry u (fresh_memory (the (ne_mem env)))) (wtable w) = Ret (0, wtable w')"
proof -
  let ?sv = "ne_sv env" and ?a = "ne_adr env" and ?px = "wproxy w"
  from env have e: "uaccess_ok ?sv" "accessible ?sv ?a" "ut_put_ok (ne_alloc env) (wtable w)"
    and "ne_mem env \<noteq> None"
    by (simp_all add: new_env_ok_def)
  then obtain m0 where m0: "ne_mem env = Some m0" by blast
  from pend obtain x xs where x: "mt_pending (ptable ?px) = x # xs" "u = mt_uuid x" "us = map mt_uuid xs"
    by (cases "mt_pending (ptable ?px)") (auto simp: pending_uuids_def)
  from inv(2) have mt: "mt_inv (ptable ?px)" by (simp add: proxy_inv_def)
  let ?m = "umem_write (wmem w) ?a (enc_u128 0)"
  let ?m' = "umem_write ?m ?a (enc_u128 u)"
  have cp: "copy_to_user ?sv ?m ?a (enc_u128 (mt_uuid x)) = (0, ?m')"
    using accessible_to [OF e(1,2)] x(2) by simp
  obtain t1 where t1: "mt_inv t1" "mt_pending t1 = xs" "mt_entries t1 = mt_entries (ptable ?px)"
      "ioctl_get_pending_module ?sv ?a ?m ?px = Ret (1, ?m', ?px\<lparr>ptable := t1\<rparr>)"
    using get_pending_Cons [OF mt x(1) cp] by auto
  have rd: "dec_u128 (umem_read ?m' ?a 16) = u"
    using umem_read_write [of "enc_u128 u" ?m ?a] by simp
  let ?e = "new_entry u (fresh_memory m0)"
  obtain t where t: "table_put (ne_alloc env) ?e (wtable w) = Ret (0, t)" "ut_inv t"
      "ut_entries t = ut_entries (wtable w) @ [?e]"
    using ut_put_append [of "wtable w" "ne_alloc env" ?e] inv(1) e(3) by (auto simp: winv_def)
  let ?w' = "w\<lparr>wmem := ?m', wproxy := ?px\<lparr>ptable := t1\<rparr>, wtable := t\<rparr>"
  have "get_new_entry env w = Ret (1, ?w')"
    using t1(4) major m0 rd t(1)
    by (simp add: get_new_entry_def dev_ioctl_def new_memory_def fresh_memory_def)
  moreover have "proxy_inv (?px\<lparr>ptable := t1\<rparr>)"
    by (rule proxy_inv_pop [OF inv(2) t1(1,3)])
  ultimately show thesis
    using t t1 x m0 by (intro that [of ?w']) (auto simp: winv_def wentries_def pending_uuids_def)
qed

end
