(* ===== verification/Demo_States.thy ===== *)
theory Demo_States
  imports Host_Server
begin

text \<open>
  Concrete states and environments on which the properties are instantiated: kernel
  services under which every copy succeeds, a module of three core bytes, a proxy and a
  server table filled from given lists. The lemmas say that these states satisfy the
  invariants, so that each witness is one application of its property.
\<close>

definition demo_layout :: "u64 \<Rightarrow> u32 \<Rightarrow> module_layout" where
  "demo_layout base sz =
     \<lparr>ml_base = base, ml_size = sz, ml_text_size = sz, ml_ro_size = sz, ml_rest = replicate 60 0\<rparr>"

definition demo_module :: kmodule where
  "demo_module = \<lparr>mod_core_layout = demo_layout 0x7000 3, mod_init_layout = demo_layout 0x9000 5\<rparr>"

definition demo_sv :: "nat kservices" where
  "demo_sv =
     \<lparr>copy_to_user = (\<lambda>m a bs. (0, umem_write m a bs)),
      copy_from_user = (\<lambda>m a n. (0, umem_read m a n)),
      kmalloc_ks = Some \<lparr>ks_pid = 0, ks_fp = 7\<rparr>,
      kmalloc_mts = Some \<lparr>mt_uuid = 0, mt_nsproxy = 0, mt_module = 0\<rparr>,
      krealloc_mt = None,
      fcheck = (\<lambda>fd. if fd = 5 then 80 else 0),
      current_pid = 42,
      eventfd_ctx_fileget = (\<lambda>fp. if fp = 80 then Ret (EfdCtx 1) else Crash BadPointer),
      eventfd_signal = Suc\<rparr>"

lemma demo_sv_ok [simp]:
  "uaccess_ok demo_sv" "accessible demo_sv a" "kmalloc_mts demo_sv \<noteq> None"
  by (simp_all add: demo_sv_def uaccess_ok_def accessible_def)

definition demo_entry :: "u128 \<Rightarrow> module_table_struct" where
  "demo_entry u = \<lparr>mt_uuid = u, mt_nsproxy = 0, mt_module = 64\<rparr>"

definition demo_table :: "u128 list \<Rightarrow> nat \<Rightarrow> mtable" where
  "demo_table us p =
     \<lparr>module_table = Some \<lparr>blk_cap = 256, blk_slot = (\<lambda>i. demo_entry (if i < length us then us ! i else 0))\<rparr>,
      table_size = 256, table_num_entries = int (length us), table_index = int p - 1\<rparr>"

definition demo_proxy :: "u128 list \<Rightarrow> nat \<Rightarrow> nat proxy" where
  "demo_proxy us p =
     \<lparr>ptable = demo_table us p, ks = None, lxc_uio_cdev_major_number = 240,
      kmodules = (\<lambda>q. if q = 64 then Some demo_module else None),
      kmem = (\<lambda>a. ucast a), efds = (\<lambda>_. 0)\<rparr>"

lemma demo_layout_ok [simp]: "layout_ok (demo_layout b s)"
  by (simp add: layout_ok_def demo_layout_def)

lemma demo_table_fields [simp]:
  "table_num_entries (demo_table us p) = int (length us)" "table_size (demo_table us p) = 256"
  "table_index (demo_table us p) = int p - 1"
  by (simp_all add: demo_table_def)

lemma demo_table_inv: "p \<le> length us \<Longrightarrow> length us \<le> 256 \<Longrightarrow> mt_inv (demo_table us p)"
  by (simp add: mt_inv_def demo_table_def)

lemma demo_table_entries [simp]: "mt_entries (demo_table us p) = map demo_entry us"
  by (rule nth_equalityI) (simp_all add: mt_entries_def demo_table_def)

lemma demo_table_pending [simp]: "mt_pending (demo_table us p) = map demo_entry (drop p us)"
  by (simp add: mt_pending_def mt_popped_def drop_map)

lemma demo_proxy_simps [simp]:
  "ptable (demo_proxy us p) = demo_table us p"
  "lxc_uio_cdev_major_number (demo_proxy us p) = 240"
  "kmodules (demo_proxy us p) 64 = Some demo_module" "ks (demo_proxy us p) = None"
  by (simp_all add: demo_proxy_def)

lemma demo_proxy_inv:
  assumes "p \<le> length us" and "length us \<le> 256"
  shows "proxy_inv (demo_proxy us p)"
proof -
  have "list_all (entry_live (demo_proxy us p)) (map demo_entry us)"
    by (simp add: list_all_iff entry_live_def demo_entry_def module_ok_def demo_module_def)
  with demo_table_inv [OF assms] show ?thesis by (simp add: proxy_inv_def)
qed

lemma demo_proxy_pending [simp]: "pending_uuids (demo_proxy us p) = drop p us"
  by (simp add: pending_uuids_def demo_entry_def o_def)

lemma demo_find:
  assumes "u \<in> set us"
  shows "mt_find u (demo_table us p) = Some (demo_entry u)"
  using assms by (induction us) (auto simp: mt_find_def demo_entry_def)

lemma demo_knows:
  assumes "p \<le> length us" and "length us \<le> 256" and "u \<in> set us"
  shows "knows (demo_proxy us p) u demo_module"
proof -
  have "mt_module (demo_entry u) = 64" by (simp add: demo_entry_def)
  with demo_proxy_inv [OF assms(1,2)] demo_find [OF assms(3)] show ?thesis
    unfolding knows_def by (intro conjI exI [of _ "demo_entry u"]) simp_all
qed

text \<open>The same proxy with a registered server, whose event file is number 1.\<close>

definition demo_server :: "u128 list \<Rightarrow> nat \<Rightarrow> nat proxy" where
  "demo_server us p = (demo_proxy us p)\<lparr>ks := Some \<lparr>ks_pid = 42, ks_fp = 80\<rparr>\<rparr>"

lemma demo_server_simps:
  "p \<le> length us \<Longrightarrow> length us \<le> 256 \<Longrightarrow> proxy_inv (demo_server us p)"
  "kmodules (demo_server us p) 64 = Some demo_module" "module_ok demo_module"
  "length us < 256 \<Longrightarrow> mt_put_ok (krealloc_mt demo_sv) (ptable (demo_server us p))"
  "server_live demo_sv (demo_server us p)"
  "signalled demo_sv (demo_server us p) = (\<lambda>_. 0)(1 := 1)"
  "pending_uuids (demo_server us p) = drop p us"
  by (simp_all add: demo_server_def demo_proxy_inv module_ok_def server_live_def signalled_def mt_put_ok_def)
    (simp_all add: demo_sv_def demo_module_def demo_proxy_def)

text \<open>A run of two steps: the server asks for a module, a container inserts one.\<close>

lemma demo_run:
  obtains st' where "prun (demo_proxy [5, 6] 0) [Delivered 5, PutEv 7] st'"
proof -
  let ?st = "demo_proxy [5, 6] 0" and ?m = "umem_write (\<lambda>_. 0) 64 (enc_u128 5)"
  have x: "mt_pending (ptable ?st) = demo_entry 5 # [demo_entry 6]" by simp
  have cp: "copy_to_user demo_sv (\<lambda>_. 0) 64 (enc_u128 (mt_uuid (demo_entry 5))) = (0, ?m)"
    by (simp add: accessible_to) (simp add: demo_entry_def)
  have inv: "mt_inv (ptable ?st)" by (simp add: demo_table_inv)
  obtain t1 where t1: "mt_inv t1" "mt_pending t1 = [demo_entry 6]" "mt_entries t1 = map demo_entry [5, 6]"
      "ioctl_get_pending_module demo_sv 64 (\<lambda>_. 0) ?st = Ret (1, ?m, ?st\<lparr>ptable := t1\<rparr>)"
      "table_pop (demo_table [5, 6] 0) = (MtSlot 0, t1)"
    using get_pending_Cons [OF inv x cp] by auto
  have rd: "dec_u128 (umem_read ?m 64 16) = 5"
    using umem_read_write [of "enc_u128 5" "\<lambda>_. 0" 64] by simp
  have s1: "pstep ?st (Delivered 5) (?st\<lparr>ptable := t1\<rparr>)"
    using pstep.pending [of demo_sv ?st 64 "\<lambda>_. 0" 1 ?m "?st\<lparr>ptable := t1\<rparr>"] t1(4) rd
      cdev_ioctl_get_pending [of demo_sv ?st] by (simp add: pending_event_def)
  let ?st1 = "?st\<lparr>ptable := t1\<rparr>"
  have "table_num_entries t1 = 2" "table_size t1 = 256"
    using t1(5) by (auto simp: table_pop_def)
  then have ok: "mt_put_ok (krealloc_mt demo_sv) (ptable ?st1)" by (simp add: mt_put_ok_def)
  have inv1: "proxy_inv ?st1"
    by (rule proxy_inv_pop [OF _ t1(1)]) (simp_all add: demo_proxy_inv t1(3))
  have md: "kmodules ?st1 64 = Some demo_module" "module_ok demo_module"
    by (simp_all add: demo_server_simps)
  have live: "server_live demo_sv ?st1" by (simp add: server_live_def)
  obtain t2 where "lxc_uio_proxy_put_module_1 demo_sv 7 0 64 ?st1 =
      Ret (0, ?st1\<lparr>ptable := t2, efds := signalled demo_sv ?st1\<rparr>)"
    by (rule put_module_returns [OF inv1 md ok live])
  then have s2: "pstep ?st1 (PutEv 7) (?st1\<lparr>ptable := t2, efds := signalled demo_sv ?st1\<rparr>)"
    by (rule pstep.put [OF md ok])
  have "prun ?st ([] @ [Delivered 5]) ?st1" by (rule prun.snoc [OF prun.nil s1])
  from prun.snoc [OF this s2] show thesis by (intro that) simp
qed

subsection \<open>A server\<close>

definition demo_region :: kvm_region where
  "demo_region = \<lparr>slot = 9, flags = 9, guest_phys_addr = 9, memory_size = 9, userspace_addr = 9\<rparr>"

definition demo_memory :: vm_memory where
  "demo_memory =
     \<lparr>region_IDT = demo_region, region_init = demo_region, region_core = demo_region,
      num_regions = 0, base_IDT = 0, size_IDT = 0,
      core_layout = demo_layout 0 0, init_layout = demo_layout 0 0\<rparr>"

lemma demo_memory_ok [simp]: "vm_memory_ok demo_memory" "num_regions demo_memory = 0"
  by (simp_all add: vm_memory_ok_def demo_memory_def)

definition demo_utable :: "UUID_table list \<Rightarrow> utable" where
  "demo_utable es =
     \<lparr>uuid_table = 4096, uuid_table_size = 256, ut_num_entries = int (length es),
      uheap = (\<lambda>_. None)(4096 \<mapsto> \<lparr>ub_cap = 256,
        ub_slot = (\<lambda>i. if i < length es then es ! i else new_entry 0 demo_memory)\<rparr>),
      errno = 0\<rparr>"

definition demo_alloc :: alloc_res where
  "demo_alloc = \<lparr>al_ptr = 0, al_slot = (\<lambda>_. new_entry 0 demo_memory), al_errno = 12\<rparr>"

lemma demo_utable_inv [simp]: "length es \<le> 256 \<Longrightarrow> ut_inv (demo_utable es)"
  by (simp add: ut_inv_def demo_utable_def)

lemma demo_utable_entries [simp]: "ut_entries (demo_utable es) = es"
  by (rule nth_equalityI) (simp_all add: ut_entries_def demo_utable_def)

lemma demo_utable_put_ok: "length es < 256 \<Longrightarrow> ut_put_ok al (demo_utable es)"
  by (simp add: ut_put_ok_def demo_utable_def)

definition demo_world :: "u128 list \<Rightarrow> nat \<Rightarrow> UUID_table list \<Rightarrow> nat world" where
  "demo_world us p es =
     \<lparr>wproxy = demo_proxy us p, wmem = (\<lambda>_. 0), wtable = demo_utable es, wmajor = 240, wout = []\<rparr>"

lemma demo_world_simps [simp]:
  "wproxy (demo_world us p es) = demo_proxy us p" "wtable (demo_world us p es) = demo_utable es"
  "wmajor (demo_world us p es) = 240" "wout (demo_world us p es) = []"
  "wentries (demo_world us p es) = es"
  by (simp_all add: demo_world_def wentries_def)

lemma demo_world_inv: "length es \<le> 256 \<Longrightarrow> winv (demo_world us p es)"
  by (simp add: winv_def)

definition demo_init :: "nat init_env" where
  "demo_init =
     \<lparr>page_size = 4096, mem_IDT = 0x100000, mem_init = 0x200000, mem_core = 0x300000,
      set_IDT = 0, set_init = 0, set_core = 0, buf_init = 0x400000, buf_core = 0x500000,
      sv_init = demo_sv, sv_core = demo_sv\<rparr>"

lemma demo_init_ok [simp]: "init_env_ok demo_init"
  by (simp add: init_env_ok_def demo_init_def MAP_FAILED_def)

definition demo_new :: "nat new_env" where
  "demo_new = \<lparr>ne_sv = demo_sv, ne_adr = 0x600000, ne_mem = Some demo_memory, ne_alloc = demo_alloc\<rparr>"

lemma demo_new_ok: "length es < 256 \<Longrightarrow> new_env_ok demo_new (demo_utable es)"
  by (simp add: new_env_ok_def demo_new_def demo_utable_put_ok)

definition demo_pe :: "(int \<times> kvm_exit) list \<Rightarrow> nat pe_env" where
  "demo_pe exits =
     \<lparr>pe_copy = (\<lambda>_. True), pe_copy_mem = True, pe_copy_sent = True, pe_copy_regs = True,
      pe_vmfd = 10, pe_init = demo_init, pe_sv = demo_sv, pe_packet = 0x700000,
      pe_vcpufd = 11, pe_mmap_size = 12288, pe_sizeof_run = 2352, pe_run = 0x800000,
      pe_get_sregs = 0, pe_set_sregs = 0, pe_set_regs = (\<lambda>_. 0), pe_exits = (\<lambda>_. exits)\<rparr>"

lemma demo_pe_ok:
  "list_all guest_goes_on pre \<Longrightarrow> pe_env_ok (demo_pe (pre @ [(0, ExitHlt)])) pre"
  by (simp add: pe_env_ok_def demo_pe_def MAP_FAILED_def)

end
