(* ===== verification/Pending_Race.thy ===== *)
theory Pending_Race
  imports Module_Table
begin

text \<open>
  The one place where the device leaves the protection of \<open>table_mutex\<close> with a pointer
  into the table in hand: the request for a pending module calls \<open>table_pop\<close>, which locks
  and unlocks, and then reads \<open>mt->uuid\<close> with no lock held (\<open>cdev.c\<close>). In between other
  processors may insert modules, and a full table is reallocated. Here the table carries the
  address of its block, a popped pointer is that address and an index, and following it
  after the block was moved is a use after free. The table with its address honours the
  same queue contract as the table alone.
\<close>

record ltable =
  lt_table :: mtable
  lt_base :: u64

text \<open>\<open>table_put\<close>; the answer of \<open>krealloc\<close> is the contents and the address of the block.\<close>

definition locked_put ::
    "(nat \<Rightarrow> module_table_struct) option \<times> u64 \<Rightarrow> module_table_struct \<Rightarrow> ltable \<Rightarrow> (int \<times> ltable) exec" where
  "locked_put ans mt s =
     exec_bind (table_put (fst ans) mt (lt_table s)) (\<lambda>(r, t).
       Ret (r, \<lparr>lt_table = t,
                lt_base =
                  (if module_table (lt_table s) \<noteq> None \<and>
                      table_num_entries (lt_table s) = table_size (lt_table s)
                   then (if fst ans = None then 0 else snd ans) else lt_base s)\<rparr>))"

definition locked_pop :: "ltable \<Rightarrow> (u64 \<times> int) option \<times> ltable" where
  "locked_pop s =
     (case table_pop (lt_table s) of
        (MtNull, t) \<Rightarrow> (None, s\<lparr>lt_table := t\<rparr>)
      | (MtSlot i, t) \<Rightarrow> (Some (lt_base s, i), s\<lparr>lt_table := t\<rparr>))"

text \<open>\<open>mt->uuid\<close> and the rest of \<open>*mt\<close>, read without the lock.\<close>

definition unlocked_read :: "ltable \<Rightarrow> (u64 \<times> int) option \<Rightarrow> module_table_struct exec" where
  "unlocked_read s p =
     (case p of
        None \<Rightarrow> Crash NullDeref
      | Some (b, i) \<Rightarrow> if b = lt_base s then mt_deref (lt_table s) (MtSlot i) else Crash UseAfterFree)"

definition lt_put_ok :: "(nat \<Rightarrow> module_table_struct) option \<times> u64 \<Rightarrow> ltable \<Rightarrow> bool" where
  "lt_put_ok ans s \<longleftrightarrow> mt_put_ok (fst ans) (lt_table s)"

subsection \<open>The contract\<close>

lemma locked_pop_next:
  assumes "mt_inv (lt_table s)" and "mt_popped (lt_table s) < length (mt_entries (lt_table s))"
  shows "\<exists>s'. locked_pop s = (Some (lt_base s, int (mt_popped (lt_table s))), s') \<and>
    unlocked_read s' (Some (lt_base s, int (mt_popped (lt_table s)))) =
      Ret (mt_entries (lt_table s) ! mt_popped (lt_table s)) \<and>
    mt_inv (lt_table s') \<and> mt_entries (lt_table s') = mt_entries (lt_table s) \<and>
    mt_popped (lt_table s') = Suc (mt_popped (lt_table s)) \<and> lt_base s' = lt_base s"
proof -
  from mt_pop_next [OF assms] obtain p t' where t': "table_pop (lt_table s) = (p, t')" "p \<noteq> MtNull"
      "mt_deref t' p = Ret (mt_entries (lt_table s) ! mt_popped (lt_table s))" "mt_inv t'"
      "mt_entries t' = mt_entries (lt_table s)" "mt_popped t' = Suc (mt_popped (lt_table s))"
    by blast
  have "p = MtSlot (int (mt_popped (lt_table s)))"
    using t'(1,2) assms(1) by (auto simp: table_pop_def mt_addr_def mt_popped_def split: if_splits elim!: mt_invE)
  with t' show ?thesis by (simp add: locked_pop_def unlocked_read_def)
qed

interpretation ltq: table_queue locked_put lt_put_ok "\<lambda>s. mt_entries (lt_table s)" "\<lambda>s. mt_inv (lt_table s)"
  locked_pop unlocked_read None "\<lambda>s. mt_popped (lt_table s)"
proof unfold_locales
  show "\<exists>s'. locked_put e x s = Ret (0, s') \<and> mt_inv (lt_table s') \<and>
      mt_entries (lt_table s') = mt_entries (lt_table s) @ [x]"
    if "mt_inv (lt_table s)" "lt_put_ok e s" for s e x
    using mt_put_append [of "lt_table s" "fst e" x] that by (auto simp: lt_put_ok_def locked_put_def)
  show "mt_popped (lt_table s') = mt_popped (lt_table s)"
    if "mt_inv (lt_table s)" "locked_put e x s = Ret (r, s')" for s e x r s'
    using that by (auto simp: locked_put_def exec_bind_eq_Ret_iff dest: mt_put_popped)
  show "mt_popped (lt_table s) \<le> length (mt_entries (lt_table s))" if "mt_inv (lt_table s)" for s
    using that by (rule mt_popped_le)
  show "locked_pop s = (None, s)"
    if "mt_inv (lt_table s)" "mt_popped (lt_table s) = length (mt_entries (lt_table s))" for s
    using mt_pop_empty [OF that] by (simp add: locked_pop_def)
  show "\<exists>p s'. locked_pop s = (p, s') \<and> p \<noteq> None \<and>
      unlocked_read s' p = Ret (mt_entries (lt_table s) ! mt_popped (lt_table s)) \<and> mt_inv (lt_table s') \<and>
      mt_entries (lt_table s') = mt_entries (lt_table s) \<and>
      mt_popped (lt_table s') = Suc (mt_popped (lt_table s))"
    if "mt_inv (lt_table s)" "mt_popped (lt_table s) < length (mt_entries (lt_table s))" for s
    using locked_pop_next [OF that] by blast
qed

subsection \<open>Insertions between the pop and the read\<close>

lemma mt_deref_slot:
  assumes "mt_inv t" and "i < length (mt_entries t)"
  shows "mt_deref t (MtSlot (int i)) = Ret (mt_entries t ! i)"
proof -
  from assms(1) have "mt_addr t (int i) = MtSlot (int i)" by (auto simp: mt_addr_def elim: mt_invE)
  with mt_deref_entry [OF assms] show ?thesis by simp
qed

lemma read_after_puts:
  assumes inv: "mt_inv (lt_table s)" and pend: "mt_pending (lt_table s) = x # xs"
    and pop: "locked_pop s = (p, s1)" and ok: "puts_ok locked_put lt_put_ok exs s1"
  obtains s2 where "run_puts locked_put exs s1 = Ret s2" "mt_inv (lt_table s2)"
    "mt_pending (lt_table s2) = xs @ map snd exs"
    "unlocked_read s2 p = (if lt_base s2 = lt_base s then Ret x else Crash UseAfterFree)"
proof -
  let ?n = "mt_popped (lt_table s)" and ?es = "mt_entries (lt_table s)"
  from pend have lt: "?n < length ?es" and x: "?es ! ?n = x" and xs: "drop (Suc ?n) ?es = xs"
    by (auto simp: mt_pending_def dest: arg_cong [of _ _ length])
      (metis Cons_nth_drop_Suc drop_all leI list.inject list.simps(3))+
  from locked_pop_next [OF inv lt] pop have s1: "p = Some (lt_base s, int ?n)" "mt_inv (lt_table s1)"
      "mt_entries (lt_table s1) = ?es" "mt_popped (lt_table s1) = Suc ?n"
    by auto
  from ltq.run_puts_append [OF s1(2) ok] obtain s2 where s2: "run_puts locked_put exs s1 = Ret s2"
      "mt_inv (lt_table s2)" "mt_entries (lt_table s2) = ?es @ map snd exs"
    using s1(3) by auto
  have pp: "mt_popped (lt_table s2) = Suc ?n"
    using ltq.run_puts_popped [OF s1(2) ok s2(1)] s1(4) by simp
  have "mt_deref (lt_table s2) (MtSlot (int ?n)) = Ret x"
    using mt_deref_slot [OF s2(2), of ?n] s2(3) lt x by (simp add: nth_append)
  then show thesis
    using s2 pp xs lt s1(1) by (intro that [of s2]) (auto simp: mt_pending_def unlocked_read_def)
qed

end
