(* ===== verification/Proxy_Properties.thy ===== *)
theory Proxy_Properties
  imports Demo_States Pending_Race
begin

text \<open>
  The properties of the proxy module: its table as a queue and as a store, the requests of
  its character device, the packets it answers, the insertion of a module, and what the
  server is handed over a whole run.
\<close>

subsection \<open>The module table\<close>

text \<open>C15. Inserting a sequence of modules into a well-formed table and then popping until
  the table answers NULL returns the entries that were pending before, then the new ones,
  each once and in insertion order, across any number of reallocations.\<close>

theorem module_table_fifo:
  assumes "mt_inv t" and "puts_ok Module_Table.table_put mt_put_ok exs t"
    and "length (mt_pending t) + length exs < n"
  shows "\<exists>t1 t2. run_puts Module_Table.table_put exs t = Ret t1 \<and>
    pop_n table_pop mt_deref MtNull n t1 = Ret (mt_pending t @ map snd exs, t2) \<and>
    mt_inv t2 \<and> mt_pending t2 = []"
proof -
  have "length (mt_entries t) - mt_popped t + length exs < n"
    using assms(3) by (simp add: mt_pending_def)
  from mtq.puts_then_drain [OF assms(1,2) this] show ?thesis
    by (auto simp: mt_pending_def)
qed

theorem module_table_fifo_witness:
  "\<exists>t1 t2. run_puts Module_Table.table_put [(None, demo_entry 6), (None, demo_entry 7)]
       (demo_table [5] 0) = Ret t1 \<and>
    pop_n table_pop mt_deref MtNull 4 t1 = Ret ([demo_entry 5] @ [demo_entry 6, demo_entry 7], t2) \<and>
    mt_inv t2 \<and> mt_pending t2 = []"
  using module_table_fifo [of "demo_table [5] 0" "[(None, demo_entry 6), (None, demo_entry 7)]" 4]
  by (simp add: demo_table_inv)
    (simp add: demo_table_def mt_put_ok_def Module_Table.table_put_def mt_store_def)

text \<open>\<open>table_put\<close> on a well-formed table never faults. It appends the entry and
  keeps the table well-formed and the read position where it was, except when the table is
  full and \<open>krealloc\<close> fails: then it returns \<open>-ENOMEM\<close> and the table pointer is null.\<close>

theorem table_put_outcome:
  assumes "mt_inv t" and "krealloc_keeps kr t"
  shows "if table_num_entries t = table_size t \<and> kr = None
    then Module_Table.table_put kr mt t = Ret (- ENOMEM, t\<lparr>module_table := None\<rparr>)
    else \<exists>t'. Module_Table.table_put kr mt t = Ret (0, t') \<and> mt_inv t' \<and>
           mt_entries t' = mt_entries t @ [mt] \<and> table_index t' = table_index t"
proof (cases "table_num_entries t = table_size t \<and> kr = None")
  case True
  with assms(1) show ?thesis
    by (auto simp: Module_Table.table_put_def elim!: mt_invE)
next
  case False
  with assms(2) have "mt_put_ok kr t" by (auto simp: mt_put_ok_def)
  from mt_put_append [OF assms(1) this] show ?thesis
    using False by (simp only: if_False)
qed

theorem table_put_outcome_witness:
  "\<exists>t'. Module_Table.table_put None (demo_entry 6) (demo_table [5] 1) = Ret (0, t') \<and> mt_inv t' \<and>
     mt_entries t' = [demo_entry 5] @ [demo_entry 6] \<and>
     table_index t' = table_index (demo_table [5] 1)"
  using table_put_outcome [of "demo_table [5] 1" None "demo_entry 6"]
  by (simp add: demo_table_inv krealloc_keeps_def)

text \<open>When \<open>krealloc\<close> fails on a full table the modules already stored are lost:
  the pointer to the old block is overwritten, every later insertion is refused with -1 and
  every lookup dereferences the null table.\<close>

theorem krealloc_failure_loses_table:
  assumes "mt_inv t" and "table_num_entries t = table_size t"
  shows "\<exists>t'. Module_Table.table_put None mt t = Ret (- ENOMEM, t') \<and> mt_entries t' = [] \<and>
    (\<forall>kr mt'. Module_Table.table_put kr mt' t' = Ret (-1, t')) \<and>
    (\<forall>g u. table_get_copy (Some g) u t' = Crash NullDeref)"
proof -
  let ?t' = "t\<lparr>module_table := None\<rparr>"
  have pos: "0 < nat (table_num_entries t)" and tbl: "module_table t \<noteq> None"
    using assms by (auto elim!: mt_invE)
  have "table_get_copy (Some g) u ?t' = Crash NullDeref" for g u
    using upt_conv_Cons [OF pos] by (simp add: table_get_copy_def mt_addr_def mt_deref_def)
  then show ?thesis
    using assms(2) tbl by (intro exI [of _ ?t']) (auto simp: Module_Table.table_put_def mt_entries_def)
qed

theorem krealloc_failure_loses_table_witness:
  "\<exists>t'. Module_Table.table_put None (demo_entry 1) (demo_table (replicate 256 3) 0) = Ret (- ENOMEM, t') \<and>
    mt_entries t' = [] \<and> (\<forall>kr mt'. Module_Table.table_put kr mt' t' = Ret (-1, t')) \<and>
    (\<forall>g u. table_get_copy (Some g) u t' = Crash NullDeref)"
  by (rule krealloc_failure_loses_table)
    (simp_all add: demo_table_inv)

text \<open>Looking a module up after inserting it under a fresh identifier returns it, and
  the lookup of every other identifier is the same as before the insertion.\<close>

theorem put_then_get_copy:
  assumes "mt_inv t" and "mt_put_ok kr t" and "mt_uuid mt \<notin> mt_uuid ` set (mt_entries t)"
  shows "\<exists>t'. Module_Table.table_put kr mt t = Ret (0, t') \<and>
    table_get_copy (Some g) (mt_uuid mt) t' = Ret (Some mt) \<and>
    (\<forall>u. u \<noteq> mt_uuid mt \<longrightarrow> table_get_copy (Some g) u t' = table_get_copy (Some g) u t)"
proof -
  from mt_put_append [OF assms(1,2)] obtain t' where t': "Module_Table.table_put kr mt t = Ret (0, t')"
      "mt_inv t'" "mt_entries t' = mt_entries t @ [mt]"
    by blast
  have "find (\<lambda>x. mt_uuid x = mt_uuid mt) (mt_entries t) = None"
    using assms(3) by (auto simp: find_None_iff image_iff) 
  with t' assms(1) show ?thesis
    by (auto simp: table_get_copy_find find_snoc split: option.split)
qed

theorem put_then_get_copy_witness:
  "\<exists>t'. Module_Table.table_put None (demo_entry 9) (demo_table [5, 6] 1) = Ret (0, t') \<and>
    table_get_copy (Some (demo_entry 0)) 9 t' = Ret (Some (demo_entry 9)) \<and>
    (\<forall>u. u \<noteq> 9 \<longrightarrow>
       table_get_copy (Some (demo_entry 0)) u t' = table_get_copy (Some (demo_entry 0)) u (demo_table [5, 6] 1))"
proof -
  have [simp]: "mt_uuid (demo_entry u) = u" for u by (simp add: demo_entry_def)
  have "mt_put_ok None (demo_table [5, 6] 1)" by (simp add: mt_put_ok_def demo_table_def)
  then show ?thesis
    using put_then_get_copy [of "demo_table [5, 6] 1" None "demo_entry 9" "demo_entry 0"]
    by (simp add: demo_table_inv)
qed

text \<open>For an identifier that is not in the table, \<open>table_get_copy\<close> does not return
  NULL as its comment and its callers expect: it returns the freshly allocated block with
  whatever it contained.\<close>

theorem get_copy_unknown_uninitialised:
  assumes "mt_inv t" and "u \<notin> mt_uuid ` set (mt_entries t)"
  shows "table_get_copy (Some g) u t = Ret (Some g)"
proof -
  have "find (\<lambda>x. mt_uuid x = u) (mt_entries t) = None"
    using assms(2) by (auto simp: find_None_iff image_iff)
  with assms(1) show ?thesis by (simp add: table_get_copy_find)
qed

theorem get_copy_unknown_uninitialised_witness:
  "table_get_copy (Some (demo_entry 77)) 9 (demo_table [5, 6] 1) = Ret (Some (demo_entry 77))"
  by (rule get_copy_unknown_uninitialised)
    (simp_all add: demo_table_inv, simp add: demo_entry_def)

text \<open>\<open>table_pop_reverse\<close> undoes a pop, except the very first one of the table: after
  that pop it refuses with -1 and the entry stays popped.\<close>

theorem pop_reverse_undoes_all_but_first:
  assumes "mt_inv t" and "mt_pending t \<noteq> []"
  shows "table_pop_reverse (snd (table_pop t)) =
    (if mt_popped t = 0 then (-1, snd (table_pop t)) else (0, t)) \<and>
    snd (table_pop t) \<noteq> t"
proof -
  from assms obtain x xs where "mt_pending t = x # xs" by (cases "mt_pending t") auto
  with assms(1) obtain p t' where t': "table_pop t = (p, t')"
      "t' = t\<lparr>table_index := table_index t + 1\<rparr>"
    by (rule table_pop_Cons)
  have "-1 \<le> table_index t" using assms(1) by (auto elim: mt_invE)
  moreover have "t' \<noteq> t" by (rule notI, drule arg_cong [of _ _ table_index]) (simp add: t'(2))
  ultimately show ?thesis
    using t' by (auto simp: table_pop_reverse_def mt_popped_def)
qed

theorem pop_reverse_undoes_all_but_first_witness:
  "table_pop_reverse (snd (table_pop (demo_table [5, 6] 1))) = (0, demo_table [5, 6] 1) \<and>
   fst (table_pop_reverse (snd (table_pop (demo_table [5, 6] 0)))) = -1"
  using pop_reverse_undoes_all_but_first [of "demo_table [5, 6] 1"]
    pop_reverse_undoes_all_but_first [of "demo_table [5, 6] 0"]
  by (simp add: demo_table_inv mt_popped_def)

subsection \<open>The requests of the device\<close>

text \<open>Dispatch: whatever the major number is, the six requests of the device have six
  different numbers, the if-else ladder of \<open>cdev_ioctl\<close> runs the handler of the request
  whose number was passed, and any other number is answered with -1 and changes neither the
  module nor user memory.\<close>

theorem ioctl_dispatch:
  assumes "major = lxc_uio_cdev_major_number st"
  shows "distinct [kvm_host_server_register major, kvm_host_server_de_register major,
       kvm_host_server_get_pending_module major, kvm_host_server_get_uuid_size major,
       kvm_host_server_get_init_layout major, kvm_host_server_get_core_layout major] \<and>
    cdev_ioctl sv (kvm_host_server_register major) param m st =
      (case ioctl_register sv param st of (r, st') \<Rightarrow> Ret (r, m, st')) \<and>
    cdev_ioctl sv (kvm_host_server_de_register major) param m st = Ret (0, m, st\<lparr>ks := None\<rparr>) \<and>
    cdev_ioctl sv (kvm_host_server_get_pending_module major) param m st = ioctl_get_pending_module sv param m st \<and>
    cdev_ioctl sv (kvm_host_server_get_uuid_size major) param m st = ioctl_get_uuid_size sv param m st \<and>
    cdev_ioctl sv (kvm_host_server_get_init_layout major) param m st = ioctl_get_layout sv InitLayout param m st \<and>
    cdev_ioctl sv (kvm_host_server_get_core_layout major) param m st = ioctl_get_layout sv CoreLayout param m st \<and>
    (\<forall>num. num \<notin> {kvm_host_server_register major, kvm_host_server_de_register major,
         kvm_host_server_get_pending_module major, kvm_host_server_get_uuid_size major,
         kvm_host_server_get_init_layout major, kvm_host_server_get_core_layout major} \<longrightarrow>
       cdev_ioctl sv num param m st = Ret (-1, m, st))"
  unfolding assms by (simp add: cdev_ioctl_other)

theorem ioctl_dispatch_witness:
  "cdev_ioctl demo_sv 0 4 (\<lambda>_. 0) (demo_proxy [5] 0) = Ret (-1, (\<lambda>_. 0), demo_proxy [5] 0)"
  using ioctl_dispatch [of 240 "demo_proxy [5] 0" demo_sv 4 "\<lambda>_. 0"]
  by (simp add: ioctl_numbers ioc_def)

text \<open>C17. The request for a pending module hands the oldest undelivered identifier to the
  server: it returns 1, the 16 bytes at the given address decode to that identifier, and
  it is no longer pending; with nothing pending it returns 0 and changes nothing.\<close>

theorem get_pending_delivers_oldest:
  assumes "proxy_inv st" and "uaccess_ok sv" and "accessible sv a"
  shows "case pending_uuids st of
      [] \<Rightarrow> cdev_ioctl sv (kvm_host_server_get_pending_module (lxc_uio_cdev_major_number st)) a m st
              = Ret (0, m, st)
    | u # us \<Rightarrow> (\<exists>m' st'.
        cdev_ioctl sv (kvm_host_server_get_pending_module (lxc_uio_cdev_major_number st)) a m st
          = Ret (1, m', st') \<and>
        dec_u128 (umem_read m' a 16) = u \<and> pending_uuids st' = us \<and> proxy_inv st')"
proof (cases "mt_pending (ptable st)")
  case Nil
  with assms(1) show ?thesis by (simp add: pending_uuids_def get_pending_Nil proxy_inv_def)
next
  case (Cons x xs)
  from assms(1) have mt: "mt_inv (ptable st)" by (simp add: proxy_inv_def)
  obtain t1 where t1: "mt_inv t1" "mt_pending t1 = xs" "mt_entries t1 = mt_entries (ptable st)"
      "ioctl_get_pending_module sv a m st =
         Ret (1, umem_write m a (enc_u128 (mt_uuid x)), st\<lparr>ptable := t1\<rparr>)"
    using get_pending_Cons [OF mt Cons accessible_to [OF assms(2,3)]] by auto
  have "umem_read (umem_write m a (enc_u128 (mt_uuid x))) a 16 = enc_u128 (mt_uuid x)"
    using umem_read_write [of "enc_u128 (mt_uuid x)" m a] by simp
  with t1 Cons proxy_inv_pop [OF assms(1) t1(1,3)] show ?thesis
    by (simp add: pending_uuids_def)
qed

theorem get_pending_delivers_oldest_witness:
  "\<exists>m' st'. cdev_ioctl demo_sv (kvm_host_server_get_pending_module 240) 0x1000 (\<lambda>_. 0) (demo_proxy [5, 6] 0)
      = Ret (1, m', st') \<and>
    dec_u128 (umem_read m' 0x1000 16) = 5 \<and> pending_uuids st' = [6] \<and> proxy_inv st'"
  using get_pending_delivers_oldest [of "demo_proxy [5, 6] 0" demo_sv "0x1000" "\<lambda>_. 0"]
  by (simp add: demo_proxy_inv)

text \<open>When the copy to the server fails at the very first delivery, the entry is not
  put back: the request reports the number of bytes left, and the module it was about is
  no longer pending, so no later request returns it.\<close>

theorem first_delivery_fault_loses_entry:
  assumes "proxy_inv st" and "mt_popped (ptable st) = 0" and "pending_uuids st = u # us"
    and "copy_to_user sv m a (enc_u128 u) = (n, m')" and "0 < n"
  shows "\<exists>st'. cdev_ioctl sv (kvm_host_server_get_pending_module (lxc_uio_cdev_major_number st)) a m st
      = Ret (- int n, m', st') \<and> pending_uuids st' = us"
proof -
  from assms(1) have mt: "mt_inv (ptable st)" by (simp add: proxy_inv_def)
  from assms(3) obtain x xs where x: "mt_pending (ptable st) = x # xs" "mt_uuid x = u" "map mt_uuid xs = us"
    by (cases "mt_pending (ptable st)") (auto simp: pending_uuids_def)
  have "table_index (ptable st) = -1"
    using assms(2) mt by (auto simp: mt_popped_def elim: mt_invE)
  moreover have "copy_to_user sv m a (enc_u128 (mt_uuid x)) = (n, m')" using assms(4) x(2) by simp
  note get_pending_Cons [OF mt x(1) this]
  ultimately show ?thesis
    using x(3) assms(5) by (auto simp: pending_uuids_def)
qed

theorem first_delivery_fault_loses_entry_witness:
  "\<exists>st'. cdev_ioctl (demo_sv\<lparr>copy_to_user := (\<lambda>m a bs. (16, m))\<rparr>)
        (kvm_host_server_get_pending_module 240) 0 (\<lambda>_. 0) (demo_proxy [5, 6] 0)
      = Ret (- 16, (\<lambda>_. 0), st') \<and> pending_uuids st' = [6]"
  using first_delivery_fault_loses_entry [of "demo_proxy [5, 6] 0" 5 "[6]"
      "demo_sv\<lparr>copy_to_user := (\<lambda>m a bs. (16, m))\<rparr>" "\<lambda>_. 0" 0 16 "\<lambda>_. 0"]
  by (simp add: demo_proxy_inv mt_popped_def)

text \<open>C28. A request faults for one reason only. On a well-formed state, whatever the number, the
  pointer, the memory and the answers of the kernel are, the only fault a request can end in
  is a bad module pointer, and then it was one of the three requests that look a module up,
  the identifier read is not in the table, and the block that \<open>kmalloc\<close> returned, left
  uninitialised by the lookup, named no module. The other requests never fault.\<close>

theorem ioctl_faults_only_on_unknown:
  assumes "proxy_inv st" and "cdev_ioctl sv num ptr m st = Crash f"
  shows "f = BadPointer \<and>
    (\<exists>bs g. copy_from_user sv m ptr 16 = (0, bs) \<and> mt_find (dec_u128 bs) (ptable st) = None \<and>
       kmalloc_mts sv = Some g \<and> kmodules st (mt_module g) = None) \<and>
    num \<in> {kvm_host_server_get_uuid_size (lxc_uio_cdev_major_number st),
      kvm_host_server_get_init_layout (lxc_uio_cdev_major_number st),
      kvm_host_server_get_core_layout (lxc_uio_cdev_major_number st)}"
  using cdev_ioctl_faults [OF assms] unfolding stray_block_def .

theorem ioctl_faults_only_on_unknown_witness:
  "cdev_ioctl demo_sv (kvm_host_server_get_uuid_size 240) 64 (\<lambda>_. 0) (demo_proxy [5] 0) = Crash BadPointer \<and>
    (\<exists>bs. copy_from_user demo_sv (\<lambda>_. 0) 64 16 = (0, bs) \<and> mt_find (dec_u128 bs) (demo_table [5] 0) = None)"
proof -
  let ?num = "kvm_host_server_get_uuid_size 240" and ?st = "demo_proxy [5] 0"
  have z: "dec_u128 (umem_read (\<lambda>_. 0) 64 16) = 0"
    by (simp add: umem_read_def dec_u128_def le_nat_def upt_rec)
  have inv: "proxy_inv ?st" by (simp add: demo_proxy_inv)
  then have mt: "mt_inv (ptable ?st)" by (simp add: proxy_inv_def)
  have none: "mt_find 0 (ptable ?st) = None"
    by (simp add: demo_proxy_inv mt_find_def demo_entry_def)
  have major: "240 = lxc_uio_cdev_major_number ?st" by (simp add: demo_proxy_def)
  have bad: "mod_deref ?st 0 = Crash BadPointer" by (simp add: mod_deref_def demo_proxy_def)
  have crash: "cdev_ioctl demo_sv ?num 64 (\<lambda>_. 0) ?st = Crash BadPointer"
    unfolding major cdev_ioctl_get_uuid_size
    using get_copy_cases [OF mt, of _ 0] none z bad by (simp add: ioctl_get_uuid_size_def demo_sv_def)
  from ioctl_faults_only_on_unknown [OF inv crash] crash show ?thesis by (auto simp: demo_proxy_def [of "[5]" 0])
qed

text \<open>The layout request is a round trip: the server writes an identifier into its
  buffer, the device finds the module and writes the chosen layout over it, and the
  structure the server reads back is the layout of the module. The proxy does not
  change.\<close>

theorem layout_request_roundtrip:
  assumes "knows (wproxy w) u md" and "uaccess_ok sv" and "accessible sv buf"
    and "kmalloc_mts sv \<noteq> None" and "wmajor w = lxc_uio_cdev_major_number (wproxy w)" and "buf \<noteq> 0"
  shows "\<exists>w'. get_uuid_layout sv buf u (layout_number which (wmajor w)) w = Ret (buf, w') \<and>
    layout_at w' buf = sel_layout which md \<and> wproxy w' = wproxy w \<and> wentries w' = wentries w"
proof -
  obtain m' where "get_uuid_layout sv buf u (layout_number which (wmajor w)) w =
       Ret (buf, (set_errno 0 w)\<lparr>wmem := m'\<rparr>)"
    "layout_at ((set_errno 0 w)\<lparr>wmem := m'\<rparr>) buf = sel_layout which md"
    by (rule get_uuid_layout_ok [OF assms])
  then show ?thesis by simp
qed

theorem layout_request_roundtrip_witness:
  "\<exists>w'. get_uuid_layout demo_sv 64 6 (layout_number CoreLayout 240) (demo_world [5, 6] 0 []) = Ret (64, w') \<and>
    layout_at w' 64 = mod_core_layout demo_module \<and> wproxy w' = demo_proxy [5, 6] 0 \<and> wentries w' = []"
  using layout_request_roundtrip [of "demo_world [5, 6] 0 []" 6 demo_module demo_sv 64 CoreLayout]
  by (simp add: demo_knows sel_layout_def)

text \<open>The size request returns the sum of the two sizes of the module, modulo two to the
  32: the handler adds two unsigned ints, so the sum wraps around.\<close>

theorem uuid_size_request:
  assumes "knows (wproxy w) u md" and "uaccess_ok sv" and "accessible sv adr"
    and "kmalloc_mts sv \<noteq> None" and "wmajor w = lxc_uio_cdev_major_number (wproxy w)"
  shows "\<exists>sz w'. get_uuid_size sv adr u w = Ret (sz, w') \<and> errno (wtable w') = 0 \<and>
    unat sz = (unat (ml_size (mod_core_layout md)) + unat (ml_size (mod_init_layout md))) mod 2 ^ 32"
proof -
  let ?m = "umem_write (wmem w) adr (enc_u128 u)"
  let ?sz = "ml_size (mod_core_layout md) + ml_size (mod_init_layout md)"
  from assms(1) obtain x where x: "proxy_inv (wproxy w)" "mt_find u (ptable (wproxy w)) = Some x"
      "kmodules (wproxy w) (mt_module x) = Some md"
    by (auto simp: knows_def)
  from assms(4) obtain g where g: "kmalloc_mts sv = Some g" by blast
  have rd: "copy_from_user sv ?m adr 16 = (0, enc_u128 u)"
    using accessible_from [OF assms(2,3), of ?m 16] umem_read_write [of "enc_u128 u" "wmem w" adr]
    by simp
  have "ioctl_get_uuid_size sv adr ?m (wproxy w) = Ret (0, umem_write ?m adr (enc_u32 ?sz), wproxy w)"
    by (rule get_uuid_size_ok [OF x(1) assms(2) g rd x(2,3) refl accessible_to [OF assms(2,3)]])
  moreover have "dec_u32 (umem_read (umem_write ?m adr (enc_u32 ?sz)) adr 4) = ?sz"
    using umem_read_write [of "enc_u32 ?sz" ?m adr] by simp
  ultimately show ?thesis
    using assms(5) by (simp add: get_uuid_size_def dev_ioctl_def set_errno_def unat_word_ariths)
qed

theorem uuid_size_request_witness:
  "\<exists>sz w'. get_uuid_size demo_sv 64 6 (demo_world [5, 6] 0 []) = Ret (sz, w') \<and>
     errno (wtable w') = 0 \<and> unat sz = 8"
  using uuid_size_request [of "demo_world [5, 6] 0 []" 6 demo_module demo_sv 64]
  by (simp add: demo_knows) (simp add: demo_module_def demo_layout_def)

text \<open>C29. The request for a pending module reads the popped entry after it has left the lock.
  If modules are inserted in between, it still reads the entry it popped as long as the
  table is where it was; if an insertion made the table grow into another block, it reads
  freed memory. In both cases the other pending entries and the new ones stay pending, in
  order.\<close>

theorem pending_read_race:
  assumes "mt_inv (lt_table s)" and "mt_pending (lt_table s) = x # xs"
    and "locked_pop s = (p, s1)" and "puts_ok locked_put lt_put_ok exs s1"
  shows "\<exists>s2. run_puts locked_put exs s1 = Ret s2 \<and> mt_inv (lt_table s2) \<and>
    mt_pending (lt_table s2) = xs @ map snd exs \<and>
    unlocked_read s2 p = (if lt_base s2 = lt_base s then Ret x else Crash UseAfterFree)"
proof -
  obtain s2 where "run_puts locked_put exs s1 = Ret s2" "mt_inv (lt_table s2)"
    "mt_pending (lt_table s2) = xs @ map snd exs"
    "unlocked_read s2 p = (if lt_base s2 = lt_base s then Ret x else Crash UseAfterFree)"
    by (rule read_after_puts [OF assms])
  then show ?thesis by blast
qed

theorem pending_read_race_witness:
  "\<exists>p s1 s2. locked_pop \<lparr>lt_table = demo_table (replicate 256 5) 255, lt_base = 4096\<rparr> = (p, s1) \<and>
     run_puts locked_put [((Some (\<lambda>_. demo_entry 5), 8192), demo_entry 6)] s1 = Ret s2 \<and>
     mt_pending (lt_table s2) = [demo_entry 6] \<and> unlocked_read s2 p = Crash UseAfterFree"
proof -
  let ?t = "demo_table (replicate 256 5) 255" and ?exs = "[((Some (\<lambda>_. demo_entry 5), 8192), demo_entry 6)]"
  let ?s = "\<lparr>lt_table = ?t, lt_base = 4096\<rparr>"
  have inv: "mt_inv (lt_table ?s)" by (simp add: demo_table_inv)
  have pend: "mt_pending (lt_table ?s) = [demo_entry 5]" by simp
  let ?s1 = "\<lparr>lt_table = ?t\<lparr>table_index := 255\<rparr>, lt_base = 4096\<rparr>"
  have pop: "locked_pop ?s = (Some (4096, 255), ?s1)"
    by (simp add: locked_pop_def table_pop_def mt_addr_def)
  have keep: "mt_put_ok (Some (\<lambda>_. demo_entry 5)) (?t\<lparr>table_index := 255\<rparr>)"
    by (simp add: mt_put_ok_def krealloc_keeps_def) (simp add: demo_table_def)
  have base: "locked_put (Some (\<lambda>_. demo_entry 5), 8192) (demo_entry 6) ?s1 = Ret (r, s2) \<Longrightarrow> lt_base s2 = 8192" for r s2
    by (auto simp: locked_put_def exec_bind_eq_Ret_iff) (simp_all add: demo_table_def)
  obtain s2 where put: "locked_put (Some (\<lambda>_. demo_entry 5), 8192) (demo_entry 6) ?s1 = Ret (0, s2)"
    using ltq.put_append [of ?s1 "(Some (\<lambda>_. demo_entry 5), 8192)" "demo_entry 6"] keep demo_table_inv [of 256 "replicate 256 5"]
    by (auto simp: lt_put_ok_def demo_table_def)
  then have "puts_ok locked_put lt_put_ok ?exs ?s1" using keep by (simp add: lt_put_ok_def)
  from pending_read_race [OF inv pend pop this] put base [OF put] pop show ?thesis by auto
qed

subsection \<open>Packets\<close>

text \<open>A packet is 304 bytes, and the structure the module copies in from those bytes
  is the one the server wrote.\<close>

theorem packet_roundtrip:
  assumes "vm_memory_ok (pk_memory p)"
  shows "length (enc_packet p) = 304 \<and> dec_packet (enc_packet p) = p"
  using assms length_enc_packet [of p] by (simp add: dec_enc_packet sizeof_packet_def)

theorem packet_roundtrip_witness:
  "length (enc_packet \<lparr>pk_uuid = 5, pk_memory = demo_memory\<rparr>) = 304 \<and>
   dec_packet (enc_packet \<lparr>pk_uuid = 5, pk_memory = demo_memory\<rparr>) = \<lparr>pk_uuid = 5, pk_memory = demo_memory\<rparr>"
  using packet_roundtrip [of "\<lparr>pk_uuid = 5, pk_memory = demo_memory\<rparr>"] by simp

text \<open>C18. Writing a packet that is readable at the given address for a known module copies the
  core area of that module, all of it and nothing else, to the address the packet names
  for the core region, and returns 304 for every \<open>count\<close> (a smaller \<open>count\<close> included).
  When the destination faults the write returns -1.\<close>

theorem write_copies_core:
  assumes "knows st (pk_uuid p) md" and "uaccess_ok sv" and "kmalloc_mts sv \<noteq> None"
    and "copy_from_user sv m buff sizeof_packet = (0, enc_packet p)" and "vm_memory_ok (pk_memory p)"
    and "copy_to_user sv m (userspace_addr (region_core (pk_memory p))) (core_bytes st md) = (n, m')"
  shows "cdev_write sv buff cnt m st =
    (if n = 0 then Ret (304, umem_write m (userspace_addr (region_core (pk_memory p))) (core_bytes st md))
     else Ret (-1, m'))"
proof -
  from assms(1) obtain x where x: "proxy_inv st" "mt_find (pk_uuid p) (ptable st) = Some x"
      "kmodules st (mt_module x) = Some md"
    by (auto simp: knows_def)
  from assms(3) obtain g where g: "kmalloc_mts sv = Some g" by blast
  have "dec_packet (enc_packet p) = p" using assms(5) by (simp add: dec_enc_packet)
  with process_packet_ok [OF x(1) assms(2) g x(2,3) core_bytes_def assms(6)] assms(4)
  show ?thesis by (auto simp: cdev_write_def sizeof_packet_def)
qed

theorem write_copies_core_witness:
  "cdev_write demo_sv 64 1 (umem_write (\<lambda>_. 0) 64 (enc_packet \<lparr>pk_uuid = 5, pk_memory = demo_memory\<rparr>))
      (demo_proxy [5] 0) =
    Ret (304, umem_write (umem_write (\<lambda>_. 0) 64 (enc_packet \<lparr>pk_uuid = 5, pk_memory = demo_memory\<rparr>))
      9 (core_bytes (demo_proxy [5] 0) demo_module))"
proof -
  let ?p = "\<lparr>pk_uuid = 5, pk_memory = demo_memory\<rparr>"
  let ?m = "umem_write (\<lambda>_. 0) 64 (enc_packet ?p)"
  have len: "length (enc_packet ?p) = sizeof_packet" by (simp add: length_enc_packet)
  have rd: "copy_from_user demo_sv ?m 64 sizeof_packet = (0, enc_packet ?p)"
    using umem_read_write [of "enc_packet ?p" "\<lambda>_. 0" 64] len
    by (simp add: demo_sv_def sizeof_packet_def)
  have a: "userspace_addr (region_core (pk_memory ?p)) = 9"
    by (simp add: demo_memory_def demo_region_def)
  show ?thesis
    using write_copies_core [of "demo_proxy [5] 0" ?p demo_module demo_sv ?m 64 0
        "umem_write ?m 9 (core_bytes (demo_proxy [5] 0) demo_module)" 1] rd a
    by (simp add: demo_knows accessible_to)
qed

subsection \<open>Insertion and notification\<close>

text \<open>Inserting a live module returns 0, makes its identifier the last pending one, keeps
  the proxy well-formed and everything but the table and the event files as it was, and
  signals the event file of the server exactly once if a server is registered, and no
  event file otherwise.\<close>

theorem put_module_notifies_once:
  assumes "proxy_inv st" and "kmodules st md = Some km" and "module_ok km"
    and "mt_put_ok (krealloc_mt sv) (ptable st)" and "server_live sv st"
  shows "\<exists>t1. lxc_uio_proxy_put_module_1 sv u ns md st =
      Ret (0, st\<lparr>ptable := t1, efds := signalled sv st\<rparr>) \<and>
    proxy_inv (st\<lparr>ptable := t1, efds := signalled sv st\<rparr>) \<and>
    pending_uuids (st\<lparr>ptable := t1, efds := signalled sv st\<rparr>) = pending_uuids st @ [u]"
proof -
  let ?e = "\<lparr>mt_uuid = u, mt_nsproxy = ns, mt_module = md\<rparr>"
  obtain t1 where t1: "lxc_uio_proxy_put_module_1 sv u ns md st =
      Ret (0, st\<lparr>ptable := t1, efds := signalled sv st\<rparr>)"
    "mt_inv t1" "mt_entries t1 = mt_entries (ptable st) @ [?e]"
    "mt_pending t1 = mt_pending (ptable st) @ [?e]"
    by (rule put_module_returns [OF assms])
  then show ?thesis
    using assms(1,2,3) by (intro exI [of _ t1]) (simp add: proxy_inv_def pending_uuids_def entry_live_def)
qed

theorem put_module_notifies_once_witness:
  "\<exists>t1. lxc_uio_proxy_put_module_1 demo_sv 9 0 64 (demo_server [5] 1) =
      Ret (0, (demo_server [5] 1)\<lparr>ptable := t1, efds := (\<lambda>_. 0)(1 := 1)\<rparr>) \<and>
    proxy_inv ((demo_server [5] 1)\<lparr>ptable := t1, efds := (\<lambda>_. 0)(1 := 1)\<rparr>) \<and>
    pending_uuids ((demo_server [5] 1)\<lparr>ptable := t1, efds := (\<lambda>_. 0)(1 := 1)\<rparr>) = [9]"
  using put_module_notifies_once [of "demo_server [5] 1" 64 demo_module demo_sv 9 0]
  by (simp add: demo_server_simps)

text \<open>C36. A registration that fails because the descriptor is negative or not open reports -1
  but leaves a server structure behind whose file pointer was never assigned. The next
  insertion hands that pointer to \<open>eventfd_ctx_fileget\<close>, and faults when it does.\<close>

theorem failed_registration_breaks_insertion:
  assumes "proxy_inv st" and "kmalloc_ks sv = Some blk"
    and "sint (ucast param :: u32) < 0 \<or> fcheck sv (sint (ucast param :: u32)) = 0"
    and "kmodules st md = Some km" and "mt_put_ok (krealloc_mt sv) (ptable st)"
    and "eventfd_ctx_fileget sv (ks_fp blk) = Crash f"
  shows "\<exists>st'. cdev_ioctl sv (kvm_host_server_register (lxc_uio_cdev_major_number st)) param m st =
      Ret (-1, m, st') \<and> ks st' \<noteq> None \<and>
    lxc_uio_proxy_put_module_1 sv u ns md st' = Crash f"
proof -
  let ?st' = "st\<lparr>ks := Some (blk\<lparr>ks_pid := current_pid sv\<rparr>)\<rparr>"
  let ?e = "\<lparr>mt_uuid = u, mt_nsproxy = ns, mt_module = md\<rparr>"
  have reg: "ioctl_register sv param st = (-1, ?st')"
    using assms(2,3) by (auto simp: ioctl_register_def Let_def)
  from assms(1) have "mt_inv (ptable st)" by (simp add: proxy_inv_def)
  from mt_pending_put [OF this assms(5)] obtain t1 where
    t1: "Module_Table.table_put (krealloc_mt sv) ?e (ptable st) = Ret (0, t1)" "mt_inv t1"
      "mt_pending t1 = mt_pending (ptable st) @ [?e]"
    by blast
  have "table_peek t1 \<noteq> MtNull" using t1(2,3) by (simp add: table_peek_null_iff)
  then have "lxc_uio_proxy_put_module_1 sv u ns md ?st' = Crash f"
    using t1(1) assms(4,6) by (simp add: lxc_uio_proxy_put_module_1_def mod_deref_def send_event_def)
  with reg show ?thesis by simp
qed

theorem failed_registration_breaks_insertion_witness:
  "\<exists>st'. cdev_ioctl demo_sv (kvm_host_server_register 240) 3 (\<lambda>_. 0) (demo_proxy [5] 0) =
      Ret (-1, (\<lambda>_. 0), st') \<and> ks st' \<noteq> None \<and>
    lxc_uio_proxy_put_module_1 demo_sv 9 0 64 st' = Crash BadPointer"
  using failed_registration_breaks_insertion [of "demo_proxy [5] 0" demo_sv "\<lparr>ks_pid = 0, ks_fp = 7\<rparr>" 3
      64 demo_module BadPointer "\<lambda>_. 0" 9 0]
  by (simp add: demo_proxy_inv mt_put_ok_def) (simp add: demo_sv_def)

subsection \<open>Whole runs\<close>



end
