(* ===== verification/Guest_Program.thy ===== *)
theory Guest_Program
  imports Host_Server
begin

text \<open>
  The sample module \<open>src/asm-module/kernel_module_hello_world2/hello_world2.c\<close>, the code
  that runs as a guest: the instructions of its inline assembly, executed on the registers
  they use. An \<open>out\<close> and a \<open>hlt\<close> leave the guest; \<open>guest_exits\<close> lists the exits the
  server's run loop sees. At the end, the switch of \<open>debug.h\<close> for single-stepping a guest.
\<close>

datatype insn = MovDx "16 word" | AddBlAl | AddAl u8 | MovAl u8 | OutAlDx | Hlt

record gregs =
  reg_al :: u8
  reg_bl :: u8
  reg_dx :: "16 word"

text \<open>The low bytes of the registers the server set up.\<close>

definition guest_start :: "kvm_regs \<Rightarrow> gregs" where
  "guest_start r = \<lparr>reg_al = ucast (rax r), reg_bl = ucast (rbx r), reg_dx = 0\<rparr>"

fun guest_exits :: "insn list \<Rightarrow> gregs \<Rightarrow> (int \<times> kvm_exit) list" where
  "guest_exits [] g = []"
| "guest_exits (MovDx v # is) g = guest_exits is (g\<lparr>reg_dx := v\<rparr>)"
| "guest_exits (AddBlAl # is) g = guest_exits is (g\<lparr>reg_al := reg_al g + reg_bl g\<rparr>)"
| "guest_exits (AddAl v # is) g = guest_exits is (g\<lparr>reg_al := reg_al g + v\<rparr>)"
| "guest_exits (MovAl v # is) g = guest_exits is (g\<lparr>reg_al := v\<rparr>)"
| "guest_exits (OutAlDx # is) g = (0, ExitIo True 1 (ucast (reg_dx g)) 1 (reg_al g)) # guest_exits is g"
| "guest_exits (Hlt # is) g = [(0, ExitHlt)]"

text \<open>The assembly of the function \<open>start\<close>.\<close>

definition hello_world2_start :: "insn list" where
  "hello_world2_start = [MovDx 0x3f8, AddBlAl, AddAl 0x30, OutAlDx, MovAl 0x0a, OutAlDx, Hlt]"

lemma hello_world2_exits:
  "guest_exits hello_world2_start (guest_start r) =
     [(0, ExitIo True 1 0x3f8 1 (ucast (rax r) + ucast (rbx r) + 0x30)),
      (0, ExitIo True 1 0x3f8 1 0x0a)] @ [(0, ExitHlt)]"
  by (simp add: hello_world2_start_def guest_start_def)

subsection \<open>Guest debugging (debug.h)\<close>

text \<open>\<open>set_debug\<close> is the request \<open>KVM_SET_GUEST_DEBUG\<close> on a virtual CPU with a value of the
  field \<open>control\<close>; \<open>kvm_enable\<close> and \<open>kvm_singlestep\<close> are the two flags of KVM.\<close>

definition enable_debug :: "u32 \<Rightarrow> u32 \<Rightarrow> (int \<Rightarrow> u32 \<Rightarrow> int) \<Rightarrow> int \<Rightarrow> bool \<Rightarrow> int" where
  "enable_debug kvm_enable kvm_singlestep set_debug fd enable =
     (let control = (if enable then (0 OR kvm_enable) OR kvm_singlestep else 0);
          ret_val = set_debug fd control
      in if ret_val < 0 then -1 else 0)"

lemma enable_debug_result:
  "enable_debug e s set_debug fd enable \<in> {0, -1} \<and>
   (enable_debug e s set_debug fd True = 0 \<longleftrightarrow> 0 \<le> set_debug fd (e OR s)) \<and>
   (enable_debug e s set_debug fd False = 0 \<longleftrightarrow> 0 \<le> set_debug fd 0)"
  by (simp add: enable_debug_def Let_def linorder_not_less)

end
