(* ===== verification/Module_Lifecycle.thy ===== *)
theory Module_Lifecycle
  imports Proxy_Runs
begin

text \<open>
  Loading and unloading the proxy module: \<open>create_chardev\<close> and \<open>remove_chardev\<close>
  (\<open>cdev.c\<close>), \<open>start\<close> and \<open>end\<close> (\<open>lxc-uio-proxy.c\<close>). What the kernel holds
  for the module is a set of resources; each call that acquires or releases one is
  written out; that the table's block was freed is recorded there, not in the dangling
  pointer. The lemmas say which resources every exit of \<open>start\<close> leaves behind and
  that a successful \<open>start\<close> establishes the invariant of the proxy.
\<close>

datatype kres = ChrdevRegion | DevClass | Device | CdevObject | ProcFile | TableBlock

text \<open>What the function pointer \<open>lxc_uio_proxy_put_module\<close> of the kernel points to, when it
  is not NULL: this module's \<open>lxc_uio_proxy_put_module_1\<close>, or something else.\<close>

datatype put_hook = Put_module_1 | Foreign_hook

record 'e lxmod =
  lx_proxy :: "'e proxy"
  lx_put_module :: "put_hook option"
  lx_held :: "kres set"

definition acquire :: "kres \<Rightarrow> 'e lxmod \<Rightarrow> 'e lxmod" where
  "acquire r s = s\<lparr>lx_held := insert r (lx_held s)\<rparr>"

definition release :: "kres \<Rightarrow> 'e lxmod \<Rightarrow> 'e lxmod" where
  "release r s = s\<lparr>lx_held := lx_held s - {r}\<rparr>"

text \<open>The answers of the kernel: a negative number from \<open>alloc_chrdev_region\<close> and
  \<open>cdev_add\<close> is an error; \<open>class_create\<close> and \<open>device_create\<close> answer with an error
  pointer (\<open>Some\<close> its code) or not.\<close>

record load_env =
  le_kmalloc :: "(nat \<Rightarrow> module_table_struct) option"
  le_symbol :: bool
  le_region :: int
  le_major :: int
  le_class :: "int option"
  le_device :: "int option"
  le_cdev :: bool
  le_cdev_add :: int
  le_proc :: bool

definition create_chardev :: "load_env \<Rightarrow> 'e lxmod \<Rightarrow> int \<times> 'e lxmod" where
  "create_chardev env s =
     (if le_region env < 0 then (le_region env, s)
      else let s1 = acquire ChrdevRegion s in
      case le_class env of
        Some e \<Rightarrow> (e, release ChrdevRegion s1)
      | None \<Rightarrow>
      let s2 = acquire DevClass s1 in
      case le_device env of
        Some e \<Rightarrow> (e, release ChrdevRegion (release DevClass s2))
      | None \<Rightarrow>
      let s3 = acquire Device s2 in
      if \<not> le_cdev env then (-1, release ChrdevRegion (release DevClass (release Device s3)))
      else let s4 = acquire CdevObject s3 in
      if le_cdev_add env < 0 then (-1, release ChrdevRegion (release DevClass (release Device s4)))
      else (0, s4\<lparr>lx_proxy := (lx_proxy s4)\<lparr>lxc_uio_cdev_major_number := le_major env\<rparr>\<rparr>))"

definition remove_chardev :: "'e lxmod \<Rightarrow> int \<times> 'e lxmod" where
  "remove_chardev s = (0, release ChrdevRegion (release DevClass (release Device s)))"

definition load_table :: "load_env \<Rightarrow> 'e lxmod \<Rightarrow> int \<times> 'e lxmod" where
  "load_table env s =
     (case table_init (le_kmalloc env) (ptable (lx_proxy s)) of (ret, t) \<Rightarrow>
        (ret, (if ret = 0 then acquire TableBlock else id) (s\<lparr>lx_proxy := (lx_proxy s)\<lparr>ptable := t\<rparr>\<rparr>)))"

definition start :: "load_env \<Rightarrow> 'e lxmod \<Rightarrow> int \<times> 'e lxmod" where
  "start env s =
     (case load_table env s of (ret, s1) \<Rightarrow>
      if ret < 0 then (-1, s1)
      else if \<not> le_symbol env then (-1, release TableBlock s1)
      else if lx_put_module s1 \<noteq> None then (-1, release TableBlock s1)
      else let s2 = s1\<lparr>lx_put_module := Some Put_module_1\<rparr> in
      case create_chardev env s2 of (ret, s3) \<Rightarrow>
      if ret < 0 then (-1, release TableBlock (s3\<lparr>lx_put_module := None\<rparr>))
      else if \<not> le_proc env then
        (- ENOMEM, release TableBlock ((snd (remove_chardev s3))\<lparr>lx_put_module := None\<rparr>))
      else (0, acquire ProcFile s3))"

text \<open>\<open>end\<close>, the exit function (with \<open>debug_on\<close>).\<close>

definition end_module :: "'e lxmod \<Rightarrow> 'e lxmod" where
  "end_module s =
     release ProcFile (release TableBlock ((snd (remove_chardev s))\<lparr>lx_put_module := None\<rparr>))"

lemmas lifecycle_defs =
  acquire_def release_def create_chardev_def remove_chardev_def load_table_def start_def end_module_def

subsection \<open>Resources\<close>

lemma acquire_release_simps [simp]:
  "lx_held (acquire r s) = insert r (lx_held s)" "lx_held (release r s) = lx_held s - {r}"
  "lx_proxy (acquire r s) = lx_proxy s" "lx_proxy (release r s) = lx_proxy s"
  "lx_put_module (acquire r s) = lx_put_module s" "lx_put_module (release r s) = lx_put_module s"
  by (simp_all add: acquire_def release_def)

text \<open>A module that is not loaded: no resource, an unset pointer, the static initialisers.\<close>

definition fresh_module :: "'e lxmod \<Rightarrow> bool" where
  "fresh_module s \<longleftrightarrow> lx_held s = {} \<and> lx_put_module s = None \<and> ptable (lx_proxy s) = mtable_init"

text \<open>Error codes of the kernel are negative.\<close>

definition load_env_sane :: "load_env \<Rightarrow> bool" where
  "load_env_sane env \<longleftrightarrow>
     (\<forall>e. le_class env = Some e \<longrightarrow> e < 0) \<and> (\<forall>e. le_device env = Some e \<longrightarrow> e < 0)"

lemma kres_UNIV: "UNIV = {ChrdevRegion, DevClass, Device, CdevObject, ProcFile, TableBlock}"
proof (intro equalityI subsetI)
  fix x :: kres
  show "x \<in> {ChrdevRegion, DevClass, Device, CdevObject, ProcFile, TableBlock}" by (cases x) simp_all
qed simp

lemma create_chardev_resources:
  assumes "load_env_sane env" and "create_chardev env s = (r, s')"
    and "lx_held s \<inter> {ChrdevRegion, DevClass, Device, CdevObject} = {}"
  shows "if r < 0 then lx_held s' = lx_held s \<union> {x. x = CdevObject \<and> 0 \<le> le_region env \<and>
             le_class env = None \<and> le_device env = None \<and> le_cdev env} \<and>
             lx_put_module s' = lx_put_module s \<and> lx_proxy s' = lx_proxy s
    else r = 0 \<and> lx_held s' = lx_held s \<union> {ChrdevRegion, DevClass, Device, CdevObject} \<and>
         lx_put_module s' = lx_put_module s \<and>
         lx_proxy s' = (lx_proxy s)\<lparr>lxc_uio_cdev_major_number := le_major env\<rparr>"
  using assms
  by (auto simp: create_chardev_def load_env_sane_def Let_def split: if_splits option.splits)

lemma load_table_fresh:
  assumes "ptable (lx_proxy s) = mtable_init" and "load_table env s = (r, s1)"
  shows "if r < 0 then lx_held s1 = lx_held s \<and> lx_put_module s1 = lx_put_module s \<and> r = -1
    else r = 0 \<and> lx_held s1 = insert TableBlock (lx_held s) \<and> lx_put_module s1 = lx_put_module s \<and>
         (\<exists>t. lx_proxy s1 = (lx_proxy s)\<lparr>ptable := t\<rparr> \<and> mt_inv t \<and> mt_entries t = [] \<and> table_index t = -1)"
proof (cases "le_kmalloc env")
  case None
  with assms show ?thesis by (auto simp: load_table_def table_init_def mtable_init_def)
next
  case (Some c)
  let ?t = "mtable_init\<lparr>module_table := Some \<lparr>blk_cap = 256, blk_slot = c\<rparr>\<rparr>"
  have "table_init (Some c) mtable_init = (0, ?t)"
    by (simp add: table_init_def mtable_init_def)
  with assms Some have "r = 0" "s1 = acquire TableBlock (s\<lparr>lx_proxy := (lx_proxy s)\<lparr>ptable := ?t\<rparr>\<rparr>)"
    by (simp_all add: load_table_def)
  then show ?thesis
    by simp (intro exI [of _ ?t], simp add: mt_inv_def mt_entries_def mtable_init_def)
qed

text \<open>Every failing \<open>start\<close> gives back everything but possibly the \<open>cdev\<close> object.\<close>

lemma start_resources:
  assumes f: "fresh_module s" and env: "load_env_sane env" and r: "start env s = (r, s')"
  shows "if r < 0 then lx_held s' \<subseteq> {CdevObject} \<and> lx_put_module s' = None
    else r = 0 \<and> lx_held s' = UNIV \<and> lx_put_module s' = Some Put_module_1 \<and>
      (\<exists>t. lx_proxy s' = (lx_proxy s)\<lparr>ptable := t, lxc_uio_cdev_major_number := le_major env\<rparr> \<and>
         mt_inv t \<and> mt_entries t = [])"
proof -
  from f have held: "lx_held s = {}" and hook: "lx_put_module s = None" and tab: "ptable (lx_proxy s) = mtable_init"
    by (simp_all add: fresh_module_def)
  obtain r1 s1 where lt: "load_table env s = (r1, s1)" by fastforce
  note t = load_table_fresh [OF tab lt]
  obtain r3 s3 where cc: "create_chardev env (s1\<lparr>lx_put_module := Some Put_module_1\<rparr>) = (r3, s3)" by fastforce
  show ?thesis
  proof (cases "r1 < 0")
    case True
    with r lt t held hook show ?thesis by (auto simp: start_def split: if_splits)
  next
    case False
    with t held have "lx_held (s1\<lparr>lx_put_module := Some Put_module_1\<rparr>) \<inter>
        {ChrdevRegion, DevClass, Device, CdevObject} = {}"
      by auto
    note c = create_chardev_resources [OF env cc this]
    show ?thesis
      using r lt cc c t False held hook unfolding kres_UNIV
      by (auto simp: start_def remove_chardev_def ENOMEM_def Let_def split: if_splits)
  qed
qed

lemma start_proxy_inv:
  assumes "fresh_module s" and "load_env_sane env" and "start env s = (0, s')"
  shows "proxy_inv (lx_proxy s') \<and> pending_uuids (lx_proxy s') = [] \<and>
    lxc_uio_cdev_major_number (lx_proxy s') = le_major env"
  using start_resources [OF assms] by (auto simp: proxy_inv_def pending_uuids_def mt_pending_def)

lemma end_module_resources:
  assumes "lx_held s = UNIV"
  shows "lx_held (end_module s) = {CdevObject} \<and> lx_put_module (end_module s) = None"
  using assms unfolding kres_UNIV by (auto simp: end_module_def remove_chardev_def)

end
