(* ===== verification/Release_Build.thy ===== *)
theory Release_Build
  imports Host_Memory Module_Lifecycle
begin

text \<open>
  The program compiled without \<open>debug_on\<close>. Most of what the macro guards is output; three
  functions also behave differently: \<open>initialize_memory_uuid\<close> stops at the first entry that
  carries the identifier instead of scanning on for a second one, the insertion of a module
  does not follow the module pointer, and \<open>end\<close> does not remove the proc file. The lemmas
  compare the two builds.
\<close>

subsection \<open>The three functions\<close>

primrec release_scan ::
    "'e init_env \<Rightarrow> u128 \<Rightarrow> nat list \<Rightarrow> 'e world \<Rightarrow> (int \<times> 'e world) exec" where
  "release_scan env u [] w = Ret (-1, w)"
| "release_scan env u (i # is) w =
     exec_bind (ut_read (wtable w) (int i)) (\<lambda>e.
       if uuid e = u then
         exec_bind (init_entry env u (int i) w) (\<lambda>(fl, w').
           case fl of Goto r \<Rightarrow> Ret (r, w') | Next r \<Rightarrow> Ret (r, w'))
       else release_scan env u is w)"

definition initialize_memory_uuid_release ::
    "'e init_env \<Rightarrow> u128 \<Rightarrow> 'e world \<Rightarrow> (int \<times> 'e world) exec" where
  "initialize_memory_uuid_release env u w =
     release_scan env u [0..<nat (ut_num_entries (wtable w))] w"

definition lxc_uio_proxy_put_module_1_release ::
    "'e kservices \<Rightarrow> u128 \<Rightarrow> u64 \<Rightarrow> u64 \<Rightarrow> 'e proxy \<Rightarrow> (int \<times> 'e proxy) exec" where
  "lxc_uio_proxy_put_module_1_release sv u nsp module st =
     exec_bind (Module_Table.table_put (krealloc_mt sv)
         \<lparr>mt_uuid = u, mt_nsproxy = nsp, mt_module = module\<rparr> (ptable st)) (\<lambda>(ret_val, t1).
       if ret_val = 0 then
         exec_bind (send_event sv (st\<lparr>ptable := t1\<rparr>)) (\<lambda>(_, st'). Ret (ret_val, st'))
       else Ret (ret_val, st\<lparr>ptable := t1\<rparr>))"

definition end_module_release :: "'e lxmod \<Rightarrow> 'e lxmod" where
  "end_module_release s = release TableBlock ((snd (remove_chardev s))\<lparr>lx_put_module := None\<rparr>)"

subsection \<open>Comparison\<close>

lemma release_scan_skip:
  assumes "winv w" and "\<forall>j\<in>set js. j < length (wentries w) \<and> uuid (wentries w ! j) \<noteq> u"
  shows "release_scan env u (js @ is) w = release_scan env u is w"
  using assms by (induction js) (simp_all add: read_entry)

lemma mem_only_uuid: "mem_only i w w' \<Longrightarrow> uuid (wentries w' ! k) = uuid (wentries w ! k)"
  by (cases "i < length (wentries w)") (auto simp: mem_only_def nth_list_update list_update_beyond)

text \<open>Without duplicates, what the debug build still scans after a match finds nothing.\<close>

lemma debug_scan_unique:
  assumes w: "winv w" and ok: "\<forall>j\<in>set js. j < length (wentries w)"
    and dist: "distinct (map uuid (wentries w))" "distinct js"
  shows "init_scan env u False 0 js w = release_scan env u js w"
  using ok dist(2)
proof (induction js)
  case Nil
  then show ?case by simp
next
  case (Cons i js)
  then have i: "i < length (wentries w)" by simp
  show ?case
  proof (cases "uuid (wentries w ! i) = u")
    case False
    with Cons i show ?thesis by (simp add: read_entry [OF w])
  next
    case True
    have other: "uuid (wentries w ! j) \<noteq> u" if "j \<in> set js" for j
      using that Cons.prems True nth_eq_iff_index_eq [OF dist(1), of j i] by auto
    have "init_scan env u True r js w' = Ret (r, w')" if e: "init_entry env u (int i) w = Ret (Next r, w')" for r w'
    proof -
      have m: "mem_only i w w'" by (rule init_entry_mem_only [OF w i e])
      then have "winv w'" "\<forall>j\<in>set js. j < length (wentries w') \<and> uuid (wentries w' ! j) \<noteq> u"
        using other Cons.prems by (simp_all add: mem_only_uuid [OF m] mem_only_length [OF m]) (simp add: mem_only_def)
      from init_scan_skip [OF this, of env True r "[]"] show ?thesis by simp
    qed
    then show ?thesis
      using True i by (cases "init_entry env u (int i) w") (auto simp: read_entry [OF w] split: flow.split)
  qed
qed

lemma initialize_memory_release_eq:
  assumes "winv w" and "distinct (map uuid (wentries w))"
  shows "initialize_memory_uuid_release env u w = initialize_memory_uuid env u w"
proof -
  have "nat (ut_num_entries (wtable w)) = length (wentries w)"
    using assms(1) by (simp add: winv_def wentries_def length_ut_entries)
  then show ?thesis
    using debug_scan_unique [OF assms(1) _ assms(2), of "[0..<length (wentries w)]" env u]
    by (simp add: initialize_memory_uuid_def initialize_memory_uuid_release_def)
qed

text \<open>With a duplicate, the debug build refuses what it has just initialised.\<close>

lemma initialize_memory_duplicate:
  assumes w: "winv w" and ij: "i < j" "j < length (wentries w)"
    and u: "uuid (wentries w ! i) = u" "uuid (wentries w ! j) = u"
    and first: "\<forall>k<i. uuid (wentries w ! k) \<noteq> u"
    and e: "init_entry env u (int i) w = Ret (Next 0, w')"
  shows "initialize_memory_uuid_release env u w = Ret (0, w') \<and>
    initialize_memory_uuid env u w = Ret (-1, w')"
proof -
  let ?n = "length (wentries w)"
  have i: "i < ?n" using ij by simp
  have n: "nat (ut_num_entries (wtable w)) = ?n"
    using w by (simp add: winv_def wentries_def length_ut_entries)
  note split = upt_split [OF i]
  have pre: "\<forall>k\<in>set [0..<i]. k < ?n \<and> uuid (wentries w ! k) \<noteq> u"
    using first i by auto
  have m: "mem_only i w w'" by (rule init_entry_mem_only [OF w i e])
  then have w': "winv w'" "length (wentries w') = ?n" "uuid (wentries w' ! k) = uuid (wentries w ! k)" for k
    by (simp_all add: mem_only_length mem_only_uuid) (simp add: mem_only_def)
  have found: "init_scan env u True 0 js w' = Ret (-1, w')"
    if "\<forall>k\<in>set js. k < ?n" "j \<in> set js" for js
    using that w' u by (induction js) (auto simp: read_entry)
  have tail: "\<forall>k\<in>set [Suc i..<?n]. k < ?n" "j \<in> set [Suc i..<?n]" using ij by auto
  show ?thesis
    unfolding initialize_memory_uuid_def initialize_memory_uuid_release_def n split
    using init_scan_skip [OF w pre, of env False 0] release_scan_skip [OF w pre, of env]
      found [OF tail] e u(1) by (simp add: read_entry [OF w i])
qed

lemma put_module_release_eq:
  "kmodules st md = Some km \<Longrightarrow>
     lxc_uio_proxy_put_module_1_release sv u ns md st = lxc_uio_proxy_put_module_1 sv u ns md st"
  by (simp add: lxc_uio_proxy_put_module_1_release_def lxc_uio_proxy_put_module_1_def mod_deref_def)

lemma end_module_release_resources:
  assumes "lx_held s = UNIV"
  shows "lx_held (end_module_release s) = {CdevObject, ProcFile}"
  using assms unfolding kres_UNIV by (auto simp: end_module_release_def remove_chardev_def)

end
