(* ===== verification/Kernel_Tap.thy ===== *)
theory Kernel_Tap
  imports Module_Lifecycle
begin

text \<open>
  The changes to the kernel and to \<open>insmod\<close> (\<open>src/patches\<close>): the copy of a task's
  namespaces \<open>lxc_uio_create_new_namespaces\<close> with its clean-up ladder,
  \<open>lxc_uio_nsproxy_deep_copy\<close>, \<open>lxc_uio_finished_loading\<close>, the checks of
  \<open>finit_module\<close>, and the tap in \<open>load_module\<close> that hands a module to the proxy instead
  of running its init function. The functions of the kernel they call are fields of
  \<open>tap_env\<close>. What a task holds of other objects is a ledger of the calls made: objects
  obtained, put and freed.
\<close>

subsection \<open>Namespaces\<close>

text \<open>A pointer of the kernel: an error pointer with its code, or an address (0 is
  \<open>NULL\<close>).\<close>

datatype kptr = ErrPtr int | KPtr u64

datatype ns_kind = Mnt | Uts | Ipc | Pid | Cgroup | Net

record nsproxy =
  mnt_ns :: u64
  uts_ns :: u64
  ipc_ns :: u64
  pid_ns_for_children :: u64
  cgroup_ns :: u64
  net_ns :: u64

definition ns_of :: "nsproxy \<Rightarrow> ns_kind \<Rightarrow> u64" where
  "ns_of p k =
     (case k of Mnt \<Rightarrow> mnt_ns p | Uts \<Rightarrow> uts_ns p | Ipc \<Rightarrow> ipc_ns p
      | Pid \<Rightarrow> pid_ns_for_children p | Cgroup \<Rightarrow> cgroup_ns p | Net \<Rightarrow> net_ns p)"

datatype ns_event = AllocNsproxy u64 | GotNs ns_kind u64 | PutNs ns_kind u64 | FreeNsproxy u64

text \<open>The answers of the functions of the kernel: \<open>create_nsproxy\<close> (0 when it fails, and what
  the new object holds), and the functions that copy a namespace of each kind.\<close>

record ns_env =
  create_nsproxy :: u64
  nsproxy_new :: nsproxy
  copy_mnt_ns :: "u64 \<Rightarrow> u64 \<Rightarrow> u64 \<Rightarrow> u64 \<Rightarrow> kptr"
  copy_utsname :: "u64 \<Rightarrow> u64 \<Rightarrow> u64 \<Rightarrow> kptr"
  copy_ipcs :: "u64 \<Rightarrow> u64 \<Rightarrow> u64 \<Rightarrow> kptr"
  copy_pid_ns :: "u64 \<Rightarrow> u64 \<Rightarrow> u64 \<Rightarrow> kptr"
  copy_cgroup_ns :: "u64 \<Rightarrow> u64 \<Rightarrow> u64 \<Rightarrow> kptr"
  copy_net_ns :: "u64 \<Rightarrow> u64 \<Rightarrow> u64 \<Rightarrow> kptr"

record task =
  tsk_nsproxy :: nsproxy
  tsk_user_ns :: u64
  tsk_fs :: u64

definition ns_put_if :: "ns_kind \<Rightarrow> u64 \<Rightarrow> ns_event list" where
  "ns_put_if k p = (if p \<noteq> 0 then [PutNs k p] else [])"

text \<open>The labels of the clean-up ladder; each falls through to the next. The cgroup
  namespace is put without a test.\<close>

definition out_ns :: "u64 \<Rightarrow> nsproxy \<Rightarrow> ns_event list" where
  "out_ns a p = [FreeNsproxy a]"

definition out_uts :: "u64 \<Rightarrow> nsproxy \<Rightarrow> ns_event list" where
  "out_uts a p = ns_put_if Mnt (mnt_ns p) @ out_ns a p"

definition out_ipc :: "u64 \<Rightarrow> nsproxy \<Rightarrow> ns_event list" where
  "out_ipc a p = ns_put_if Uts (uts_ns p) @ out_uts a p"

definition out_pid :: "u64 \<Rightarrow> nsproxy \<Rightarrow> ns_event list" where
  "out_pid a p = ns_put_if Ipc (ipc_ns p) @ out_ipc a p"

definition out_cgroup :: "u64 \<Rightarrow> nsproxy \<Rightarrow> ns_event list" where
  "out_cgroup a p = ns_put_if Pid (pid_ns_for_children p) @ out_pid a p"

definition out_net :: "u64 \<Rightarrow> nsproxy \<Rightarrow> ns_event list" where
  "out_net a p = PutNs Cgroup (cgroup_ns p) # out_cgroup a p"

text \<open>One stage: store what \<open>copy\<close> returned and go on, or leave at a label.\<close>

definition ns_stage ::
    "kptr \<Rightarrow> ns_kind \<Rightarrow> (u64 \<Rightarrow> nsproxy \<Rightarrow> nsproxy) \<Rightarrow> (u64 \<Rightarrow> nsproxy \<Rightarrow> ns_event list) \<Rightarrow> u64 \<Rightarrow> nsproxy \<Rightarrow>
     (nsproxy \<Rightarrow> kptr \<times> nsproxy \<times> ns_event list) \<Rightarrow> kptr \<times> nsproxy \<times> ns_event list" where
  "ns_stage r k store label a p cont =
     (case r of
        ErrPtr err \<Rightarrow> (ErrPtr err, p, label a p)
      | KPtr n \<Rightarrow> (case cont (store n p) of (q, p', tr) \<Rightarrow> (q, p', GotNs k n # tr)))"

text \<open>The result, what it points to, and the ledger of the call.\<close>

definition lxc_uio_create_new_namespaces ::
    "ns_env \<Rightarrow> u64 \<Rightarrow> task \<Rightarrow> u64 \<Rightarrow> u64 \<Rightarrow> kptr \<times> nsproxy \<times> ns_event list" where
  "lxc_uio_create_new_namespaces env fl tsk user_ns new_fs =
     (let old = tsk_nsproxy tsk; a = create_nsproxy env in
      if a = 0 then (ErrPtr (- ENOMEM), nsproxy_new env, [])
      else case
        ns_stage (copy_mnt_ns env fl (mnt_ns old) user_ns new_fs) Mnt (\<lambda>n p. p\<lparr>mnt_ns := n\<rparr>) out_ns a (nsproxy_new env) (\<lambda>p.
        ns_stage (copy_utsname env fl user_ns (uts_ns old)) Uts (\<lambda>n p. p\<lparr>uts_ns := n\<rparr>) out_uts a p (\<lambda>p.
        ns_stage (copy_ipcs env fl user_ns (ipc_ns old)) Ipc (\<lambda>n p. p\<lparr>ipc_ns := n\<rparr>) out_ipc a p (\<lambda>p.
        ns_stage (copy_pid_ns env fl user_ns (pid_ns_for_children old)) Pid
          (\<lambda>n p. p\<lparr>pid_ns_for_children := n\<rparr>) out_pid a p (\<lambda>p.
        ns_stage (copy_cgroup_ns env fl user_ns (cgroup_ns old)) Cgroup (\<lambda>n p. p\<lparr>cgroup_ns := n\<rparr>) out_cgroup a p (\<lambda>p.
        ns_stage (copy_net_ns env fl user_ns (net_ns old)) Net (\<lambda>n p. p\<lparr>net_ns := n\<rparr>) out_net a p (\<lambda>p.
          (KPtr a, p, []))))))) of (q, p, tr) \<Rightarrow> (q, p, AllocNsproxy a # tr))"

text \<open>\<open>fl\<close> is the union of the six \<open>CLONE_NEW\<close> flags; the argument \<open>nsproxy\<close> of the
  C function is not read.\<close>

definition lxc_uio_nsproxy_deep_copy ::
    "ns_env \<Rightarrow> u64 \<Rightarrow> task \<Rightarrow> u64 \<times> nsproxy \<times> ns_event list" where
  "lxc_uio_nsproxy_deep_copy env fl tsk =
     (case lxc_uio_create_new_namespaces env fl tsk (tsk_user_ns tsk) (tsk_fs tsk) of
        (ErrPtr e, p, tr) \<Rightarrow> (0, p, tr)
      | (KPtr a, p, tr) \<Rightarrow> (a, p, tr))"

subsection \<open>The tap in load\_module\<close>

datatype module_state =
  MODULE_STATE_LIVE | MODULE_STATE_COMING | MODULE_STATE_GOING | MODULE_STATE_UNFORMED

text \<open>\<open>lookup\<close> is \<open>find_module_all\<close>: the state of the module with a name, unformed
  modules being visible when its second argument is true.\<close>

definition lxc_uio_finished_loading :: "(string \<Rightarrow> bool \<Rightarrow> module_state option) \<Rightarrow> string \<Rightarrow> bool" where
  "lxc_uio_finished_loading lookup name =
     (case lookup name False of
        None \<Rightarrow> False
      | Some st \<Rightarrow> st = MODULE_STATE_LIVE)"

definition MODULE_INIT_IGNORE_MODVERSIONS :: u32 where
  "MODULE_INIT_IGNORE_MODVERSIONS = 1"

definition MODULE_INIT_IGNORE_VERMAGIC :: u32 where
  "MODULE_INIT_IGNORE_VERMAGIC = 2"

definition MODULE_INIT_LXC :: u32 where
  "MODULE_INIT_LXC = 0x1000000"

record 'e tap_env =
  ta_find :: "string \<Rightarrow> bool \<Rightarrow> module_state option"
  ta_name :: string
  ta_uuid :: u128
  ta_clone :: u64
  ta_ns :: ns_env
  ta_task :: task
  ta_sv :: "'e kservices"
  ta_foreign :: "u128 \<Rightarrow> u64 \<Rightarrow> u64 \<Rightarrow> int"

text \<open>How \<open>load_module\<close> goes on: it returns, it jumps to \<open>sysfs_cleanup\<close> with its variable
  \<open>err\<close> as it is, or it calls \<open>do_init_module\<close>.\<close>

datatype tap_result = TapReturn int | SysfsCleanup int | DoInitModule

definition tap_ready :: "'e tap_env \<Rightarrow> 'e lxmod \<Rightarrow> bool" where
  "tap_ready env s \<longleftrightarrow>
     lxc_uio_finished_loading (ta_find env) (ta_name env) \<and> lx_put_module s \<noteq> None"

text \<open>The call through \<open>lxc_uio_proxy_put_module\<close>; the pointer is read again here.\<close>

definition tap_call :: "'e tap_env \<Rightarrow> u64 \<Rightarrow> u64 \<Rightarrow> 'e lxmod \<Rightarrow> (int \<times> 'e lxmod) exec" where
  "tap_call env nsp md s =
     (case lx_put_module s of
        None \<Rightarrow> Crash NullDeref
      | Some Foreign_hook \<Rightarrow> Ret (ta_foreign env (ta_uuid env) nsp md, s)
      | Some Put_module_1 \<Rightarrow>
          exec_bind (lxc_uio_proxy_put_module_1 (ta_sv env) (ta_uuid env) nsp md (lx_proxy s))
            (\<lambda>(r, px). Ret (r, s\<lparr>lx_proxy := px\<rparr>)))"

definition tap_deliver ::
    "'e tap_env \<Rightarrow> u64 \<Rightarrow> u64 \<Rightarrow> int \<Rightarrow> 'e lxmod \<Rightarrow> (tap_result \<times> 'e lxmod) exec" where
  "tap_deliver env nsp md err s =
     exec_bind (tap_call env nsp md s) (\<lambda>(r, s').
       Ret (if r < 0 then SysfsCleanup err else TapReturn 0, s'))"

definition load_module_tap ::
    "'e tap_env \<Rightarrow> u32 \<Rightarrow> u64 \<Rightarrow> int \<Rightarrow> 'e lxmod \<Rightarrow> (tap_result \<times> ns_event list \<times> 'e lxmod) exec" where
  "load_module_tap env fl md err s =
     (if fl AND MODULE_INIT_LXC = 0 then Ret (DoInitModule, [], s)
      else if \<not> tap_ready env s then Ret (SysfsCleanup err, [], s)
      else case lxc_uio_nsproxy_deep_copy (ta_ns env) (ta_clone env) (ta_task env) of (nsp, p, tr) \<Rightarrow>
        if nsp = 0 then Ret (SysfsCleanup err, tr, s)
        else exec_bind (tap_deliver env nsp md err s) (\<lambda>(res, s'). Ret (res, tr, s')))"

subsection \<open>finit\_module and insmod\<close>

text \<open>The checks of \<open>finit_module\<close>: \<open>Some e\<close> when it returns \<open>e\<close>, \<open>None\<close> when it
  goes on to read the file. \<open>may_init\<close> is the answer of \<open>may_init_module\<close>.\<close>

definition EPERM :: int where
  "EPERM = 1"

definition EINVAL :: int where
  "EINVAL = 22"

definition finit_module_checks :: "int \<Rightarrow> bool \<Rightarrow> bool \<Rightarrow> u32 \<Rightarrow> int option" where
  "finit_module_checks may_init modules_disabled cap_sys_admin fl =
     (let lxc = fl AND MODULE_INIT_LXC \<noteq> 0 in
      if lxc \<and> modules_disabled then Some (- EPERM)
      else if lxc \<and> \<not> cap_sys_admin then Some (-1)
      else let err = (if lxc then 0 else may_init) in
      if err \<noteq> 0 then Some err
      else if fl AND NOT (MODULE_INIT_IGNORE_MODVERSIONS OR MODULE_INIT_IGNORE_VERMAGIC OR MODULE_INIT_LXC) \<noteq> 0
      then Some (- EINVAL)
      else None)"

text \<open>One option of \<open>insmod\<close>: the flags after it, or the exit status. \<open>force\<close> is the union
  of the two force flags of the kmod library.\<close>

datatype opt_result = OptFlags u32 | OptExit int

definition insmod_option :: "u32 \<Rightarrow> char \<Rightarrow> u32 \<Rightarrow> opt_result option" where
  "insmod_option force c fl =
     (if c = CHR ''p'' \<or> c = CHR ''s'' then Some (OptFlags fl)
      else if c = CHR ''f'' then Some (OptFlags (fl OR force))
      else if c = CHR ''V'' then Some (OptExit 0)
      else if c = CHR ''c'' then Some (OptFlags (fl OR MODULE_INIT_LXC))
      else if c = CHR ''?'' then Some (OptExit 1)
      else None)"

text \<open>The loop over the options: the flags after all of them, or where it left.\<close>

primrec insmod_options :: "u32 \<Rightarrow> string \<Rightarrow> u32 \<Rightarrow> opt_result option" where
  "insmod_options force [] fl = Some (OptFlags fl)"
| "insmod_options force (c # cs) fl =
     (case insmod_option force c fl of
        Some (OptFlags fl') \<Rightarrow> insmod_options force cs fl'
      | r \<Rightarrow> r)"

subsection \<open>The ledger of a namespace copy\<close>

definition ns_order :: "ns_kind list" where
  "ns_order = [Mnt, Uts, Ipc, Pid, Cgroup, Net]"

text \<open>What a ledger obtained, and what the ladder owes for it: everything but null pointers,
  which are only put when they are cgroup namespaces.\<close>

definition ns_got :: "ns_event list \<Rightarrow> (ns_kind \<times> u64) list" where
  "ns_got tr = List.map_filter (\<lambda>ev. case ev of GotNs k n \<Rightarrow> Some (k, n) | _ \<Rightarrow> None) tr"

definition ns_put :: "ns_event list \<Rightarrow> (ns_kind \<times> u64) list" where
  "ns_put tr = List.map_filter (\<lambda>ev. case ev of PutNs k n \<Rightarrow> Some (k, n) | _ \<Rightarrow> None) tr"

definition ns_owed :: "(ns_kind \<times> u64) list \<Rightarrow> (ns_kind \<times> u64) list" where
  "ns_owed gs = filter (\<lambda>(k, n). n \<noteq> 0 \<or> k = Cgroup) gs"

lemma ns_ledger_simps [simp]:
  "ns_got [] = []" "ns_got (GotNs k n # tr) = (k, n) # ns_got tr" "ns_got (PutNs k n # tr) = ns_got tr"
  "ns_got (AllocNsproxy a # tr) = ns_got tr" "ns_got (FreeNsproxy a # tr) = ns_got tr"
  "ns_put [] = []" "ns_put (PutNs k n # tr) = (k, n) # ns_put tr" "ns_put (GotNs k n # tr) = ns_put tr"
  "ns_put (AllocNsproxy a # tr) = ns_put tr" "ns_put (FreeNsproxy a # tr) = ns_put tr"
  by (simp_all add: ns_got_def ns_put_def List.map_filter_def)

lemmas ns_labels = out_net_def out_cgroup_def out_pid_def out_ipc_def out_uts_def out_ns_def ns_put_if_def

lemma create_new_namespaces_failed:
  assumes "lxc_uio_create_new_namespaces env fl tsk user_ns fs = (ErrPtr e, p, tr)"
  shows "(create_nsproxy env = 0 \<and> e = - ENOMEM \<and> tr = []) \<or>
    (create_nsproxy env \<noteq> 0 \<and>
     tr = AllocNsproxy (create_nsproxy env) # map (\<lambda>(k, n). GotNs k n) (ns_got tr) @
       map (\<lambda>(k, n). PutNs k n) (rev (ns_owed (ns_got tr))) @ [FreeNsproxy (create_nsproxy env)] \<and>
     map fst (ns_got tr) = take (length (ns_got tr)) ns_order \<and> length (ns_got tr) < 6)"
  using assms
  by (auto simp: lxc_uio_create_new_namespaces_def ns_stage_def ns_labels ns_owed_def ns_order_def Let_def
      split: kptr.splits if_splits)

lemma create_new_namespaces_done:
  assumes "lxc_uio_create_new_namespaces env fl tsk user_ns fs = (KPtr a, p, tr)"
  shows "a = create_nsproxy env \<and> a \<noteq> 0 \<and>
    tr = AllocNsproxy a # map (\<lambda>k. GotNs k (ns_of p k)) ns_order"
  using assms
  by (auto simp: lxc_uio_create_new_namespaces_def ns_stage_def ns_order_def ns_of_def Let_def
      split: kptr.splits if_splits)

lemma deep_copy_cases:
  assumes "lxc_uio_nsproxy_deep_copy env fl tsk = (a, p, tr)"
  obtains (failed) e where "a = 0"
      "lxc_uio_create_new_namespaces env fl tsk (tsk_user_ns tsk) (tsk_fs tsk) = (ErrPtr e, p, tr)"
    | (copied) "a \<noteq> 0"
      "lxc_uio_create_new_namespaces env fl tsk (tsk_user_ns tsk) (tsk_fs tsk) = (KPtr a, p, tr)"
  using assms
  by (auto simp: lxc_uio_nsproxy_deep_copy_def split: prod.splits kptr.splits
      dest: create_new_namespaces_done)

subsection \<open>What the tap does\<close>

lemma tap_ready_start:
  assumes "fresh_module s" and "load_env_sane le" and "start le s = (0, s1)"
  shows "tap_ready env s1 \<longleftrightarrow> ta_find env (ta_name env) False = Some MODULE_STATE_LIVE"
  using start_resources [OF assms]
  by (auto simp: tap_ready_def lxc_uio_finished_loading_def split: option.split)

lemma tap_not_ready:
  "fl AND MODULE_INIT_LXC \<noteq> 0 \<Longrightarrow> \<not> tap_ready env s \<Longrightarrow>
     load_module_tap env fl md err s = Ret (SysfsCleanup err, [], s)"
  by (simp add: load_module_tap_def)

lemma tap_ready_end: "\<not> tap_ready env (end_module s)"
  by (simp add: tap_ready_def end_module_def remove_chardev_def)

lemma tap_deliver_ok:
  assumes hook: "lx_put_module s = Some Put_module_1"
    and inv: "proxy_inv (lx_proxy s)" and md: "kmodules (lx_proxy s) md = Some km" "module_ok km"
    and ok: "mt_put_ok (krealloc_mt (ta_sv env)) (ptable (lx_proxy s))"
    and live: "server_live (ta_sv env) (lx_proxy s)"
  obtains px where "tap_deliver env nsp md err s = Ret (TapReturn 0, s\<lparr>lx_proxy := px\<rparr>)" "proxy_inv px"
    "mt_pending (ptable px) = mt_pending (ptable (lx_proxy s)) @
       [\<lparr>mt_uuid = ta_uuid env, mt_nsproxy = nsp, mt_module = md\<rparr>]"
proof -
  let ?st = "lx_proxy s"
  obtain t1 where t1: "lxc_uio_proxy_put_module_1 (ta_sv env) (ta_uuid env) nsp md ?st =
      Ret (0, ?st\<lparr>ptable := t1, efds := signalled (ta_sv env) ?st\<rparr>)"
    "mt_pending t1 = mt_pending (ptable ?st) @ [\<lparr>mt_uuid = ta_uuid env, mt_nsproxy = nsp, mt_module = md\<rparr>]"
    by (rule put_module_returns [OF inv md ok live])
  have "proxy_inv (?st\<lparr>ptable := t1, efds := signalled (ta_sv env) ?st\<rparr>)"
    using put_module_step [OF inv md ok t1(1)] by simp
  with t1 hook show thesis
    by (intro that [of "?st\<lparr>ptable := t1, efds := signalled (ta_sv env) ?st\<rparr>"])
      (simp_all add: tap_deliver_def tap_call_def)
qed

lemma tap_copied:
  assumes "fl AND MODULE_INIT_LXC \<noteq> 0" and "tap_ready env s"
    and "lxc_uio_nsproxy_deep_copy (ta_ns env) (ta_clone env) (ta_task env) = (nsp, p, tr)" and "nsp \<noteq> 0"
  shows "load_module_tap env fl md err s =
    exec_bind (tap_deliver env nsp md err s) (\<lambda>(res, s'). Ret (res, tr, s'))"
  unfolding load_module_tap_def if_not_P [OF assms(1)] using assms(2-4) by simp

lemma tap_delivers:
  assumes fl: "fl AND MODULE_INIT_LXC \<noteq> 0" and ready: "tap_ready env s"
    and copy: "lxc_uio_nsproxy_deep_copy (ta_ns env) (ta_clone env) (ta_task env) = (nsp, p, tr)" "nsp \<noteq> 0"
    and hook: "lx_put_module s = Some Put_module_1"
    and inv: "proxy_inv (lx_proxy s)" and md: "kmodules (lx_proxy s) md = Some km" "module_ok km"
    and ok: "mt_put_ok (krealloc_mt (ta_sv env)) (ptable (lx_proxy s))"
    and live: "server_live (ta_sv env) (lx_proxy s)"
  obtains px where "load_module_tap env fl md err s = Ret (TapReturn 0, tr, s\<lparr>lx_proxy := px\<rparr>)"
    "proxy_inv px"
    "mt_pending (ptable px) = mt_pending (ptable (lx_proxy s)) @
       [\<lparr>mt_uuid = ta_uuid env, mt_nsproxy = nsp, mt_module = md\<rparr>]"
proof -
  obtain px where px: "tap_deliver env nsp md err s = Ret (TapReturn 0, s\<lparr>lx_proxy := px\<rparr>)" "proxy_inv px"
    "mt_pending (ptable px) = mt_pending (ptable (lx_proxy s)) @
       [\<lparr>mt_uuid = ta_uuid env, mt_nsproxy = nsp, mt_module = md\<rparr>]"
    by (rule tap_deliver_ok [OF hook inv md ok live])
  then show thesis
    using tap_copied [OF fl ready copy] by (intro that [of px]) simp_all
qed

text \<open>Every exit of the tap, for a module inserted by a container.\<close>

lemma tap_exits:
  assumes fl: "fl AND MODULE_INIT_LXC \<noteq> 0"
    and r: "load_module_tap env fl md err s = Ret (res, tr, s')"
  obtains (not_ready) "\<not> tap_ready env s" "res = SysfsCleanup err" "tr = []" "s' = s"
    | (no_copy) p where "tap_ready env s" "res = SysfsCleanup err" "s' = s"
        "lxc_uio_nsproxy_deep_copy (ta_ns env) (ta_clone env) (ta_task env) = (0, p, tr)"
    | (refused) nsp p q where "tap_ready env s" "res = SysfsCleanup err" "nsp \<noteq> 0"
        "lxc_uio_nsproxy_deep_copy (ta_ns env) (ta_clone env) (ta_task env) = (nsp, p, tr)"
        "tap_call env nsp md s = Ret (q, s')" "q < 0"
    | (taken) nsp p q where "tap_ready env s" "res = TapReturn 0" "nsp \<noteq> 0"
        "lxc_uio_nsproxy_deep_copy (ta_ns env) (ta_clone env) (ta_task env) = (nsp, p, tr)"
        "tap_call env nsp md s = Ret (q, s')" "0 \<le> q"
proof (cases "tap_ready env s")
  case False
  with tap_not_ready [OF fl False, of md err] r not_ready show thesis by simp
next
  case True
  obtain nsp p tr1 where cp: "lxc_uio_nsproxy_deep_copy (ta_ns env) (ta_clone env) (ta_task env) = (nsp, p, tr1)"
    by (cases "lxc_uio_nsproxy_deep_copy (ta_ns env) (ta_clone env) (ta_task env)") auto
  show thesis
  proof (cases "nsp = 0")
    case True
    have "load_module_tap env fl md err s = Ret (SysfsCleanup err, tr1, s)"
      unfolding load_module_tap_def if_not_P [OF fl] using \<open>tap_ready env s\<close> cp True by simp
    with r have "res = SysfsCleanup err" "s' = s" "tr1 = tr" by simp_all
    with cp True show thesis by (intro no_copy [OF \<open>tap_ready env s\<close>]) simp_all
  next
    case False
    from r tap_copied [OF fl True cp False] obtain q where q: "tap_call env nsp md s = Ret (q, s')" "tr1 = tr"
        "res = (if q < 0 then SysfsCleanup err else TapReturn 0)"
      by (auto simp: tap_deliver_def exec_bind_eq_Ret_iff)
    then show thesis
      using refused [OF True _ False _ q(1)] taken [OF True _ False _ q(1)] cp by (cases "q < 0") auto
  qed
qed

lemma copied_ledger:
  assumes "lxc_uio_nsproxy_deep_copy env fl tsk = (a, p, tr)" and "a \<noteq> 0"
  shows "map fst (ns_got tr) = ns_order \<and> ns_put tr = [] \<and> FreeNsproxy b \<notin> set tr"
  using assms(1)
proof (cases rule: deep_copy_cases)
  case failed
  with assms(2) show ?thesis by simp
next
  case copied
  from create_new_namespaces_done [OF copied(2)] show ?thesis
    by (auto simp: ns_order_def)
qed

subsection \<open>The flag of a container, from insmod to the kernel\<close>

lemma or_lxc: "(x OR MODULE_INIT_LXC) AND MODULE_INIT_LXC = MODULE_INIT_LXC"
  by (rule bit_word_eqI) (auto simp: bit_simps)

lemma lxc_nonzero [simp]: "MODULE_INIT_LXC \<noteq> 0"
  by (simp add: MODULE_INIT_LXC_def)

text \<open>The flag is set exactly by the option \<open>c\<close>.\<close>

lemma insmod_option_lxc:
  assumes "insmod_option force c fl = Some (OptFlags fl')" and "force AND MODULE_INIT_LXC = 0"
  shows "fl' AND MODULE_INIT_LXC =
    (if c = CHR ''c'' then MODULE_INIT_LXC else fl AND MODULE_INIT_LXC)"
  using assms
  by (auto simp: insmod_option_def or_lxc bit.conj_disj_distrib2 split: if_splits)

lemma insmod_options_lxc:
  assumes "insmod_options force cs fl = Some (OptFlags fl')" and "force AND MODULE_INIT_LXC = 0"
  shows "fl' AND MODULE_INIT_LXC =
    (if CHR ''c'' \<in> set cs then MODULE_INIT_LXC else fl AND MODULE_INIT_LXC)"
  using assms(1)
proof (induction cs arbitrary: fl)
  case Nil
  then show ?case by simp
next
  case (Cons c cs)
  then obtain fl1 where fl1: "insmod_option force c fl = Some (OptFlags fl1)"
      "insmod_options force cs fl1 = Some (OptFlags fl')"
    by (auto split: option.splits opt_result.splits)
  from Cons.IH [OF fl1(2)] insmod_option_lxc [OF fl1(1) assms(2)] show ?case by auto
qed

lemma finit_container:
  assumes "fl AND MODULE_INIT_LXC \<noteq> 0"
    and "fl AND NOT (MODULE_INIT_IGNORE_MODVERSIONS OR MODULE_INIT_IGNORE_VERMAGIC OR MODULE_INIT_LXC) = 0"
  shows "finit_module_checks may dis cap fl =
    (if dis then Some (- EPERM) else if cap then None else Some (-1))"
  unfolding finit_module_checks_def Let_def assms(2) using assms(1) by simp

lemma finit_host:
  assumes "fl AND MODULE_INIT_LXC = 0"
    and "fl AND NOT (MODULE_INIT_IGNORE_MODVERSIONS OR MODULE_INIT_IGNORE_VERMAGIC OR MODULE_INIT_LXC) = 0"
  shows "finit_module_checks may dis cap fl = (if may \<noteq> 0 then Some may else None)"
  unfolding finit_module_checks_def Let_def assms by simp

lemma tap_never_inits:
  assumes "fl AND MODULE_INIT_LXC \<noteq> 0" and "load_module_tap env fl md err s = Ret (res, tr, s')"
  shows "res \<noteq> DoInitModule"
  using assms by (cases rule: tap_exits) simp_all

lemma tap_host: "fl AND MODULE_INIT_LXC = 0 \<Longrightarrow> load_module_tap env fl md err s = Ret (DoInitModule, [], s)"
  by (simp add: load_module_tap_def)

end
