(* ===== verification/Module_Space.thy ===== *)
theory Module_Space
  imports Host_Memory Kernel_Tap
begin

text \<open>
  Addresses of a module. \<open>within_module_core\<close>, \<open>within_module_init\<close>, \<open>within_module\<close> and
  \<open>module_is_live\<close> of the kernel header \<open>module.h\<close> say which kernel addresses belong to a
  module. The lemmas follow such an address through the copy that \<open>process_packet\<close> makes:
  from the kernel to the user memory behind the core region, and to the guest address that
  the region gives it.
\<close>

definition module_is_live :: "module_state \<Rightarrow> bool" where
  "module_is_live st \<longleftrightarrow> st \<noteq> MODULE_STATE_GOING"

definition within_module_core :: "u64 \<Rightarrow> kmodule \<Rightarrow> bool" where
  "within_module_core addr md \<longleftrightarrow>
     ml_base (mod_core_layout md) \<le> addr \<and>
     addr < ml_base (mod_core_layout md) + ucast (ml_size (mod_core_layout md))"

definition within_module_init :: "u64 \<Rightarrow> kmodule \<Rightarrow> bool" where
  "within_module_init addr md \<longleftrightarrow>
     ml_base (mod_init_layout md) \<le> addr \<and>
     addr < ml_base (mod_init_layout md) + ucast (ml_size (mod_init_layout md))"

definition within_module :: "u64 \<Rightarrow> kmodule \<Rightarrow> bool" where
  "within_module addr md \<longleftrightarrow> within_module_init addr md \<or> within_module_core addr md"

text \<open>The guest physical address at which a mapped region shows a user address.\<close>

definition guest_view :: "kvm_region \<Rightarrow> umem \<Rightarrow> u64 \<Rightarrow> u8 option" where
  "guest_view r m ga =
     (if guest_phys_addr r \<le> ga \<and> ga - guest_phys_addr r < memory_size r
      then Some (m (userspace_addr r + (ga - guest_phys_addr r))) else None)"

lemma offset_in_range:
  fixes a b c :: u64
  assumes "b \<le> a" and "a < b + c"
  shows "unat (a - b) < unat c"
proof -
  have "unat a < unat (b + c)" using assms(2) by (simp add: word_less_nat_alt)
  also have "\<dots> \<le> unat b + unat c" by (simp add: unat_word_ariths(1))
  finally have "unat a < unat b + unat c" .
  moreover have "unat b \<le> unat a" using assms(1) by (simp add: word_le_nat_alt)
  ultimately show ?thesis using assms(1) by (simp add: unat_sub)
qed

lemma unat_ucast_u32: "unat (ucast w :: u64) = unat w" for w :: u32
  using unsigned_less [of w, where 'a = nat] by (simp add: unsigned_ucast_eq take_bit_nat_eq_self_iff)

lemma core_offset:
  "within_module_core addr md \<Longrightarrow>
     unat (addr - ml_base (mod_core_layout md)) < unat (ml_size (mod_core_layout md))"
  using offset_in_range [of "ml_base (mod_core_layout md)" addr "ucast (ml_size (mod_core_layout md))"]
  by (simp add: within_module_core_def unat_ucast_u32)

text \<open>Areas with the same contents agree byte by byte.\<close>

lemma read_eq_byte:
  assumes "umem_read m a n = umem_read k b n" and "unat off < n"
  shows "m (a + off) = k (b + off)"
  using arg_cong [OF assms(1), of "\<lambda>bs. bs ! unat off"] assms(2) by (simp add: umem_read_def)

text \<open>What a filled core region shows of the module: every byte of its core area, at the
  distance from 0x1000 that it has from the base of the area.\<close>

lemma core_visible:
  assumes r: "guest_phys_addr r = 0x1000" "memory_size r = ucast (ml_size (mod_core_layout md))"
      "userspace_addr r = dst"
    and m: "umem_read m dst (unat (ml_size (mod_core_layout md))) =
      umem_read k (ml_base (mod_core_layout md)) (unat (ml_size (mod_core_layout md)))"
    and a: "within_module_core addr md"
  shows "guest_view r m (0x1000 + (addr - ml_base (mod_core_layout md))) = Some (k addr)"
proof -
  let ?off = "addr - ml_base (mod_core_layout md)" and ?sz = "ml_size (mod_core_layout md)"
  have off: "unat ?off < unat ?sz" by (rule core_offset [OF a])
  then have lt: "?off < ucast ?sz" by (simp add: word_less_nat_alt unat_ucast_u32)
  have "unat ?off < 2 ^ 32" using off unsigned_less [of ?sz, where 'a = nat] by simp
  then have "unat (0x1000 + ?off) = 0x1000 + unat ?off" by (simp add: unat_word_ariths(1))
  then have le: "0x1000 \<le> 0x1000 + ?off" by (simp add: word_le_nat_alt)
  have "m (dst + ?off) = k addr"
    using read_eq_byte [OF m off] by simp
  with lt le r show ?thesis by (simp add: guest_view_def)
qed

end
