(* ===== verification/Server_Properties.thy ===== *)
theory Server_Properties
  imports Demo_States Guest_Program Release_Build Module_Space
begin

text \<open>
  The properties of the server: its table of modules and how it grows, the preparation of
  the memory of a virtual machine, and the two operations of its work loop.
\<close>

subsection \<open>The table of modules\<close>

text \<open>A table that \<open>table_init\<close> has just set up is empty; a sequence of insertions
  appends to it in order, across in-place reallocations, and afterwards each entry is
  copied out unchanged at its index, the index past the last one answering NULL.\<close>

theorem server_table_roundtrip:
  assumes "uuid_table t = 0" and "0 < uuid_table_size t" and "al_ptr al \<noteq> 0"
    and "puts_ok Uuid_Table.table_put ut_put_ok exs (snd (Uuid_Table.table_init al t))"
  shows "\<exists>t'. run_puts Uuid_Table.table_put exs (snd (Uuid_Table.table_init al t)) = Ret t' \<and> ut_inv t' \<and>
    (\<forall>i < length exs. table_entry_at_index_copy True (int i) t' = Ret (Some (snd (exs ! i)))) \<and>
    table_entry_at_index_copy True (int (length exs)) t' = Ret None"
proof -
  have init: "ut_inv (snd (Uuid_Table.table_init al t))" "ut_entries (snd (Uuid_Table.table_init al t)) = []"
    using ut_inv_table_init [OF assms(1,2,3)] by simp_all
  from uta.run_puts_append [OF init(1) assms(4)] obtain t' where t':
      "run_puts Uuid_Table.table_put exs (snd (Uuid_Table.table_init al t)) = Ret t'" "ut_inv t'"
      "ut_entries t' = map snd exs"
    using init(2) by auto
  have "ut_num_entries t' = int (length exs)"
    using length_ut_entries [OF t'(2)] t'(2,3) by (auto elim: ut_invE)
  then have "table_entry_at_index_copy True (int (length exs)) t' = Ret None"
    by (simp add: table_entry_at_index_copy_def)
  with t' entry_copy_at [OF t'(2)] show ?thesis by auto
qed

theorem server_table_roundtrip_witness:
  "\<exists>t'. run_puts Uuid_Table.table_put [(demo_alloc, new_entry 5 demo_memory)]
      (snd (Uuid_Table.table_init (demo_alloc\<lparr>al_ptr := 4096\<rparr>) utable_init)) = Ret t' \<and> ut_inv t' \<and>
    table_entry_at_index_copy True 0 t' = Ret (Some (new_entry 5 demo_memory)) \<and>
    table_entry_at_index_copy True 1 t' = Ret None"
proof -
  let ?t = "snd (Uuid_Table.table_init (demo_alloc\<lparr>al_ptr := 4096\<rparr>) utable_init)"
  have "ut_inv ?t" and ok: "ut_put_ok demo_alloc ?t"
    by (simp_all add: Uuid_Table.table_init_def utable_init_def ut_inv_def ut_put_ok_def)
  then have "puts_ok Uuid_Table.table_put ut_put_ok [(demo_alloc, new_entry 5 demo_memory)] ?t"
    using ut_put_append [of ?t demo_alloc "new_entry 5 demo_memory"] by auto
  then show ?thesis
    using server_table_roundtrip [of utable_init "demo_alloc\<lparr>al_ptr := 4096\<rparr>"
        "[(demo_alloc, new_entry 5 demo_memory)]"]
    by (simp add: utable_init_def)
qed

text \<open>C40. When the table is full and \<open>realloc\<close> moves the block, the insertion faults: the new
  address is kept in a local variable only, and the store goes through the old pointer to
  freed memory.\<close>

theorem moved_realloc_use_after_free:
  assumes "ut_inv t" and "ut_num_entries t = uuid_table_size t"
    and "al_ptr al \<noteq> 0" and "al_ptr al \<noteq> uuid_table t"
  shows "Uuid_Table.table_put al e t = Crash UseAfterFree"
  using assms
  by (auto simp: Uuid_Table.table_put_def ut_write_def ut_block_def do_realloc_def Let_def elim!: ut_invE)

theorem moved_realloc_use_after_free_witness:
  "Uuid_Table.table_put (demo_alloc\<lparr>al_ptr := 8192\<rparr>) (new_entry 7 demo_memory)
     (demo_utable (replicate 256 (new_entry 5 demo_memory))) = Crash UseAfterFree"
  by (rule moved_realloc_use_after_free) (simp_all, simp_all add: demo_utable_def)

text \<open>C31. The table starts with 256 entries of 320 bytes and doubles. The byte count passed to
  \<open>realloc\<close> is an \<open>int\<close>: it is exact for the first fourteen doublings, and negative at
  the fifteenth.\<close>

theorem table_growth_bound:
  "(uuid_table_size t = 256 * 2 ^ k \<and> k \<le> 13 \<longrightarrow>
      newsize t = 256 * 2 ^ (k + 1) \<and> new_size_bytes t = 320 * 256 * 2 ^ (k + 1)) \<and>
   (uuid_table_size t = 256 * 2 ^ 14 \<longrightarrow> new_size_bytes t < 0)"
proof (intro conjI impI)
  assume k: "uuid_table_size t = 256 * 2 ^ k \<and> k \<le> 13"
  then have "(2::int) ^ k \<le> 2 ^ 13" by (intro power_increasing) simp_all
  then have "2 * uuid_table_size t * sizeof_UUID_table < 2 ^ 31" "0 < uuid_table_size t"
    using k by (simp_all add: sizeof_UUID_table_def)
  from new_size_bytes_exact [OF this(2,1)] k
  show "newsize t = 256 * 2 ^ (k + 1)" "new_size_bytes t = 320 * 256 * 2 ^ (k + 1)"
    by (simp_all add: sizeof_UUID_table_def)
next
  assume "uuid_table_size t = 256 * 2 ^ 14"
  then show "new_size_bytes t < 0"
    by (simp add: new_size_bytes_def newsize_def sizeof_UUID_table_def s32_def)
qed

theorem table_growth_bound_witness:
  "newsize utable_init = 512 \<and> new_size_bytes utable_init = 163840 \<and>
   new_size_bytes (utable_init\<lparr>uuid_table_size := 4194304\<rparr>) < 0"
  using table_growth_bound [of utable_init 0] table_growth_bound [of "utable_init\<lparr>uuid_table_size := 4194304\<rparr>" 0]
  by (simp add: utable_init_def)

text \<open>\<open>table_set_xxx\<close> on an index in range changes that entry by the assignment and
  nothing else, and clears \<open>errno\<close>; on an index past the end it leaves the entries alone
  and sets \<open>errno\<close> to -1.\<close>

theorem table_set_outcome:
  assumes "ut_inv t"
  shows "if i < length (ut_entries t)
    then \<exists>t'. table_set_xxx (int i) upd t = Ret t' \<and> ut_inv t' \<and> errno t' = 0 \<and>
           ut_entries t' = (ut_entries t)[i := upd (ut_entries t ! i)]
    else table_set_xxx (int i) upd t = Ret (t\<lparr>errno := -1\<rparr>)"
proof (cases "i < length (ut_entries t)")
  case True
  obtain h where "table_set_xxx (int i) upd t = Ret (t\<lparr>errno := 0, uheap := h\<rparr>)"
    "ut_inv (t\<lparr>errno := 0, uheap := h\<rparr>)"
    "ut_entries (t\<lparr>errno := 0, uheap := h\<rparr>) = (ut_entries t)[i := upd (ut_entries t ! i)]"
    by (rule table_set_xxx_entry [OF assms True])
  with True show ?thesis by simp
next
  case False
  moreover have "0 \<le> ut_num_entries t" using assms by (auto elim: ut_invE)
  ultimately have "\<not> int i \<le> ut_num_entries t - 1"
    using length_ut_entries [OF assms] by linarith
  with False show ?thesis by (simp add: table_set_xxx_def)
qed

theorem table_set_outcome_witness:
  "\<exists>t'. table_set_xxx 0 (\<lambda>e. e\<lparr>processed := True\<rparr>) (demo_utable [new_entry 5 demo_memory]) = Ret t' \<and>
     ut_inv t' \<and> errno t' = 0 \<and> ut_entries t' = [(new_entry 5 demo_memory)\<lparr>processed := True\<rparr>]"
  using table_set_outcome [of "demo_utable [new_entry 5 demo_memory]" 0 "\<lambda>e. e\<lparr>processed := True\<rparr>"]
  by simp

subsection \<open>Memory of a virtual machine\<close>

text \<open>C16. For a module the proxy knows, with no region set up yet and every call of the
  environment succeeding, \<open>initialize_memory_uuid\<close> returns 0 and gives that entry, and no
  other, its three regions: the IDT page at guest address 0 in slot 0, the init area at its
  kernel address in slot 1 and the core area at guest address 0x1000 in slot 2, with the
  sizes of the module's layouts and the mapped user addresses.\<close>

theorem initialize_memory_three_regions:
  assumes "winv w" and "i < length (wentries w)" and "knows (wproxy w) (uuid (wentries w ! i)) md"
    and "wmajor w = lxc_uio_cdev_major_number (wproxy w)" and "init_env_ok env"
    and "num_regions (memory (wentries w ! i)) = 0" and "distinct (map uuid (wentries w))"
  shows "\<exists>w' m. initialize_memory_uuid env (uuid (wentries w ! i)) w = Ret (0, w') \<and> winv w' \<and>
    wentries w' = (wentries w)[i := (wentries w ! i)\<lparr>memory := m\<rparr>] \<and> num_regions m = 3 \<and>
    region_IDT m = (region_IDT (memory (wentries w ! i)))\<lparr>slot := 0, guest_phys_addr := 0,
      memory_size := ucast (IDT_size env), userspace_addr := mem_IDT env\<rparr> \<and>
    region_init m = (region_init (memory (wentries w ! i)))\<lparr>slot := 1,
      guest_phys_addr := ml_base (mod_init_layout md),
      memory_size := ucast (ml_size (mod_init_layout md)), userspace_addr := mem_init env\<rparr> \<and>
    region_core m = (region_core (memory (wentries w ! i)))\<lparr>slot := 2, guest_phys_addr := 0x1000,
      memory_size := ucast (ml_size (mod_core_layout md)), userspace_addr := mem_core env\<rparr>"
proof -
  obtain w' where "initialize_memory_uuid env (uuid (wentries w ! i)) w = Ret (0, w')" "winv w'"
    "wentries w' = (wentries w)[i := (wentries w ! i)
       \<lparr>memory := initialised env md (memory (wentries w ! i))\<rparr>]"
    by (rule initialize_memory_ok [OF assms])
  then show ?thesis
    using assms(6)
    by (intro exI [of _ w'] exI [of _ "initialised env md (memory (wentries w ! i))"])
      (simp add: initialised_def inc_regions_def fill_core_def fill_init_def fill_IDT_def
        fill_region_def config_IDT_base_def)
qed

theorem initialize_memory_three_regions_witness:
  "\<exists>w' m. initialize_memory_uuid demo_init 6
      (demo_world [5, 6] 2 [new_entry 5 demo_memory, new_entry 6 demo_memory]) = Ret (0, w') \<and>
    wentries w' = [new_entry 5 demo_memory, (new_entry 6 demo_memory)\<lparr>memory := m\<rparr>] \<and>
    num_regions m = 3 \<and> guest_phys_addr (region_core m) = 0x1000 \<and> memory_size (region_core m) = 3"
proof -
  let ?w = "demo_world [5, 6] 2 [new_entry 5 demo_memory, new_entry 6 demo_memory]"
  have [simp]: "uuid (new_entry u m) = u" "memory (new_entry u m) = m" for u m
    by (simp_all add: new_entry_def)
  have "ml_size (mod_core_layout demo_module) = 3" by (simp add: demo_module_def demo_layout_def)
  with initialize_memory_three_regions [of ?w 1 demo_module demo_init] show ?thesis
    by (fastforce simp: demo_world_inv demo_knows)
qed

text \<open>C22. The memory set-up is the same program in both builds. As long as no identifier is in
  the table twice, the loop of the release build, which stops at the first match, and the
  one of the debug build, which scans on for a second one, return the same result and leave
  the same state, whatever the calls of the environment answer. So does the insertion of a
  module the kernel has, whose pointer only the debug build follows.\<close>

theorem release_build_equivalent:
  assumes "winv w" and "distinct (map uuid (wentries w))" and "kmodules st md = Some km"
  shows "initialize_memory_uuid_release env u w = initialize_memory_uuid env u w \<and>
    lxc_uio_proxy_put_module_1_release sv v ns md st = lxc_uio_proxy_put_module_1 sv v ns md st"
  using initialize_memory_release_eq [OF assms(1,2)] put_module_release_eq [OF assms(3)] by blast

theorem release_build_equivalent_witness:
  "initialize_memory_uuid_release demo_init 6
      (demo_world [5, 6] 2 [new_entry 5 demo_memory, new_entry 6 demo_memory]) =
    initialize_memory_uuid demo_init 6
      (demo_world [5, 6] 2 [new_entry 5 demo_memory, new_entry 6 demo_memory]) \<and>
   lxc_uio_proxy_put_module_1_release demo_sv 7 0 64 (demo_proxy [5] 0) =
    lxc_uio_proxy_put_module_1 demo_sv 7 0 64 (demo_proxy [5] 0)"
proof -
  let ?w = "demo_world [5, 6] 2 [new_entry 5 demo_memory, new_entry 6 demo_memory]"
  have "winv ?w" "distinct (map uuid (wentries ?w))"
    by (simp_all add: demo_world_inv) (simp add: new_entry_def)
  moreover have "kmodules (demo_proxy [5] 0) 64 = Some demo_module" by (simp add: demo_proxy_def)
  ultimately show ?thesis by (rule release_build_equivalent)
qed

text \<open>A failed layout request is not reported. When the IDT region is set up and fetching
  the init layout fails, \<open>initialize_memory_uuid\<close> returns the result of the preceding
  KVM call, which is not negative, so its caller goes on as if the memory was ready; the
  entry has one region instead of three.\<close>

theorem layout_failure_reported_as_success:
  assumes "winv w" and "wentries w = [e]" and "num_regions (memory e) = 0"
    and "mem_IDT env \<noteq> MAP_FAILED" and "0 \<le> set_IDT env" and "buf_init env = 0"
  shows "\<exists>w' e'. initialize_memory_uuid env (uuid e) w = Ret (set_IDT env, w') \<and>
    wentries w' = [e'] \<and> num_regions (memory e') = 1"
proof -
  have i: "0 < length (wentries w)" "wentries w ! 0 = e" using assms(2) by simp_all
  obtain t where t: "add_region (int 0) (fill_IDT env) (set_IDT env) w = Ret (Next (set_IDT env), w\<lparr>wtable := t\<rparr>)"
      "winv (w\<lparr>wtable := t\<rparr>)"
      "wentries (w\<lparr>wtable := t\<rparr>) = (wentries w)[0 := (wentries w ! 0)
         \<lparr>memory := inc_regions (fill_IDT env (memory (wentries w ! 0)))\<rparr>]"
    by (rule add_region_entry [OF assms(1) i(1) assms(5)])
  let ?e' = "e\<lparr>memory := inc_regions (fill_IDT env (memory e))\<rparr>"
  let ?w1 = "w\<lparr>wtable := t\<rparr>"
  have rd: "ut_read (wtable w) 0 = Ret e" using read_entry [OF assms(1) i(1)] i(2) by simp
  have idt: "init_IDT_area env 0 w = Ret (Next (set_IDT env), ?w1)"
    using t(1) rd assms(3,4) by (simp add: init_IDT_area_def)
  have ini: "\<exists>x. init_init_area env (uuid e) 0 (set_IDT env) ?w1 =
      Ret (Goto (set_IDT env), set_errno x ?w1)"
    using assms(6) by (simp add: init_init_area_def get_uuid_layout_def Let_def set_errno_def) blast
  then obtain x where x: "init_entry env (uuid e) 0 w = Ret (Goto (set_IDT env), set_errno x ?w1)"
    using idt by (auto simp: init_entry_def flow_bind_def)
  have n: "nat (ut_num_entries (wtable w)) = Suc 0"
    using assms(1,2) length_ut_entries [of "wtable w"] by (simp add: winv_def wentries_def)
  have "initialize_memory_uuid env (uuid e) w = Ret (set_IDT env, set_errno x ?w1)"
    unfolding initialize_memory_uuid_def n using rd x by simp
  moreover have "wentries (set_errno x ?w1) = [?e']" using t(3) assms(2) by simp
  moreover have "num_regions (memory ?e') = 1"
    using assms(3) by (simp add: inc_regions_def fill_IDT_def)
  ultimately show ?thesis by blast
qed

theorem layout_failure_reported_as_success_witness:
  "\<exists>w' e'. initialize_memory_uuid (demo_init\<lparr>buf_init := 0\<rparr>) 5
      (demo_world [5] 1 [new_entry 5 demo_memory]) = Ret (0, w') \<and>
    wentries w' = [e'] \<and> num_regions (memory e') = 1"
  using layout_failure_reported_as_success [of "demo_world [5] 1 [new_entry 5 demo_memory]"
      "new_entry 5 demo_memory" "demo_init\<lparr>buf_init := 0\<rparr>"]
  by (simp add: demo_world_inv new_entry_def demo_init_def MAP_FAILED_def)

subsection \<open>The work loop\<close>

text \<open>A call of \<open>get_new_entry\<close> with a module pending returns 1, takes the oldest pending
  identifier from the proxy and appends an unprocessed entry for it, with no region, to the
  server's table. With nothing pending it returns 0 and leaves both tables as they
  are.\<close>

theorem get_new_entry_outcome:
  assumes "winv w" and "proxy_inv (wproxy w)"
    and "wmajor w = lxc_uio_cdev_major_number (wproxy w)" and "new_env_ok env (wtable w)"
  shows "case pending_uuids (wproxy w) of
      [] \<Rightarrow> (\<exists>m. get_new_entry env w = Ret (0, w\<lparr>wmem := m\<rparr>))
    | u # us \<Rightarrow> (\<exists>w' e. get_new_entry env w = Ret (1, w') \<and> winv w' \<and> proxy_inv (wproxy w') \<and>
        pending_uuids (wproxy w') = us \<and> wentries w' = wentries w @ [e] \<and>
        uuid e = u \<and> \<not> entry_done e \<and> flags_ok e \<and> num_regions (memory e) = 0)"
proof (cases "pending_uuids (wproxy w)")
  case Nil
  with get_new_entry_none [OF assms(2) Nil assms(3), of env] show ?thesis by simp
next
  case (Cons u us)
  obtain w' where "get_new_entry env w = Ret (1, w')" "winv w'" "proxy_inv (wproxy w')"
    "pending_uuids (wproxy w') = us"
    "wentries w' = wentries w @ [new_entry u (fresh_memory (the (ne_mem env)))]"
    by (rule get_new_entry_some [OF assms(1,2) Cons assms(3,4)])
  with Cons show ?thesis
    by (auto simp: new_entry_def entry_done_def flags_ok_def fresh_memory_def)
qed

theorem get_new_entry_outcome_witness:
  "\<exists>w' e. get_new_entry demo_new (demo_world [5, 6] 1 []) = Ret (1, w') \<and> winv w' \<and>
     proxy_inv (wproxy w') \<and> pending_uuids (wproxy w') = [] \<and> wentries w' = [e] \<and> uuid e = 6 \<and>
     \<not> entry_done e \<and> flags_ok e \<and> num_regions (memory e) = 0"
  using get_new_entry_outcome [of "demo_world [5, 6] 1 []" demo_new]
  by (simp add: demo_world_inv demo_proxy_inv demo_new_ok)

text \<open>C10. Whatever the environment answers, a call of \<open>process_entry\<close> that returns keeps the
  table well-formed, keeps every identifier in place, and never leaves an entry marked both
  processed and not processable. It returns 0 only when every entry is done, 1 exactly when
  it has marked one entry processed that was not done before, and a negative number with no
  entry newly marked processed. At most one entry changes.\<close>

theorem process_entry_contract:
  assumes "winv w" and "distinct (map uuid (wentries w))" and "length (wentries w) < 2 ^ 31"
    and "list_all flags_ok (wentries w)" and "process_entry env w = Ret (Some (r, w'))"
  shows "winv w' \<and> map uuid (wentries w') = map uuid (wentries w) \<and> list_all flags_ok (wentries w') \<and>
    (r = 0 \<and> w' = w \<and> list_all entry_done (wentries w) \<or>
     r < 0 \<and> map processed (wentries w') = map processed (wentries w) \<and>
       (\<exists>i e. wentries w' = (wentries w)[i := e]) \<or>
     r = 1 \<and> (\<exists>i e. i < length (wentries w) \<and> \<not> entry_done (wentries w ! i) \<and>
       wentries w' = (wentries w)[i := e] \<and> processed e))"
  by (rule process_entry_cases [OF assms])

theorem process_entry_contract_witness:
  "\<exists>w'. process_entry ((demo_pe [])\<lparr>pe_vmfd := -1\<rparr>) (demo_world [5] 1 [new_entry 5 demo_memory]) =
      Ret (Some (-1, w')) \<and> winv w' \<and> map uuid (wentries w') = [5] \<and> list_all flags_ok (wentries w')"
proof -
  let ?w = "demo_world [5] 1 [new_entry 5 demo_memory]" and ?env = "(demo_pe [])\<lparr>pe_vmfd := -1\<rparr>"
  have w: "winv ?w" "0 < length (wentries ?w)" by (simp_all add: demo_world_inv)
  obtain t where t: "table_set_xxx (int 0) (\<lambda>e. e\<lparr>could_not_process := True\<rparr>) (wtable ?w) = Ret t"
    by (rule set_entry [OF w])
  have n: "get_table_num_entries (wtable ?w) = 1" using num_entries_small [OF w(1)] by simp
  have "process_entry ?env ?w = Ret (Some (-1, ?w\<lparr>wtable := t\<rparr>))"
    using n t copy_entry [OF w, of True]
    by (simp add: process_entry_def pe_create_vm_def pe_fail_def demo_pe_def) (simp add: new_entry_def)
  with process_entry_contract [OF w(1) _ _ _ this] show ?thesis
    by (simp add: new_entry_def flags_ok_def)
qed





text \<open>C30. The guest loop ends as soon as the guest halts: after any number of exits the loop
  continues on, the halt makes it return 1 with the entry marked processed, and what it
  printed is the serial bytes of those exits in order.\<close>

theorem guest_loop_halts:
  assumes "winv w" and "i < length (wentries w)" and "run \<noteq> MAP_FAILED"
    and "list_all guest_goes_on pre"
  shows "\<exists>w'. kvm_run_loop run (int i) (pre @ (0, ExitHlt) # rest) w = Ret (Some (1, w')) \<and>
    wentries w' = (wentries w)[i := (wentries w ! i)\<lparr>processed := True\<rparr>] \<and>
    wout w' = wout w @ concat (map serial_byte pre)"
proof -
  let ?w1 = "w\<lparr>wout := wout w @ concat (map serial_byte pre)\<rparr>"
  have w1: "winv ?w1" "i < length (wentries ?w1)" using assms(1,2) by simp_all
  obtain t where "table_set_xxx (int i) (\<lambda>e. e\<lparr>processed := True\<rparr>) (wtable ?w1) = Ret t" "errno t = 0"
    "wentries (?w1\<lparr>wtable := t\<rparr>) = (wentries ?w1)[i := (wentries ?w1 ! i)\<lparr>processed := True\<rparr>]"
    by (rule set_entry [OF w1])
  then show ?thesis
    using assms(3) by (intro exI [of _ "?w1\<lparr>wtable := t\<rparr>"]) (simp add: kvm_run_loop_prefix [OF assms(3,4)])
qed

theorem guest_loop_halts_witness:
  "\<exists>w'. kvm_run_loop 0x800000 0 [(0, ExitIo True 1 0x3f8 1 52), (0, ExitOther), (0, ExitHlt)]
      (demo_world [5] 1 [new_entry 5 demo_memory]) = Ret (Some (1, w')) \<and>
    wentries w' = [(new_entry 5 demo_memory)\<lparr>processed := True\<rparr>] \<and> wout w' = [52]"
  using guest_loop_halts [of "demo_world [5] 1 [new_entry 5 demo_memory]" 0 "0x800000"
      "[(0, ExitIo True 1 0x3f8 1 52), (0, ExitOther)]" "[]"]
  by (simp add: demo_world_inv MAP_FAILED_def guest_goes_on_def serial_byte_def serial_out_def)

text \<open>The sample module runs to its end under the server: the run loop prints the sum of the
  low bytes of the first two registers as a character counted from '0', then a newline, and
  marks the entry processed. With the registers the server sets up the output is "4" and a
  newline.\<close>

theorem sample_module_output:
  assumes "winv w" and "i < length (wentries w)" and "run \<noteq> MAP_FAILED"
  shows "\<exists>w'. kvm_run_loop run (int i) (guest_exits hello_world2_start (guest_start r)) w = Ret (Some (1, w')) \<and>
    wentries w' = (wentries w)[i := (wentries w ! i)\<lparr>processed := True\<rparr>] \<and>
    wout w' = wout w @ [ucast (rax r) + ucast (rbx r) + 0x30, 0x0a] \<and>
    (r = initial_regs \<longrightarrow> wout w' = wout w @ map of_char [CHR ''4'', CHR 0x0A])"
proof -
  let ?b = "ucast (rax r) + ucast (rbx r) + 0x30 :: u8"
  let ?pre = "[(0, ExitIo True 1 0x3f8 1 ?b), (0, ExitIo True 1 0x3f8 1 0x0a)]"
  have go: "list_all guest_goes_on ?pre" by (simp add: guest_goes_on_def)
  let ?w1 = "w\<lparr>wout := wout w @ [?b, 0x0a]\<rparr>"
  have w1: "winv ?w1" "i < length (wentries ?w1)" using assms(1,2) by simp_all
  obtain t where t: "table_set_xxx (int i) (\<lambda>e. e\<lparr>processed := True\<rparr>) (wtable ?w1) = Ret t" "errno t = 0"
    "wentries (?w1\<lparr>wtable := t\<rparr>) = (wentries ?w1)[i := (wentries ?w1 ! i)\<lparr>processed := True\<rparr>]"
    by (rule set_entry [OF w1])
  have "kvm_run_loop run (int i) (guest_exits hello_world2_start (guest_start r)) w =
      Ret (Some (1, ?w1\<lparr>wtable := t\<rparr>))"
    unfolding hello_world2_exits kvm_run_loop_prefix [OF assms(3) go]
    using t(1,2) assms(3) by (simp add: serial_byte_def serial_out_def)
  then show ?thesis
    using t(3) by (intro exI [of _ "?w1\<lparr>wtable := t\<rparr>"]) (simp add: initial_regs_def)
qed

theorem sample_module_output_witness:
  "\<exists>w'. kvm_run_loop 0x800000 0 (guest_exits hello_world2_start (guest_start initial_regs))
      (demo_world [5] 1 [new_entry 5 demo_memory]) = Ret (Some (1, w')) \<and> wout w' = [0x34, 0x0a]"
  using sample_module_output [of "demo_world [5] 1 [new_entry 5 demo_memory]" 0 "0x800000" initial_regs]
  by (auto simp: demo_world_inv MAP_FAILED_def)

text \<open>A failed \<open>mmap\<close> of the run structure is not detected: the result is compared with
  NULL, \<open>mmap\<close> reports failure as \<open>MAP_FAILED\<close>, and the first completed \<open>KVM_RUN\<close>
  makes the loop read through it.\<close>

theorem run_mapping_failure_undetected:
  assumes "winv w" and "i < length (wentries w)"
    and "0 \<le> pe_vcpufd env" and "0 \<le> pe_sizeof_run env" and "pe_sizeof_run env \<le> pe_mmap_size env"
    and "pe_run env = MAP_FAILED" and "0 \<le> pe_get_sregs env" and "0 \<le> pe_set_sregs env"
    and "pe_copy_regs env" and "0 \<le> pe_set_regs env initial_regs"
    and "pe_exits env initial_regs = (r, x) # rest" and "0 \<le> r"
  shows "pe_vcpu env (int i) w = Crash BadPointer"
proof -
  obtain t where t: "table_set_xxx (int i) (\<lambda>e. e\<lparr>vcpufd := pe_vcpufd env\<rparr>) (wtable w) = Ret t"
      "errno t = 0" "winv (w\<lparr>wtable := t\<rparr>)"
      "wentries (w\<lparr>wtable := t\<rparr>) = (wentries w)[i := (wentries w ! i)\<lparr>vcpufd := pe_vcpufd env\<rparr>]"
    by (rule set_entry [OF assms(1,2)])
  have "i < length (wentries (w\<lparr>wtable := t\<rparr>))" using t(4) assms(2) by simp
  from copy_entry [OF t(3) this, of True] t(1,2) assms(3-12) show ?thesis
    by (simp add: pe_vcpu_def pe_start_cpu_def Let_def MAP_FAILED_def)
qed

theorem run_mapping_failure_undetected_witness:
  "pe_vcpu ((demo_pe [(0, ExitHlt)])\<lparr>pe_run := MAP_FAILED\<rparr>) 0 (demo_world [5] 1 [new_entry 5 demo_memory]) =
     Crash BadPointer"
  using run_mapping_failure_undetected [of "demo_world [5] 1 [new_entry 5 demo_memory]" 0
      "(demo_pe [(0, ExitHlt)])\<lparr>pe_run := MAP_FAILED\<rparr>" 0 ExitHlt "[]"]
  by (simp add: demo_world_inv demo_pe_def)

end
