(* ===== verification/Proc_Entry.thy ===== *)
theory Proc_Entry
  imports Char_Device
begin

text \<open>
  How the server learns the major number of the device: the module prints its state in
  \<open>lxc_uio_proc_show\<close> (\<open>lxc-uio-proxy.c\<close>), the server reads that file and parses the
  second line in \<open>get_major_number\<close> (\<open>kvm-host-server.c\<close>). Text is a list of
  characters; the conversions \<open>%d\<close> and \<open>%lld\<close> and the parts of \<open>isdigit\<close>,
  \<open>getdelim\<close> and \<open>strtol\<close> in use are modelled. The main result is the round trip.
\<close>

subsection \<open>Printing\<close>

definition digit_char :: "nat \<Rightarrow> char" where
  "digit_char d = char_of (48 + d)"

fun nat_str :: "nat \<Rightarrow> string" where
  "nat_str n = (if n < 10 then [digit_char n] else nat_str (n div 10) @ [digit_char (n mod 10)])"

declare nat_str.simps [simp del]

definition int_str :: "int \<Rightarrow> string" where
  "int_str i = (if i < 0 then CHR ''-'' # nat_str (nat (- i)) else nat_str (nat i))"

definition newline :: char where
  "newline = CHR 0x0A"

definition cdev_name :: string where
  "cdev_name = ''lxc-uio-proxy''"

text \<open>\<open>addr\<close> is what \<open>%p\<close> prints for the address of the table.\<close>

definition lxc_uio_proc_show :: "string \<Rightarrow> 'e proxy \<Rightarrow> string" where
  "lxc_uio_proc_show addr st =
     cdev_name @ '' '' @ [newline] @
     ''major number ['' @ int_str (lxc_uio_cdev_major_number st) @ ''] '' @ [newline] @
     ''module_table: {address ['' @ addr @ ''],table_size ['' @ int_str (table_size (ptable st)) @
     ''], num_entries ['' @ int_str (table_num_entries (ptable st)) @
     ''], table_index ['' @ int_str (table_index (ptable st)) @ ''] }'' @ [newline]"

subsection \<open>Parsing\<close>

definition isdigit :: "char \<Rightarrow> bool" where
  "isdigit c \<longleftrightarrow> 48 \<le> (of_char c :: nat) \<and> (of_char c :: nat) \<le> 57"

text \<open>\<open>getdelim\<close> with delimiter newline: the line, with its newline if there is one, and
  the rest of the file; nothing at the end of the file.\<close>

definition getdelim :: "string \<Rightarrow> (string \<times> string) option" where
  "getdelim s =
     (if s = [] then None
      else Some (takeWhile (\<lambda>c. c \<noteq> newline) s @ take 1 (dropWhile (\<lambda>c. c \<noteq> newline) s),
                 drop 1 (dropWhile (\<lambda>c. c \<noteq> newline) s)))"

text \<open>The loop that looks for the first digit of the line; \<open>None\<close>: it ran past the end.\<close>

primrec find_digit :: "string \<Rightarrow> string option" where
  "find_digit [] = None"
| "find_digit (c # cs) = (if isdigit c then Some (c # cs) else find_digit cs)"

definition LONG_MAX :: int where
  "LONG_MAX = 2 ^ 63 - 1"

definition ERANGE :: int where
  "ERANGE = 34"

definition EINVAL :: int where
  "EINVAL = 22"

definition digits_val :: "string \<Rightarrow> int" where
  "digits_val ds = foldl (\<lambda>v c. v * 10 + (int (of_char c) - 48)) 0 ds"

text \<open>\<open>strtol(p,NULL,10)\<close> at a digit: the value, and \<open>errno\<close>, which only an overflow
  changes.\<close>

definition strtol :: "string \<Rightarrow> int \<Rightarrow> int \<times> int" where
  "strtol p err =
     (let v = digits_val (takeWhile isdigit p)
      in if v > LONG_MAX then (LONG_MAX, ERANGE) else (v, err))"

text \<open>What the calls of \<open>get_major_number\<close> answer.\<close>

record major_env =
  access_F_OK :: int
  access_R_OK :: int
  fopen_ok :: bool
  malloc_ok :: bool
  errno_before :: int

definition largest_int :: int where
  "largest_int = 2 ^ 31 - 1"

text \<open>The number found on a line: the scan, \<open>strtol\<close>, the checks of \<open>errno\<close> and of the
  range.\<close>

definition line_major :: "int \<Rightarrow> string \<Rightarrow> int" where
  "line_major err line =
     (case find_digit line of
        None \<Rightarrow> -1
      | Some p \<Rightarrow>
          (case strtol p err of (major_number_long, err') \<Rightarrow>
             if err' = EINVAL then -1
             else if err' = ERANGE then -1
             else if err' \<noteq> 0 then -1
             else if major_number_long > largest_int then -1
             else major_number_long))"

definition get_major_number :: "major_env \<Rightarrow> string \<Rightarrow> int" where
  "get_major_number env file =
     (if access_F_OK env < 0 then -1
      else if access_R_OK env < 0 then -1
      else if \<not> fopen_ok env then -1
      else if \<not> malloc_ok env then -1
      else case getdelim file of
        None \<Rightarrow> -1
      | Some (_, rest) \<Rightarrow>
          (case getdelim rest of
             None \<Rightarrow> -1
           | Some (line, _) \<Rightarrow> line_major (errno_before env) line))"

subsection \<open>Lemmas\<close>

lemma of_char_digit_char: "d < 10 \<Longrightarrow> (of_char (digit_char d) :: nat) = 48 + d"
  by (simp add: digit_char_def)

lemma isdigit_digit_char [simp]: "d < 10 \<Longrightarrow> isdigit (digit_char d)"
  by (simp add: isdigit_def of_char_digit_char)

lemma nat_str_digits: "list_all isdigit (nat_str n)"
  by (induction n rule: nat_str.induct) (subst nat_str.simps, simp)

lemma nat_str_neq_Nil: "nat_str n \<noteq> []"
  by (subst nat_str.simps) simp

lemma digits_val_snoc: "digits_val (ds @ [c]) = digits_val ds * 10 + (int (of_char c) - 48)"
  by (simp add: digits_val_def)

lemma digits_val_nat_str: "digits_val (nat_str n) = int n"
proof (induction n rule: nat_str.induct)
  case (1 n)
  show ?case
  proof (cases "n < 10")
    case True
    then show ?thesis
      by (subst nat_str.simps) (simp add: digits_val_def of_char_digit_char)
  next
    case False
    have "int (n div 10) * 10 + int (n mod 10) = int n"
      by (metis div_mult_mod_eq of_nat_add of_nat_mult of_nat_numeral)
    with 1 [OF False] False show ?thesis
      by (subst nat_str.simps) (simp add: digits_val_snoc of_char_digit_char)
  qed
qed

lemma digit_not_newline: "isdigit c \<Longrightarrow> c \<noteq> newline"
  by (auto simp: isdigit_def newline_def)

lemma takeWhile_digits:
  "list_all isdigit ds \<Longrightarrow> \<not> isdigit c \<Longrightarrow> takeWhile isdigit (ds @ c # cs) = ds"
  by (induction ds) simp_all

lemma find_digit_skip:
  "list_all (\<lambda>c. \<not> isdigit c) pre \<Longrightarrow> find_digit (pre @ cs) = find_digit cs"
  by (induction pre) simp_all

lemma getdelim_line:
  assumes "newline \<notin> set l"
  shows "getdelim (l @ newline # rest) = Some (l @ [newline], rest)"
proof -
  have "takeWhile (\<lambda>c. c \<noteq> newline) (l @ newline # rest) = l"
    "dropWhile (\<lambda>c. c \<noteq> newline) (l @ newline # rest) = newline # rest"
    using assms by (induction l) auto
  then show ?thesis by (simp add: getdelim_def)
qed

lemma line_major_roundtrip:
  assumes "n < 2 ^ 31"
  shows "line_major 0 (''major number ['' @ nat_str n @ CHR '']'' # post) = int n"
proof -
  have pre: "list_all (\<lambda>c. \<not> isdigit c) ''major number [''"
    by (simp add: isdigit_def)
  obtain d ds where d: "nat_str n = d # ds" using nat_str_neq_Nil by (cases "nat_str n") auto
  have "isdigit d" using nat_str_digits [of n] d by simp
  then have "find_digit (''major number ['' @ nat_str n @ CHR '']'' # post) =
      Some (nat_str n @ CHR '']'' # post)"
    by (simp only: find_digit_skip [OF pre]) (simp add: d)
  moreover have "takeWhile isdigit (nat_str n @ CHR '']'' # post) = nat_str n"
    by (rule takeWhile_digits [OF nat_str_digits]) (simp add: isdigit_def)
  ultimately show ?thesis
    using assms
    by (simp add: line_major_def strtol_def digits_val_nat_str LONG_MAX_def largest_int_def
        EINVAL_def ERANGE_def)
qed

lemma nat_str_no_newline: "newline \<notin> set (nat_str n)"
  using nat_str_digits [of n] digit_not_newline by (auto simp: list_all_iff)

definition major_env_ok :: "major_env \<Rightarrow> bool" where
  "major_env_ok env \<longleftrightarrow>
     0 \<le> access_F_OK env \<and> 0 \<le> access_R_OK env \<and> fopen_ok env \<and> malloc_ok env \<and> errno_before env = 0"

lemma get_major_number_second_line:
  assumes "major_env_ok env" and "newline \<notin> set l1" and "newline \<notin> set l2"
  shows "get_major_number env (l1 @ newline # l2 @ newline # rest) = line_major 0 (l2 @ [newline])"
  using assms
  by (simp add: get_major_number_def major_env_ok_def getdelim_line)

lemma proc_roundtrip:
  assumes env: "major_env_ok env" and rng: "0 \<le> lxc_uio_cdev_major_number st" "lxc_uio_cdev_major_number st < 2 ^ 31"
  shows "get_major_number env (lxc_uio_proc_show addr st) = lxc_uio_cdev_major_number st"
proof -
  let ?n = "nat (lxc_uio_cdev_major_number st)"
  let ?l1 = "cdev_name @ '' ''" and ?l2 = "''major number ['' @ nat_str ?n @ ''] ''"
  obtain rest where s: "lxc_uio_proc_show addr st = ?l1 @ newline # ?l2 @ newline # rest"
    using rng(1) by (simp add: lxc_uio_proc_show_def int_str_def)
  have nl: "newline \<notin> set ?l1" "newline \<notin> set ?l2"
    using nat_str_no_newline [of ?n] by (auto simp: cdev_name_def newline_def)
  have "get_major_number env (lxc_uio_proc_show addr st) = line_major 0 (?l2 @ [newline])"
    unfolding s by (rule get_major_number_second_line [OF env nl])
  also have "\<dots> = int ?n"
    using line_major_roundtrip [of ?n "'' '' @ [newline]"] rng by simp
  finally show ?thesis using rng(1) by simp
qed

text \<open>A stale \<open>errno\<close> makes the call fail whatever the file says.\<close>

lemma get_major_number_stale_errno:
  assumes "errno_before env \<noteq> 0"
  shows "get_major_number env file = -1"
  using assms
  by (auto simp: get_major_number_def line_major_def strtol_def Let_def ERANGE_def
      split: option.splits if_splits)

end
