(* ===== verification/Loop_Interface.thy ===== *)
theory Loop_Interface
  imports Prelude
begin

text \<open>
  The contract behind the loops \<open>ret_val=1; while(ret_val>0){ ret_val=f(); }\<close> of the
  server: a call of \<open>f\<close> returns 1 when it has done one piece of work, 0 when there is
  none left, and a negative number on an error. \<open>call_until\<close> is the loop, each call
  taking what the system answers from a list; it yields the last result, the state and the
  answers not used, or \<open>None\<close> when the list ends first. The locale \<open>work_loop\<close> states
  the contract of \<open>f\<close>; its lemma is that the loop ends, after one call per piece of work
  and a last one that finds none.
\<close>

primrec call_until ::
    "('e \<Rightarrow> 's \<Rightarrow> (int \<times> 's) option exec) \<Rightarrow> 'e list \<Rightarrow> 's \<Rightarrow> (int \<times> 's \<times> 'e list) option exec" where
  "call_until f [] s = Ret None"
| "call_until f (e # es) s =
     exec_bind (f e s) (\<lambda>p.
       case p of
         None \<Rightarrow> Ret None
       | Some (r, s') \<Rightarrow> if r > 0 then call_until f es s' else Ret (Some (r, s', es)))"

locale work_loop =
  fixes call :: "'e \<Rightarrow> 's \<Rightarrow> (int \<times> 's) option exec"
    and ok :: "'e \<Rightarrow> bool"
    and inv :: "'s \<Rightarrow> bool"
    and left :: "'s \<Rightarrow> nat"
    and rel :: "'s \<Rightarrow> 's \<Rightarrow> bool"
  assumes work:
      "inv s \<Longrightarrow> ok e \<Longrightarrow> left s = Suc n \<Longrightarrow>
         \<exists>s'. call e s = Ret (Some (1, s')) \<and> inv s' \<and> left s' = n \<and> rel s s'"
    and idle:
      "inv s \<Longrightarrow> ok e \<Longrightarrow> left s = 0 \<Longrightarrow>
         \<exists>s'. call e s = Ret (Some (0, s')) \<and> inv s' \<and> left s' = 0 \<and> rel s s'"
    and rel_trans: "rel s s1 \<Longrightarrow> rel s1 s2 \<Longrightarrow> rel s s2"
begin

lemma loop_ends:
  "inv s \<Longrightarrow> list_all ok es \<Longrightarrow> left s < length es \<Longrightarrow>
     \<exists>s'. call_until call es s = Ret (Some (0, s', drop (Suc (left s)) es)) \<and>
       inv s' \<and> left s' = 0 \<and> rel s s'"
proof (induction es arbitrary: s)
  case Nil
  then show ?case by simp
next
  case (Cons e es)
  show ?case
  proof (cases "left s")
    case 0
    with idle [of s e] Cons.prems show ?thesis by auto
  next
    case (Suc n)
    with work [of s e n] Cons.prems obtain s1 where s1: "call e s = Ret (Some (1, s1))" "inv s1"
        "left s1 = n" "rel s s1"
      by auto
    with Cons.prems Suc have "list_all ok es" "left s1 < length es" by simp_all
    from Cons.IH [OF s1(2) this] obtain s' where
        "call_until call es s1 = Ret (Some (0, s', drop (Suc n) es))" "inv s'" "left s' = 0" "rel s1 s'"
      using s1(3) by auto
    with s1 Suc show ?thesis by (auto intro: rel_trans)
  qed
qed

end

end
