(* ===== verification/Server_Main.thy ===== *)
theory Server_Main
  imports Host_Server Proc_Entry Loop_Interface
begin

text \<open>
  The main program of the server (\<open>kvm-host-server.c\<close>): set-up and registration, the
  loop that drains the proxy, the loop that processes the entries, the event loop, and the
  clean-up. The program is a machine over phases, one phase per call of \<open>main\<close> that may
  block or change shared state; the answers of the system to the calls of a step are in the
  record \<open>step_env\<close>. \<open>sys_step\<close> interleaves it with insertions by containers.

  The event file is a parameter: \<open>efd_ops\<close> has the test whether it is readable and what
  reading it leaves. \<open>eventfd_laws\<close> states the documented behaviour: signalling makes it
  readable, reading it clears it.
\<close>

subsection \<open>Registration\<close>

definition register_server :: "'e kservices \<Rightarrow> int \<Rightarrow> 'e world \<Rightarrow> (int \<times> 'e world) exec" where
  "register_server sv efd w = dev_ioctl sv (kvm_host_server_register (wmajor w)) (word_of_int efd) w"

definition deregister_server :: "'e kservices \<Rightarrow> 'e world \<Rightarrow> (int \<times> 'e world) exec" where
  "deregister_server sv w = dev_ioctl sv (kvm_host_server_de_register (wmajor w)) 0 w"

subsection \<open>main\<close>

datatype phase = Drain | Process | Wait | Serve | ReadEvent | ProcessOne | Exited int

text \<open>The label \<open>out_deregister\<close>, and \<open>out_table\<close> before it. The result of \<open>main\<close>
  is the one of \<open>deregister_server\<close>.\<close>

definition out_deregister :: "'e kservices \<Rightarrow> 'e world \<Rightarrow> (phase \<times> 'e world) exec" where
  "out_deregister sv w = exec_bind (deregister_server sv w) (\<lambda>(ret_val, w'). Ret (Exited ret_val, w'))"

definition out_table :: "'e kservices \<Rightarrow> 'e world \<Rightarrow> (phase \<times> 'e world) exec" where
  "out_table sv w = out_deregister sv (w\<lparr>wtable := snd (table_delete (wtable w))\<rparr>)"

record 'e setup_env =
  su_major :: major_env
  su_file :: string
  su_kvm_open :: int
  su_kvm_ext :: int
  su_eventfd :: int
  su_cdev_open :: int
  su_sv :: "'e kservices"
  su_alloc :: alloc_res

definition main_setup :: "'e setup_env \<Rightarrow> 'e world \<Rightarrow> (phase \<times> 'e world) exec" where
  "main_setup env w0 =
     (let major_number = get_major_number (su_major env) (su_file env) in
      if major_number < 0 then Ret (Exited (-1), w0)
      else let w = w0\<lparr>wmajor := major_number\<rparr> in
      if su_kvm_open env < 0 then Ret (Exited (-1), w)
      else if su_kvm_ext env < 0 then Ret (Exited (su_kvm_ext env), w)
      else if su_kvm_ext env = 0 then Ret (Exited 0, w)
      else if su_eventfd env < 0 then Ret (Exited (-1), w)
      else if su_cdev_open env < 0 then Ret (Exited (-1), w)
      else exec_bind (register_server (su_sv env) (su_eventfd env) w) (\<lambda>(ret_val, w1).
        if ret_val < 0 then Ret (Exited ret_val, w1)
        else case table_init (su_alloc env) (wtable w1) of (ret_val, t) \<Rightarrow>
          if ret_val < 0 then out_deregister (su_sv env) (w1\<lparr>wtable := t\<rparr>)
          else Ret (Drain, w1\<lparr>wtable := t\<rparr>)))"

text \<open>\<open>st_ctx\<close> is the context of the server's event file and \<open>st_efd_read\<close> what reading
  it leaves; \<open>st_read\<close> is the result of that \<open>read\<close>.\<close>

record 'e step_env =
  st_new :: "'e new_env"
  st_pe :: "'e pe_env"
  st_sv :: "'e kservices"
  st_select :: int
  st_isset :: bool
  st_read :: int
  st_ctx :: nat
  st_efd_read :: "'e \<Rightarrow> 'e"

definition read_event :: "'e step_env \<Rightarrow> 'e world \<Rightarrow> 'e world" where
  "read_event env w =
     w\<lparr>wproxy := (wproxy w)\<lparr>efds := (efds (wproxy w))
        (st_ctx env := st_efd_read env (efds (wproxy w) (st_ctx env)))\<rparr>\<rparr>"

definition some_ret :: "'a exec \<Rightarrow> 'a option exec" where
  "some_ret x = exec_bind x (\<lambda>y. Ret (Some y))"

definition main_new :: "phase \<Rightarrow> phase \<Rightarrow> 'e step_env \<Rightarrow> 'e world \<Rightarrow> (phase \<times> 'e world) exec" where
  "main_new again none env w =
     exec_bind (get_new_entry (st_new env) w) (\<lambda>(ret_val, w1).
       if ret_val > 0 then Ret (again, w1)
       else if ret_val = 0 then Ret (none, w1)
       else out_table (st_sv env) w1)"

text \<open>A call of \<open>process_entry\<close> and what \<open>main\<close> does with its result.\<close>

definition main_pe :: "(int \<Rightarrow> 'e world \<Rightarrow> (phase \<times> 'e world) exec) \<Rightarrow> 'e step_env \<Rightarrow> 'e world \<Rightarrow>
    (phase \<times> 'e world) option exec" where
  "main_pe cont env w =
     exec_bind (process_entry (st_pe env) w) (\<lambda>p.
       case p of None \<Rightarrow> Ret None | Some (ret_val, w1) \<Rightarrow> some_ret (cont ret_val w1))"

primrec main_step :: "'e step_env \<Rightarrow> phase \<Rightarrow> 'e world \<Rightarrow> (phase \<times> 'e world) option exec" where
  "main_step env Drain w = some_ret (main_new Drain Process env w)"
| "main_step env Process w =
     main_pe (\<lambda>ret_val w1.
       if ret_val > 0 then Ret (Process, w1)
       else if ret_val = 0 then Ret (Wait, w1)
       else out_table (st_sv env) w1) env w"
| "main_step env Wait w =
     (if st_select env < 0 then some_ret (out_table (st_sv env) w)
      else if st_isset env then Ret (Some (Serve, w)) else Ret (Some (Wait, w)))"
| "main_step env Serve w =
     some_ret (exec_bind (get_new_entry (st_new env) w) (\<lambda>(ret_val, w1).
       if ret_val = 0 then out_table (st_sv env) w1
       else if ret_val = 1 then Ret (ReadEvent, w1)
       else out_table (st_sv env) w1))"
| "main_step env ReadEvent w =
     (if st_read env \<noteq> 8 then some_ret (out_table (st_sv env) w)
      else Ret (Some (ProcessOne, read_event env w)))"
| "main_step env ProcessOne w =
     main_pe (\<lambda>ret_val2 w1.
       if ret_val2 = 1 then Ret (Wait, w1) else out_table (st_sv env) w1) env w"
| "main_step env (Exited r) w = Ret (Some (Exited r, w))"

text \<open>A run of \<open>main\<close>, one environment per step; \<open>None\<close> when a call does not return.\<close>

primrec main_run :: "'e step_env list \<Rightarrow> phase \<Rightarrow> 'e world \<Rightarrow> (phase \<times> 'e world) option exec" where
  "main_run [] ph w = Ret (Some (ph, w))"
| "main_run (env # envs) ph w =
     exec_bind (main_step env ph w) (\<lambda>p.
       case p of None \<Rightarrow> Ret None | Some (ph', w') \<Rightarrow> main_run envs ph' w')"

text \<open>\<open>signal_callback_handler\<close>: the exit status for a signal.\<close>

definition SIGINT :: int where
  "SIGINT = 2"

definition signal_callback_handler :: "'e kservices \<Rightarrow> int \<Rightarrow> 'e world \<Rightarrow> (phase \<times> 'e world) exec" where
  "signal_callback_handler sv signum w =
     (if signum = SIGINT then out_deregister sv w else Ret (Exited 0, w))"

subsection \<open>The system\<close>

record 'e efd_ops =
  efd_ready :: "'e \<Rightarrow> bool"
  efd_read :: "'e \<Rightarrow> 'e"

definition eventfd_laws :: "'e efd_ops \<Rightarrow> 'e kservices \<Rightarrow> bool" where
  "eventfd_laws ops sv \<longleftrightarrow>
     (\<forall>x. efd_ready ops (eventfd_signal sv x)) \<and> (\<forall>x. \<not> efd_ready ops (efd_read ops x))"

text \<open>
  The environment of a step is sane: the calls of \<open>get_new_entry\<close> succeed, reading the
  event file does what \<open>ops\<close> says, and \<open>select\<close>, when it does not fail, returns with
  the file readable.
\<close>

definition step_env_ok :: "'e efd_ops \<Rightarrow> nat \<Rightarrow> 'e step_env \<Rightarrow> phase \<Rightarrow> 'e world \<Rightarrow> bool" where
  "step_env_ok ops c env ph w \<longleftrightarrow>
     st_ctx env = c \<and> st_efd_read env = efd_read ops \<and>
     (ph = Drain \<or> ph = Serve \<longrightarrow> new_env_ok (st_new env) (wtable w)) \<and>
     (ph = Wait \<and> 0 \<le> st_select env \<longrightarrow> st_isset env \<and> efd_ready ops (efds (wproxy w) c))"

inductive sys_step ::
    "'e efd_ops \<Rightarrow> nat \<Rightarrow> phase \<times> 'e world \<Rightarrow> u128 list \<Rightarrow> phase \<times> 'e world \<Rightarrow> bool" for ops c where
  container: "kmodules (wproxy w) md = Some km \<Longrightarrow> module_ok km \<Longrightarrow>
    mt_put_ok (krealloc_mt sv) (ptable (wproxy w)) \<Longrightarrow>
    lxc_uio_proxy_put_module_1 sv u ns md (wproxy w) = Ret (r, px) \<Longrightarrow>
    sys_step ops c (ph, w) [u] (ph, w\<lparr>wproxy := px\<rparr>)"
| server: "step_env_ok ops c env ph w \<Longrightarrow> main_step env ph w = Ret (Some (ph', w')) \<Longrightarrow>
    sys_step ops c (ph, w) [] (ph', w')"

inductive sys_run ::
    "'e efd_ops \<Rightarrow> nat \<Rightarrow> phase \<times> 'e world \<Rightarrow> u128 list \<Rightarrow> phase \<times> 'e world \<Rightarrow> bool" for ops c where
  nil: "sys_run ops c s [] s"
| snoc: "sys_run ops c s us s1 \<Longrightarrow> sys_step ops c s1 vs s2 \<Longrightarrow> sys_run ops c s (us @ vs) s2"

inductive_cases sys_stepE: "sys_step ops c (ph, w) us s'"

lemmas main_defs [server_defs] =
  register_server_def deregister_server_def out_deregister_def out_table_def main_setup_def
  read_event_def some_ret_def main_new_def main_pe_def

lemma some_ret_Ret [simp]: "some_ret (Ret x) = Ret (Some x)" "some_ret (Crash f) = Crash f"
  by (simp_all add: some_ret_def)

lemma some_ret_eq [simp]: "some_ret x = Ret (Some y) \<longleftrightarrow> x = Ret y"
  by (cases x) simp_all

subsection \<open>What process\_entry leaves alone\<close>

text \<open>The calls below only read the proxy, as long as the server uses the device's own
  major number.\<close>

definition same_proxy :: "'e world \<Rightarrow> 'e world \<Rightarrow> bool" where
  "same_proxy w w' \<longleftrightarrow> wproxy w' = wproxy w \<and> wmajor w' = wmajor w"

definition major_agrees :: "'e world \<Rightarrow> bool" where
  "major_agrees w \<longleftrightarrow> wmajor w = lxc_uio_cdev_major_number (wproxy w)"

lemma same_proxy_refl [simp]: "same_proxy w w" "same_proxy w (w\<lparr>wtable := t\<rparr>)"
  "same_proxy w (w\<lparr>wmem := m\<rparr>)" "same_proxy w (w\<lparr>wout := b\<rparr>)" "same_proxy w (set_errno x w)"
  by (simp_all add: same_proxy_def)

lemma same_proxy_trans: "same_proxy w w1 \<Longrightarrow> same_proxy w1 w2 \<Longrightarrow> same_proxy w w2"
  by (simp add: same_proxy_def)

lemma same_proxy_major: "same_proxy w w' \<Longrightarrow> major_agrees w \<Longrightarrow> major_agrees w'"
  by (simp add: same_proxy_def major_agrees_def)

lemma add_region_same: "add_region i fill kr w = Ret (fl, w') \<Longrightarrow> same_proxy w w'"
  using add_region_frame [of i fill kr w fl w'] by (simp add: same_proxy_def)

lemma get_uuid_layout_same:
  assumes "major_agrees w" and "get_uuid_layout sv buf u (layout_number which (wmajor w)) w = Ret (p, w')"
  shows "same_proxy w w'"
proof -
  have "dev_ioctl sv (layout_number which (wmajor w)) a w1 = Ret (r, w2) \<Longrightarrow>
      wproxy w1 = wproxy w \<Longrightarrow> wproxy w2 = wproxy w \<and> wmajor w2 = wmajor w1" for a w1 r w2
    using assms(1)
    by (auto simp: dev_ioctl_def major_agrees_def cdev_ioctl_layout
        split: exec_bind_splits dest: get_layout_frame)
  then show ?thesis
    using assms(2)
    by (auto simp: get_uuid_layout_def Let_def same_proxy_def set_errno_def
        split: if_splits exec_bind_splits)
qed

lemma fetch_region_same:
  assumes "major_agrees w"
    and "exec_bind (get_uuid_layout sv buf u (layout_number which (wmajor w)) w) (\<lambda>(p, w1).
       if p = 0 then Ret (Goto r0, w1) else if mem = MAP_FAILED then Ret (Goto (-1), w1)
       else add_region i (fill (layout_at w1 p)) kr w1) = Ret (fl, w')"
  shows "same_proxy w w'"
proof -
  from assms(2) obtain p w1 where g: "get_uuid_layout sv buf u (layout_number which (wmajor w)) w = Ret (p, w1)"
    and "w' = w1 \<or> add_region i (fill (layout_at w1 p)) kr w1 = Ret (fl, w')"
    by (auto split: exec_bind_splits if_splits)
  with get_uuid_layout_same [OF assms(1) g] show ?thesis
    by (auto intro: same_proxy_trans dest: add_region_same)
qed

lemma flow_bind_same:
  assumes "flow_bind x f = Ret (fl, w')"
    and "\<And>fl1 w1. x = Ret (fl1, w1) \<Longrightarrow> same_proxy w w1"
    and "\<And>r w1 fl2 w2. same_proxy w w1 \<Longrightarrow> f r w1 = Ret (fl2, w2) \<Longrightarrow> same_proxy w w2"
  shows "same_proxy w w'"
proof -
  from assms(1) obtain fl1 w1 where x: "x = Ret (fl1, w1)"
    and f: "(case fl1 of Goto r \<Rightarrow> Ret (Goto r, w1) | Next r \<Rightarrow> f r w1) = Ret (fl, w')"
    by (auto simp: flow_bind_def exec_bind_eq_Ret_iff)
  with assms(2) have "same_proxy w w1" by blast
  with f assms(3) show ?thesis by (cases fl1) auto
qed

lemma init_entry_same:
  assumes m: "major_agrees w" and r: "init_entry env u i w = Ret (fl, w')"
  shows "same_proxy w w'"
  using r unfolding init_entry_def
proof (rule flow_bind_same)
  fix fl1 w1
  assume "init_IDT_area env i w = Ret (fl1, w1)"
  then show "same_proxy w w1"
    by (auto simp: init_IDT_area_def split: if_splits exec_bind_splits dest: add_region_same)
next
  fix r1 w1 fl2 w2
  assume s1: "same_proxy w w1"
  assume "flow_bind (init_init_area env u i r1 w1) (\<lambda>r2 w2.
    flow_bind (init_core_area env u i r2 w2) (\<lambda>r3 w3. Ret (Next 0, w3))) = Ret (fl2, w2)"
  then show "same_proxy w w2"
  proof (rule flow_bind_same)
    fix fl3 w3
    assume "init_init_area env u i r1 w1 = Ret (fl3, w3)"
    then have "same_proxy w1 w3"
      using fetch_region_same [OF same_proxy_major [OF s1 m], where which = InitLayout]
      by (simp add: init_init_area_def layout_number_def)
    with s1 show "same_proxy w w3" by (rule same_proxy_trans)
  next
    fix r3 w3 fl4 w4
    assume s3: "same_proxy w w3"
    assume "flow_bind (init_core_area env u i r3 w3) (\<lambda>r3 w3. Ret (Next 0, w3)) = Ret (fl4, w4)"
    then show "same_proxy w w4"
    proof (rule flow_bind_same)
      fix fl5 w5
      assume "init_core_area env u i r3 w3 = Ret (fl5, w5)"
      then have "same_proxy w3 w5"
        using fetch_region_same [OF same_proxy_major [OF s3 m], where which = CoreLayout]
        by (simp add: init_core_area_def layout_number_def)
      with s3 show "same_proxy w w5" by (rule same_proxy_trans)
    qed simp
  qed
qed

lemma init_scan_same:
  "major_agrees w \<Longrightarrow> init_scan env u f r0 is w = Ret (r, w') \<Longrightarrow> same_proxy w w'"
proof (induction "is" arbitrary: f r0 w)
  case Nil
  then show ?case by simp
next
  case (Cons i "is")
  from Cons.prems(2) obtain e where e: "ut_read (wtable w) (int i) = Ret e"
    by (auto simp: exec_bind_eq_Ret_iff)
  show ?case
  proof (cases "uuid e = u \<and> \<not> f")
    case True
    with Cons.prems(2) e obtain fl w1 where ie: "init_entry env u (int i) w = Ret (fl, w1)"
      and rest: "(case fl of Goto r \<Rightarrow> Ret (r, w1) | Next r \<Rightarrow> init_scan env u True r is w1) = Ret (r, w')"
      by (auto simp: exec_bind_eq_Ret_iff)
    have s1: "same_proxy w w1" by (rule init_entry_same [OF Cons.prems(1) ie])
    with rest Cons.IH [OF same_proxy_major [OF s1 Cons.prems(1)]] show ?thesis
      by (cases fl) (auto intro: same_proxy_trans)
  next
    case False
    with Cons e show ?thesis by (auto split: if_splits)
  qed
qed

lemma same_proxy_set: "same_proxy w w1 \<Longrightarrow> same_proxy w (w1\<lparr>wtable := t\<rparr>)"
  by (simp add: same_proxy_def)

lemma pe_fail_same:
  "pe_fail i q w1 = Ret (Some (r, w')) \<Longrightarrow> same_proxy w w1 \<Longrightarrow> same_proxy w w'"
  by (auto simp: pe_fail_def same_proxy_set split: exec_bind_splits)

lemma kvm_run_loop_same:
  "kvm_run_loop run i xs w1 = Ret (Some (r, w')) \<Longrightarrow> same_proxy w w1 \<Longrightarrow> same_proxy w w'"
proof (induction xs arbitrary: w1)
  case (Cons x xs)
  have "same_proxy w (w1\<lparr>wout := b\<rparr>)" for b using Cons.prems(2) by (simp add: same_proxy_def)
  with Cons show ?case by (cases "snd x") (auto simp: same_proxy_set split: if_splits exec_bind_splits)
qed simp

lemma pe_vcpu_same:
  "pe_vcpu env i w1 = Ret (Some (r, w')) \<Longrightarrow> same_proxy w w1 \<Longrightarrow> same_proxy w w'"
  by (auto simp: pe_vcpu_def pe_start_cpu_def Let_def split: exec_bind_splits if_splits
      dest!: pe_fail_same kvm_run_loop_same dest: same_proxy_set intro: same_proxy_set)

lemma pe_send_same:
  assumes p: "pe_send env i p w1 = Ret (Some (r, w'))" and s: "same_proxy w w1"
  shows "same_proxy w w'"
proof -
  from p obtain q w2 where sp: "send_packet (pe_sv env) (pe_packet env) (uuid p) (memory p) w1 = Ret (q, w2)"
    and rest: "pe_fail i q w2 = Ret (Some (r, w')) \<or> w' = w2 \<or> pe_vcpu env i w2 = Ret (Some (r, w'))"
    by (auto simp: pe_send_def split: exec_bind_splits if_splits)
  from send_packet_frame [OF sp] s have "same_proxy w w2" by (auto simp: same_proxy_def)
  with rest pe_fail_same pe_vcpu_same show ?thesis by blast
qed

lemma pe_memory_same:
  assumes m: "major_agrees w" and p: "pe_memory env i p w1 = Ret (Some (r, w'))" and s: "same_proxy w w1"
  shows "same_proxy w w'"
proof -
  from p obtain q w2 where im: "initialize_memory_uuid (pe_init env) (uuid p) w1 = Ret (q, w2)"
    and rest: "pe_fail i q w2 = Ret (Some (r, w')) \<or> w' = w2 \<or> (\<exists>e. pe_send env i e w2 = Ret (Some (r, w')))"
    by (fastforce simp: pe_memory_def split: exec_bind_splits if_splits option.splits)
  have "same_proxy w1 w2"
    using im init_scan_same [OF same_proxy_major [OF s m]] by (simp add: initialize_memory_uuid_def)
  with s have "same_proxy w w2" by (rule same_proxy_trans)
  with rest pe_fail_same pe_send_same show ?thesis by blast
qed

lemma process_entry_same:
  assumes m: "major_agrees w" and r: "process_entry env w = Ret (Some (r, w'))"
  shows "same_proxy w w'"
proof -
  have "pe_scan env is w = Ret (Some (r, w')) \<Longrightarrow> same_proxy w w'" for "is"
  proof (induction "is")
    case (Cons i "is")
    then show ?case
      by (auto simp: pe_create_vm_def Let_def split: exec_bind_splits if_splits option.splits
          dest!: pe_fail_same pe_memory_same [OF m])
  qed simp
  with r show ?thesis
    by (auto simp: process_entry_def Let_def split: if_splits)
qed

subsection \<open>The invariant of the system\<close>

text \<open>
  While the server runs: both tables are well-formed, the server uses the device's major
  number, no entry carries contradictory flags, and the identifiers in the server's table
  followed by those pending in the proxy are \<open>ids\<close>.
\<close>

definition running_inv :: "u128 list \<Rightarrow> 'e world \<Rightarrow> bool" where
  "running_inv ids w \<longleftrightarrow>
     winv w \<and> proxy_inv (wproxy w) \<and> major_agrees w \<and> list_all flags_ok (wentries w) \<and>
     map uuid (wentries w) @ pending_uuids (wproxy w) = ids"

definition sys_inv :: "u128 list \<Rightarrow> phase \<times> 'e world \<Rightarrow> bool" where
  "sys_inv ids s \<longleftrightarrow> (case fst s of Exited r \<Rightarrow> True | _ \<Rightarrow> running_inv ids (snd s))"

lemma sys_invI: "running_inv ids w \<Longrightarrow> sys_inv ids (ph, w)"
  by (cases ph) (simp_all add: sys_inv_def)

lemma out_table_exits: "out_table sv w = Ret (ph, w') \<Longrightarrow> \<exists>r. ph = Exited r"
  by (auto simp: out_table_def out_deregister_def split: exec_bind_splits)

lemma sys_inv_Exited [simp]: "sys_inv ids (Exited r, w)"
  by (simp add: sys_inv_def)

lemma get_new_entry_running:
  assumes inv: "running_inv ids w" and env: "new_env_ok env (wtable w)"
    and r: "get_new_entry env w = Ret (r, w')"
  shows "running_inv ids w' \<and> (r = 0 \<or> r = 1)"
proof -
  from inv have w: "winv w" "proxy_inv (wproxy w)" "wmajor w = lxc_uio_cdev_major_number (wproxy w)"
      "list_all flags_ok (wentries w)" "map uuid (wentries w) @ pending_uuids (wproxy w) = ids"
    by (simp_all add: running_inv_def major_agrees_def)
  show ?thesis
  proof (cases "pending_uuids (wproxy w)")
    case Nil
    from get_new_entry_none [OF w(2) Nil w(3), of env] r obtain m where "r = 0" "w' = w\<lparr>wmem := m\<rparr>"
      by auto
    with inv show ?thesis by (simp add: running_inv_def major_agrees_def)
  next
    case (Cons u us)
    obtain w1 where "get_new_entry env w = Ret (1, w1)" "winv w1" "proxy_inv (wproxy w1)"
      "pending_uuids (wproxy w1) = us"
      "wentries w1 = wentries w @ [new_entry u (fresh_memory (the (ne_mem env)))]"
      "\<exists>t1. wproxy w1 = (wproxy w)\<lparr>ptable := t1\<rparr> \<and> mt_entries t1 = mt_entries (ptable (wproxy w))"
      "wmajor w1 = wmajor w"
      by (rule get_new_entry_some [OF w(1,2) Cons w(3) env])
    with r w Cons show ?thesis
      by (auto simp: running_inv_def major_agrees_def new_entry_def flags_ok_def)
  qed
qed

lemma process_entry_running:
  assumes inv: "running_inv ids w" and ids: "distinct ids" "length ids < 2 ^ 31"
    and r: "process_entry env w = Ret (Some (r, w'))"
  shows "running_inv ids w'"
proof -
  from inv have w: "winv w" "list_all flags_ok (wentries w)" "major_agrees w" "proxy_inv (wproxy w)"
    and eq: "map uuid (wentries w) @ pending_uuids (wproxy w) = ids"
    by (simp_all add: running_inv_def)
  from ids(1) eq have "distinct (map uuid (wentries w))" by auto
  moreover from eq have "length (wentries w) \<le> length ids" by auto
  with ids(2) have "length (wentries w) < 2 ^ 31" by simp
  ultimately have "winv w'" "map uuid (wentries w') = map uuid (wentries w)" "list_all flags_ok (wentries w')"
    using process_entry_cases [OF w(1) _ _ w(2) r] by blast+
  moreover have "same_proxy w w'" by (rule process_entry_same [OF w(3) r])
  ultimately show ?thesis
    using w(3,4) eq by (simp add: running_inv_def same_proxy_def major_agrees_def)
qed

lemma main_pe_running:
  assumes inv: "running_inv ids w" and ids: "distinct ids" "length ids < 2 ^ 31"
    and cont: "\<And>r w1. running_inv ids w1 \<Longrightarrow> cont r w1 = Ret (ph', w') \<Longrightarrow> sys_inv ids (ph', w')"
    and r: "main_pe cont env w = Ret (Some (ph', w'))"
  shows "sys_inv ids (ph', w')"
proof -
  from r obtain q w1 where "process_entry (st_pe env) w = Ret (Some (q, w1))" "cont q w1 = Ret (ph', w')"
    by (auto simp: main_pe_def split: exec_bind_splits option.splits)
  with process_entry_running [OF inv ids] cont show ?thesis by blast
qed

lemma main_step_inv:
  assumes inv: "sys_inv ids (ph, w)" and ids: "distinct ids" "length ids < 2 ^ 31"
    and env: "step_env_ok ops c env ph w" and r: "main_step env ph w = Ret (Some (ph', w'))"
  shows "sys_inv ids (ph', w')"
proof (cases "\<exists>x. ph = Exited x")
  case True
  with inv r show ?thesis by auto
next
  case False
  with inv have run: "running_inv ids w" by (cases ph) (simp_all add: sys_inv_def)
  have ev: "running_inv ids (read_event env w)"
    using run by (simp add: read_event_def running_inv_def major_agrees_def)
  show ?thesis
  proof (cases ph)
    case Drain
    with env have "new_env_ok (st_new env) (wtable w)" by (simp add: step_env_ok_def)
    note new = get_new_entry_running [OF run this]
    from r Drain show ?thesis
      by (auto simp: main_new_def split: exec_bind_splits if_splits dest!: new out_table_exits intro: sys_invI)
  next
    case Serve
    with env have "new_env_ok (st_new env) (wtable w)" by (simp add: step_env_ok_def)
    note new = get_new_entry_running [OF run this]
    from r Serve show ?thesis
      by (auto split: exec_bind_splits if_splits dest!: new out_table_exits intro: sys_invI)
  next
    case Process
    show ?thesis
      using r unfolding Process main_step.simps
      by (rule main_pe_running [OF run ids, rotated])
        (auto intro: sys_invI dest!: out_table_exits split: if_splits)
  next
    case ProcessOne
    show ?thesis
      using r unfolding ProcessOne main_step.simps
      by (rule main_pe_running [OF run ids, rotated])
        (auto intro: sys_invI dest!: out_table_exits split: if_splits)
  qed (use r run ev False in \<open>auto intro: sys_invI dest!: out_table_exits split: if_splits\<close>)
qed

lemma container_inv:
  assumes inv: "sys_inv ids (ph, w)" and md: "kmodules (wproxy w) md = Some km" "module_ok km"
    and ok: "mt_put_ok (krealloc_mt sv) (ptable (wproxy w))"
    and r: "lxc_uio_proxy_put_module_1 sv u ns md (wproxy w) = Ret (r, px)"
  shows "sys_inv (ids @ [u]) (ph, w\<lparr>wproxy := px\<rparr>)"
proof (cases "\<exists>x. ph = Exited x")
  case True
  then show ?thesis by (auto simp: sys_inv_def)
next
  case False
  with inv have run: "running_inv ids w" by (cases ph) (simp_all add: sys_inv_def)
  then have inv: "proxy_inv (wproxy w)" by (simp add: running_inv_def)
  have "lxc_uio_cdev_major_number px = lxc_uio_cdev_major_number (wproxy w)"
    using r by (auto simp: lxc_uio_proxy_put_module_1_def split: exec_bind_splits if_splits
        dest!: send_event_only_efds)
  with run put_module_step [OF inv md ok r] show ?thesis
    by (intro sys_invI) (auto simp: running_inv_def major_agrees_def)
qed

lemma sys_run_inv:
  "sys_run ops c s us s' \<Longrightarrow> sys_inv ids s \<Longrightarrow> distinct (ids @ us) \<Longrightarrow> length (ids @ us) < 2 ^ 31 \<Longrightarrow>
     sys_inv (ids @ us) s'"
proof (induction rule: sys_run.induct)
  case (nil s)
  then show ?case by simp
next
  case (snoc s us s1 vs s2)
  then have inv: "sys_inv (ids @ us) s1" by auto
  from snoc.hyps(2) show ?case
  proof (cases rule: sys_step.cases)
    case (container w md km sv u ns r px ph)
    with container_inv [of "ids @ us" ph w] inv show ?thesis by simp
  next
    case (server env ph w ph' w')
    with main_step_inv [of "ids @ us" ph w ops c env] inv snoc.prems show ?thesis by simp
  qed
qed

end
