(* ===== verification/Server_Liveness.thy ===== *)
theory Server_Liveness
  imports Server_Main
begin

text \<open>
  What the loops of \<open>main\<close> achieve when the calls of a step succeed: draining ends and
  takes every pending module, processing ends and handles every entry, and what happens
  when the server waits for events.
\<close>

subsection \<open>Draining\<close>

definition fresh_entry :: "UUID_table \<Rightarrow> bool" where
  "fresh_entry e \<longleftrightarrow>
     \<not> entry_done e \<and> flags_ok e \<and> num_regions (memory e) = 0 \<and> vm_memory_ok (memory e)"

definition drain_env_ok :: "'e new_env \<Rightarrow> bool" where
  "drain_env_ok env \<longleftrightarrow>
     uaccess_ok (ne_sv env) \<and> accessible (ne_sv env) (ne_adr env) \<and>
     (case ne_mem env of None \<Rightarrow> False | Some m \<Rightarrow> vm_memory_ok m)"

text \<open>The table has room for \<open>k\<close> more entries without growing.\<close>

definition room :: "nat \<Rightarrow> 'e world \<Rightarrow> bool" where
  "room k w \<longleftrightarrow> int (length (wentries w)) + int k \<le> uuid_table_size (wtable w)"

lemma room_put_ok:
  assumes "winv w" and "room k w" and "0 < k"
  shows "ut_put_ok al (wtable w)" "ut_num_entries (wtable w) < uuid_table_size (wtable w)"
proof -
  have "0 \<le> ut_num_entries (wtable w)" using assms(1) by (auto simp: winv_def elim: ut_invE)
  then show "ut_num_entries (wtable w) < uuid_table_size (wtable w)"
    using assms by (simp add: winv_def wentries_def room_def length_ut_entries)
  then show "ut_put_ok al (wtable w)" by (simp add: ut_put_ok_def)
qed

lemma ut_put_size:
  "Uuid_Table.table_put al e t = Ret (r, t') \<Longrightarrow> ut_num_entries t < uuid_table_size t \<Longrightarrow>
     uuid_table_size t' = uuid_table_size t"
  by (auto simp: Uuid_Table.table_put_def ut_write_def Let_def split: if_splits exec_bind_splits)

lemma knows_ptable:
  "knows px u md \<Longrightarrow> proxy_inv (px\<lparr>ptable := t\<rparr>) \<Longrightarrow> mt_entries t = mt_entries (ptable px) \<Longrightarrow>
     knows (px\<lparr>ptable := t\<rparr>) u md"
  by (simp add: knows_def mt_find_def)

text \<open>One iteration of the drain loop that takes an entry.\<close>

lemma drain_step:
  assumes inv: "running_inv ids w" and pend: "pending_uuids (wproxy w) = u # us"
    and env: "drain_env_ok (st_new env)" and room: "room (Suc k) w"
  obtains w' e where "get_new_entry (st_new env) w = Ret (1, w')" "running_inv ids w'"
    "pending_uuids (wproxy w') = us" "wentries w' = wentries w @ [e]" "uuid e = u" "fresh_entry e"
    "room k w'" "efds (wproxy w') = efds (wproxy w)" "ks (wproxy w') = ks (wproxy w)"
    "kmem (wproxy w') = kmem (wproxy w)"
    "\<And>v md. knows (wproxy w) v md \<Longrightarrow> knows (wproxy w') v md"
proof -
  from inv have w: "winv w" "proxy_inv (wproxy w)" "wmajor w = lxc_uio_cdev_major_number (wproxy w)"
    by (simp_all add: running_inv_def major_agrees_def)
  from env obtain m where m: "ne_mem (st_new env) = Some m" "vm_memory_ok m"
    by (auto simp: drain_env_ok_def split: option.splits)
  have ok: "new_env_ok (st_new env) (wtable w)"
    using env m room_put_ok [OF w(1) room] by (simp add: new_env_ok_def drain_env_ok_def)
  let ?e = "new_entry u (fresh_memory (the (ne_mem (st_new env))))"
  obtain w' where w': "get_new_entry (st_new env) w = Ret (1, w')" "proxy_inv (wproxy w')"
    "pending_uuids (wproxy w') = us" "wentries w' = wentries w @ [?e]"
    "\<exists>t1. wproxy w' = (wproxy w)\<lparr>ptable := t1\<rparr> \<and> mt_entries t1 = mt_entries (ptable (wproxy w))"
    "Uuid_Table.table_put (ne_alloc (st_new env)) ?e (wtable w) = Ret (0, wtable w')"
    by (rule get_new_entry_some [OF w(1,2) pend w(3) ok])
  have "room k w'"
    using room w'(4) ut_put_size [OF w'(6)] room_put_ok [OF w(1) room] by (simp add: room_def)
  moreover have "fresh_entry ?e"
    using m by (simp add: fresh_entry_def new_entry_def entry_done_def flags_ok_def fresh_memory_def
        vm_memory_ok_def)
  moreover have "running_inv ids w'" using get_new_entry_running [OF inv ok w'(1)] by simp
  moreover have "knows (wproxy w') v md" if "knows (wproxy w) v md" for v md
    using that w'(2,5) by (auto intro: knows_ptable)
  ultimately show thesis
    using w' by (intro that [of w' ?e]) (auto simp: new_entry_def)
qed

text \<open>\<open>get_new_entry\<close> honours the contract of the loop that drains the proxy.\<close>

definition drain_inv :: "u128 list \<Rightarrow> 'e world \<Rightarrow> bool" where
  "drain_inv ids w \<longleftrightarrow> running_inv ids w \<and> room (length (pending_uuids (wproxy w))) w"

definition drain_rel :: "'e world \<Rightarrow> 'e world \<Rightarrow> bool" where
  "drain_rel w w' \<longleftrightarrow>
     (\<exists>es. wentries w' = wentries w @ es \<and> map uuid es @ pending_uuids (wproxy w') = pending_uuids (wproxy w) \<and>
        list_all fresh_entry es) \<and>
     efds (wproxy w') = efds (wproxy w) \<and>
     (\<forall>v md. knows (wproxy w) v md \<longrightarrow> knows (wproxy w') v md)"

lemma drain_work:
  assumes "drain_inv ids w" and "drain_env_ok (st_new env)" and "length (pending_uuids (wproxy w)) = Suc n"
  shows "\<exists>w'. get_new_entry (st_new env) w = Ret (1, w') \<and> drain_inv ids w' \<and>
    length (pending_uuids (wproxy w')) = n \<and> drain_rel w w'"
proof -
  from assms(3) obtain u us where us: "pending_uuids (wproxy w) = u # us" "length us = n"
    by (cases "pending_uuids (wproxy w)") auto
  from assms(1) us have inv: "running_inv ids w" "room (Suc n) w" by (simp_all add: drain_inv_def)
  obtain w' e where w': "get_new_entry (st_new env) w = Ret (1, w')" "running_inv ids w'"
    "pending_uuids (wproxy w') = us" "wentries w' = wentries w @ [e]" "uuid e = u" "fresh_entry e"
    "room n w'" "efds (wproxy w') = efds (wproxy w)"
    "\<And>v md. knows (wproxy w) v md \<Longrightarrow> knows (wproxy w') v md"
    using drain_step [OF inv(1) us(1) assms(2) inv(2)] by metis
  then have "drain_rel w w'"
    using us unfolding drain_rel_def by (intro conjI exI [of _ "[e]"]) simp_all
  with w' us(2) show ?thesis by (auto simp: drain_inv_def)
qed

lemma drain_idle:
  assumes "drain_inv ids w" and "length (pending_uuids (wproxy w)) = 0"
  shows "\<exists>w'. get_new_entry (st_new env) w = Ret (0, w') \<and> drain_inv ids w' \<and>
    length (pending_uuids (wproxy w')) = 0 \<and> drain_rel w w'"
proof -
  from assms have w: "proxy_inv (wproxy w)" "pending_uuids (wproxy w) = []"
      "wmajor w = lxc_uio_cdev_major_number (wproxy w)"
    by (simp_all add: drain_inv_def running_inv_def major_agrees_def)
  from get_new_entry_none [OF w, of "st_new env"] obtain m where
    "get_new_entry (st_new env) w = Ret (0, w\<lparr>wmem := m\<rparr>)" by blast
  with assms show ?thesis
    by (simp add: drain_inv_def drain_rel_def running_inv_def major_agrees_def room_def)
qed

lemma drain_rel_trans: "drain_rel w w1 \<Longrightarrow> drain_rel w1 w2 \<Longrightarrow> drain_rel w w2"
proof -
  assume a: "drain_rel w w1" "drain_rel w1 w2"
  then obtain es es' where "wentries w1 = wentries w @ es" "wentries w2 = wentries w1 @ es'"
      "map uuid es @ pending_uuids (wproxy w1) = pending_uuids (wproxy w)"
      "map uuid es' @ pending_uuids (wproxy w2) = pending_uuids (wproxy w1)"
      "list_all fresh_entry es" "list_all fresh_entry es'"
    by (auto simp: drain_rel_def)
  with a show "drain_rel w w2"
    unfolding drain_rel_def by (intro conjI exI [of _ "es @ es'"]) auto
qed

interpretation drain: work_loop "\<lambda>(env :: 'e step_env) w. some_ret (get_new_entry (st_new env) w)"
    "\<lambda>env. drain_env_ok (st_new env)" "drain_inv ids" "\<lambda>w. length (pending_uuids (wproxy w))" drain_rel
  for ids
proof unfold_locales
  fix s :: "'e world" and e :: "'e step_env" and n
  assume "drain_inv ids s" "drain_env_ok (st_new e)" "length (pending_uuids (wproxy s)) = Suc n"
  from drain_work [OF this] show "\<exists>s'. some_ret (get_new_entry (st_new e) s) = Ret (Some (1, s')) \<and>
      drain_inv ids s' \<and> length (pending_uuids (wproxy s')) = n \<and> drain_rel s s'"
    by simp
next
  fix s :: "'e world" and e :: "'e step_env"
  assume "drain_inv ids s" "length (pending_uuids (wproxy s)) = 0"
  from drain_idle [OF this, of e] show "\<exists>s'. some_ret (get_new_entry (st_new e) s) = Ret (Some (0, s')) \<and>
      drain_inv ids s' \<and> length (pending_uuids (wproxy s')) = 0 \<and> drain_rel s s'"
    by simp
qed (rule drain_rel_trans)

subsection \<open>Processing\<close>

definition todo :: "'e world \<Rightarrow> nat" where
  "todo w = length (filter (\<lambda>e. \<not> entry_done e) (wentries w))"

definition entry_ready :: "'e world \<Rightarrow> UUID_table \<Rightarrow> bool" where
  "entry_ready w e \<longleftrightarrow>
     processed e \<and> flags_ok e \<or> fresh_entry e \<and> (\<exists>md. knows (wproxy w) (uuid e) md)"

definition process_env_ok :: "'e step_env \<Rightarrow> bool" where
  "process_env_ok env \<longleftrightarrow> (\<exists>pre. pe_env_ok (st_pe env) pre)"

lemma filter_length_update:
  assumes "i < length xs" and "P (xs ! i)" and "\<not> P y"
  shows "Suc (length (filter P (xs[i := y]))) = length (filter P xs)"
proof -
  have "filter P xs = filter P (take i xs @ xs ! i # drop (Suc i) xs)"
    using assms(1) by (simp flip: id_take_nth_drop)
  then show ?thesis using assms by (simp add: upd_conv_take_nth_drop)
qed

lemma first_todo:
  assumes "todo w \<noteq> 0"
  obtains i where "i < length (wentries w)" "\<not> entry_done (wentries w ! i)"
    "\<forall>j < i. entry_done (wentries w ! j)"
proof -
  let ?P = "\<lambda>i. i < length (wentries w) \<and> \<not> entry_done (wentries w ! i)"
  from assms have "\<exists>i. ?P i" by (auto simp: todo_def filter_empty_conv in_set_conv_nth)
  then have "?P (LEAST i. ?P i)" by (rule LeastI_ex)
  moreover have "entry_done (wentries w ! j)" if "j < (LEAST i. ?P i)" for j
    using not_less_Least [OF that] that calculation by auto
  ultimately show thesis using that by blast
qed

text \<open>One call of \<open>process_entry\<close> with an entry left to do.\<close>

lemma process_step:
  assumes inv: "running_inv ids w" and ids: "distinct ids" "length ids < 2 ^ 31"
    and ready: "list_all (entry_ready w) (wentries w)" and todo: "todo w = Suc n"
    and env: "pe_env_ok penv pre"
  obtains w' where "process_entry penv w = Ret (Some (1, w'))" "running_inv ids w'"
    "list_all (entry_ready w') (wentries w')" "todo w' = n" "same_proxy w w'"
    "map uuid (wentries w') = map uuid (wentries w)"
proof -
  from inv have w: "winv w" "major_agrees w" "list_all flags_ok (wentries w)"
    and eq: "map uuid (wentries w) @ pending_uuids (wproxy w) = ids"
    by (simp_all add: running_inv_def)
  from todo have "todo w \<noteq> 0" by simp
  then obtain i where i: "i < length (wentries w)" "\<not> entry_done (wentries w ! i)"
      "\<forall>j < i. entry_done (wentries w ! j)"
    by (rule first_todo)
  let ?e = "wentries w ! i"
  have "entry_ready w ?e" using ready i(1) by (simp add: list_all_length)
  with i(2) obtain md where md: "fresh_entry ?e" "knows (wproxy w) (uuid ?e) md"
    by (auto simp: entry_ready_def entry_done_def)
  have dist: "distinct (map uuid (wentries w))" using ids(1) eq by auto
  have len: "length (wentries w) < 2 ^ 31" using ids(2) eq by auto
  have before: "\<forall>j < i. entry_done (wentries w ! j) \<and> flags_ok (wentries w ! j)"
    using i w(3) by (simp add: list_all_length)
  have major: "wmajor w = lxc_uio_cdev_major_number (wproxy w)" using w(2) by (simp add: major_agrees_def)
  obtain w' where w': "process_entry penv w = Ret (Some (1, w'))" "winv w'"
    "wentries w' = (wentries w)[i := run_entry penv md ?e]" "wproxy w' = wproxy w" "wmajor w' = wmajor w"
    using process_entry_ok [OF w(1) i(1) len dist before i(2) md(2) major env] md(1)
    by (auto simp: fresh_entry_def)
  have e: "processed (run_entry penv md ?e)" "flags_ok (run_entry penv md ?e)" "uuid (run_entry penv md ?e) = uuid ?e"
    using md(1) by (simp_all add: run_entry_def flags_ok_def fresh_entry_def entry_done_def)
  have "list_all (entry_ready w') (wentries w')"
    using ready e w' i(1) by (auto simp: list_all_length nth_list_update entry_ready_def)
  moreover have "todo w' = n"
    using filter_length_update [of i "wentries w" "\<lambda>e. \<not> entry_done e" "run_entry penv md ?e"] i e todo w'(3)
    by (simp add: todo_def entry_done_def)
  moreover have "running_inv ids w'" by (rule process_entry_running [OF inv ids w'(1)])
  moreover have "map uuid (wentries w') = map uuid (wentries w)"
    using w'(3) e i(1) by (simp add: map_update list_update_same_conv)
  ultimately show thesis
    using w' by (intro that [of w']) (simp_all add: same_proxy_def)
qed

lemma entry_ready_done: "entry_ready w e \<Longrightarrow> entry_done e \<Longrightarrow> processed e \<and> flags_ok e"
  by (auto simp: entry_ready_def fresh_entry_def)

lemma process_nothing:
  assumes inv: "running_inv ids w" and ids: "length ids < 2 ^ 31"
    and ready: "list_all (entry_ready w) (wentries w)" and todo: "todo w = 0"
    and cp: "\<And>j. pe_copy penv j"
  shows "process_entry penv w = Ret (Some (0, w))" "list_all processed (wentries w)"
proof -
  from inv have w: "winv w" and eq: "map uuid (wentries w) @ pending_uuids (wproxy w) = ids"
    by (simp_all add: running_inv_def)
  have dn: "\<forall>e\<in>set (wentries w). entry_done e" using todo by (simp add: todo_def filter_empty_conv)
  with ready show "list_all processed (wentries w)"
    using entry_ready_done by (auto simp: list_all_iff)
  have "length (wentries w) < 2 ^ 31" using ids eq by auto
  with num_entries_small [OF w] have n: "get_table_num_entries (wtable w) = int (length (wentries w))" by simp
  have "\<forall>j\<in>set [0..<length (wentries w)]. j < length (wentries w) \<and> entry_done (wentries w ! j) \<and>
      flags_ok (wentries w ! j)"
    using dn ready entry_ready_done by (fastforce simp: list_all_length)
  from pe_scan_skip [OF w cp this, of "[]"] n show "process_entry penv w = Ret (Some (0, w))"
    by (simp add: process_entry_def Let_def)
qed

text \<open>\<open>process_entry\<close> honours the contract of the loop that processes the entries.\<close>

definition process_inv :: "u128 list \<Rightarrow> 'e world \<Rightarrow> bool" where
  "process_inv ids w \<longleftrightarrow>
     running_inv ids w \<and> distinct ids \<and> length ids < 2 ^ 31 \<and> list_all (entry_ready w) (wentries w)"

definition process_rel :: "'e world \<Rightarrow> 'e world \<Rightarrow> bool" where
  "process_rel w w' \<longleftrightarrow> same_proxy w w' \<and> map uuid (wentries w') = map uuid (wentries w)"

interpretation processing: work_loop "\<lambda>(env :: 'e step_env) w. process_entry (st_pe env) w" process_env_ok "process_inv ids" todo
    process_rel for ids
proof unfold_locales
  fix s :: "'e world" and e :: "'e step_env" and n
  assume a: "process_inv ids s" "process_env_ok e" "todo s = Suc n"
  then obtain pre where inv: "running_inv ids s" "distinct ids" "length ids < 2 ^ 31"
      "list_all (entry_ready s) (wentries s)" and env: "pe_env_ok (st_pe e) pre"
    by (auto simp: process_inv_def process_env_ok_def)
  obtain s' where "process_entry (st_pe e) s = Ret (Some (1, s'))" "running_inv ids s'"
    "list_all (entry_ready s') (wentries s')" "todo s' = n" "same_proxy s s'"
    "map uuid (wentries s') = map uuid (wentries s)"
    by (rule process_step [OF inv a(3) env])
  with inv(2,3) show "\<exists>s'. process_entry (st_pe e) s = Ret (Some (1, s')) \<and> process_inv ids s' \<and>
      todo s' = n \<and> process_rel s s'"
    by (auto simp: process_inv_def process_rel_def)
next
  fix s :: "'e world" and e :: "'e step_env"
  assume a: "process_inv ids s" "process_env_ok e" "todo s = 0"
  then have "process_entry (st_pe e) s = Ret (Some (0, s))"
    by (intro process_nothing) (auto simp: process_inv_def process_env_ok_def pe_env_ok_def)
  with a show "\<exists>s'. process_entry (st_pe e) s = Ret (Some (0, s')) \<and> process_inv ids s' \<and>
      todo s' = 0 \<and> process_rel s s'"
    by (simp add: process_rel_def)
next
  show "process_rel s s2" if "process_rel s s1" "process_rel s1 s2" for s s1 s2 :: "'e world"
    using that by (auto simp: process_rel_def intro: same_proxy_trans)
qed

subsection \<open>Start-up\<close>

lemma main_run_append:
  "main_run (xs @ ys) ph w =
     exec_bind (main_run xs ph w) (\<lambda>p.
       case p of None \<Rightarrow> Ret None | Some (ph', w') \<Rightarrow> main_run ys ph' w')"
proof (induction xs arbitrary: ph w)
  case Nil
  then show ?case by simp
next
  case (Cons x xs)
  show ?case
    by (cases "main_step x ph w") (auto simp: Cons split: option.split)
qed

lemma todo_fresh: "list_all fresh_entry (wentries w) \<Longrightarrow> todo w = length (wentries w)"
  by (simp add: todo_def list_all_iff fresh_entry_def filter_id_conv)

lemma todo_processed: "list_all processed (wentries w) \<Longrightarrow> todo w = 0"
  by (simp add: todo_def list_all_iff entry_done_def filter_empty_conv)

text \<open>The first two loops of \<open>main\<close> are such loops.\<close>

lemma main_run_drain:
  "call_until (\<lambda>env w. some_ret (get_new_entry (st_new env) w)) envs w = Ret (Some (0, w', envs')) \<Longrightarrow>
     main_run envs Drain w = main_run envs' Process w'"
proof (induction envs arbitrary: w)
  case (Cons env envs)
  then obtain r w1 where g: "get_new_entry (st_new env) w = Ret (r, w1)"
    by (auto simp: exec_bind_eq_Ret_iff some_ret_def)
  with Cons show ?case by (auto simp: main_new_def split: if_splits)
qed simp

lemma main_run_process:
  "call_until (\<lambda>env w. process_entry (st_pe env) w) envs w = Ret (Some (0, w', envs')) \<Longrightarrow>
     main_run envs Process w = main_run envs' Wait w'"
proof (induction envs arbitrary: w)
  case (Cons env envs)
  then obtain r w1 where g: "process_entry (st_pe env) w = Ret (Some (r, w1))"
    by (auto simp: exec_bind_eq_Ret_iff split: option.splits)
  with Cons show ?case by (auto simp: main_pe_def split: if_splits)
qed simp

lemma startup_run:
  assumes inv: "running_inv us w" and empty: "wentries w = []"
    and us: "distinct us" "length us < 2 ^ 31" and known: "\<forall>u\<in>set us. \<exists>md. knows (wproxy w) u md"
    and room: "room (length us) w"
    and envs: "list_all (\<lambda>env. drain_env_ok (st_new env)) envs" "length envs = Suc (length us)"
    and envs': "list_all process_env_ok envs'" "length envs' = Suc (length us)"
  obtains w' where "main_run (envs @ envs') Drain w = Ret (Some (Wait, w'))" "running_inv us w'"
    "map uuid (wentries w') = us" "list_all processed (wentries w')" "pending_uuids (wproxy w') = []"
    "efds (wproxy w') = efds (wproxy w)"
proof -
  have pend: "pending_uuids (wproxy w) = us" using inv empty by (simp add: running_inv_def)
  with inv room have "drain_inv us w" by (simp add: drain_inv_def)
  from drain.loop_ends [OF this envs(1)] obtain w1 where
      c1: "call_until (\<lambda>env w. some_ret (get_new_entry (st_new env) w)) envs w = Ret (Some (0, w1, []))"
    and w1: "drain_inv us w1" "pending_uuids (wproxy w1) = []" "drain_rel w w1"
    using pend envs(2) by auto
  have es: "map uuid (wentries w1) = us" "list_all fresh_entry (wentries w1)" "efds (wproxy w1) = efds (wproxy w)"
    and kn: "\<And>v md. knows (wproxy w) v md \<Longrightarrow> knows (wproxy w1) v md"
    using w1(2,3) empty pend by (auto simp: drain_rel_def)
  have "list_all (entry_ready w1) (wentries w1)"
    using es(1,2) known kn by (fastforce simp: list_all_iff entry_ready_def)
  with w1(1) us have "process_inv us w1" by (simp add: drain_inv_def process_inv_def)
  moreover have n: "Suc (todo w1) = length envs'"
    using todo_fresh [OF es(2)] es(1) envs'(2) by (metis length_map)
  ultimately obtain w' where
      c2: "call_until (\<lambda>env w. process_entry (st_pe env) w) envs' w1 = Ret (Some (0, w', []))"
    and w': "process_inv us w'" "todo w' = 0" "process_rel w1 w'"
    using processing.loop_ends [OF _ envs'(1), of us w1] by auto
  have "main_run (envs @ envs') Drain w = Ret (Some (Wait, w'))"
    using main_run_drain [OF c1] main_run_process [OF c2] by (simp add: main_run_append)
  moreover have "list_all processed (wentries w')"
    using w'(1,2) entry_ready_done by (auto simp: process_inv_def todo_def list_all_iff filter_empty_conv)
  ultimately show thesis
    using w' es w1(2) by (intro that [of w']) (auto simp: process_inv_def process_rel_def same_proxy_def)
qed

subsection \<open>Waiting\<close>

text \<open>The first three steps that handle one event: select returns, the entry is taken, the
  event file is read.\<close>

lemma event_prefix:
  assumes inv: "running_inv ids w" and pend: "pending_uuids (wproxy w) = u # us" and room: "room 1 w"
    and sel: "0 \<le> st_select e1" "st_isset e1" and new: "drain_env_ok (st_new e2)" and rd: "st_read e3 = 8"
  obtains w2 e where "main_run [e1, e2, e3] Wait w = Ret (Some (ProcessOne, w2))" "running_inv ids w2"
    "pending_uuids (wproxy w2) = us" "wentries w2 = wentries w @ [e]" "uuid e = u" "fresh_entry e"
    "efds (wproxy w2) = (efds (wproxy w))(st_ctx e3 := st_efd_read e3 (efds (wproxy w) (st_ctx e3)))"
    "kmem (wproxy w2) = kmem (wproxy w)"
    "\<And>v md. knows (wproxy w) v md \<Longrightarrow> knows (wproxy w2) v md"
proof -
  from room have r: "room (Suc 0) w" by simp
  obtain w1 e where w1: "get_new_entry (st_new e2) w = Ret (1, w1)" "running_inv ids w1"
    "pending_uuids (wproxy w1) = us" "wentries w1 = wentries w @ [e]" "uuid e = u" "fresh_entry e"
    "efds (wproxy w1) = efds (wproxy w)" "kmem (wproxy w1) = kmem (wproxy w)" "\<And>v md. knows (wproxy w) v md \<Longrightarrow> knows (wproxy w1) v md"
    using drain_step [OF inv pend new r] by metis
  then show thesis
    using sel rd
    by (intro that [of "read_event e3 w1" e])
      (simp_all add: read_event_def running_inv_def major_agrees_def knows_def)
qed

lemma processed_ready:
  assumes "running_inv ids w" and "wentries w = es @ [e]" and "list_all processed es"
    and "fresh_entry e" and "knows (wproxy w) (uuid e) md"
  shows "list_all (entry_ready w) (wentries w) \<and> todo w = Suc 0"
proof -
  have "list_all flags_ok es" using assms(1,2) by (simp add: running_inv_def)
  with assms show ?thesis
    by (auto simp: list_all_iff entry_ready_def todo_def fresh_entry_def entry_done_def filter_empty_conv)
qed

lemma event_run:
  assumes inv: "running_inv ids w" and ids: "distinct ids" "length ids < 2 ^ 31"
    and pend: "pending_uuids (wproxy w) = u # us" and dn: "list_all processed (wentries w)"
    and known: "knows (wproxy w) u md" and room: "room 1 w"
    and sel: "0 \<le> st_select e1" "st_isset e1" and new: "drain_env_ok (st_new e2)"
    and rd: "st_read e3 = 8" and pe: "process_env_ok e4"
  obtains w' where "main_run [e1, e2, e3, e4] Wait w = Ret (Some (Wait, w'))" "running_inv ids w'"
    "pending_uuids (wproxy w') = us" "map uuid (wentries w') = map uuid (wentries w) @ [u]"
    "list_all processed (wentries w')"
    "efds (wproxy w') = (efds (wproxy w))(st_ctx e3 := st_efd_read e3 (efds (wproxy w) (st_ctx e3)))"
proof -
  obtain w2 e where w2: "main_run [e1, e2, e3] Wait w = Ret (Some (ProcessOne, w2))" "running_inv ids w2"
    "pending_uuids (wproxy w2) = us" "wentries w2 = wentries w @ [e]" "uuid e = u" "fresh_entry e"
    "efds (wproxy w2) = (efds (wproxy w))(st_ctx e3 := st_efd_read e3 (efds (wproxy w) (st_ctx e3)))"
    "\<And>v md. knows (wproxy w) v md \<Longrightarrow> knows (wproxy w2) v md"
    using event_prefix [OF inv pend room sel new rd] by metis
  have "knows (wproxy w2) (uuid e) md" using w2(5,8) known by simp
  with processed_ready [OF w2(2,4) dn w2(6)]
  have ready: "list_all (entry_ready w2) (wentries w2)" "todo w2 = Suc 0" by simp_all
  from pe obtain pre where pre: "pe_env_ok (st_pe e4) pre" by (auto simp: process_env_ok_def)
  obtain w' where w': "process_entry (st_pe e4) w2 = Ret (Some (1, w'))" "running_inv ids w'"
    "list_all (entry_ready w') (wentries w')" "todo w' = 0" "same_proxy w2 w'"
    "map uuid (wentries w') = map uuid (wentries w2)"
    by (rule process_step [OF w2(2) ids ready pre])
  have "list_all processed (wentries w')"
    using w'(3,4) entry_ready_done by (auto simp: todo_def list_all_iff filter_empty_conv)
  moreover have "main_run ([e1, e2, e3] @ [e4]) Wait w = Ret (Some (Wait, w'))"
    unfolding main_run_append w2(1) using w'(1) by (simp add: main_pe_def)
  ultimately show thesis
    using w' w2 by (intro that [of w']) (simp_all add: same_proxy_def)
qed

text \<open>The same four steps, with what they leave in the memory of the virtual machine.\<close>

lemma event_core:
  assumes inv: "running_inv ids w" and ids: "distinct ids" "length ids < 2 ^ 31"
    and pend: "pending_uuids (wproxy w) = u # us" and dn: "list_all processed (wentries w)"
    and known: "knows (wproxy w) u md" and room: "room 1 w"
    and sel: "0 \<le> st_select e1" "st_isset e1" and new: "drain_env_ok (st_new e2)"
    and rd: "st_read e3 = 8" and pe: "pe_env_ok (st_pe e4) pre"
  obtains w' e m where "main_run [e1, e2, e3, e4] Wait w = Ret (Some (Wait, w'))"
    "wentries w' = wentries w @ [e]" "uuid e = u" "processed e"
    "memory e = initialised (pe_init (st_pe e4)) md m"
    "umem_read (wmem w') (mem_core (pe_init (st_pe e4))) (unat (ml_size (mod_core_layout md))) =
       core_bytes (wproxy w) md"
    "\<exists>out. wout w' = out @ concat (map serial_byte pre)"
proof -
  obtain w2 e where w2: "main_run [e1, e2, e3] Wait w = Ret (Some (ProcessOne, w2))" "running_inv ids w2"
    "wentries w2 = wentries w @ [e]" "uuid e = u" "fresh_entry e"
    "\<And>v md. knows (wproxy w) v md \<Longrightarrow> knows (wproxy w2) v md"
    "kmem (wproxy w2) = kmem (wproxy w)"
    using event_prefix [OF inv pend room sel new rd] by metis
  let ?i = "length (wentries w)"
  have e: "wentries w2 ! ?i = e" "?i < length (wentries w2)" using w2(3) by simp_all
  from w2(2) have w: "winv w2" "wmajor w2 = lxc_uio_cdev_major_number (wproxy w2)" "list_all flags_ok (wentries w2)"
    and eq: "map uuid (wentries w2) @ pending_uuids (wproxy w2) = ids"
    by (simp_all add: running_inv_def major_agrees_def)
  have len: "length (wentries w2) < 2 ^ 31" and dist: "distinct (map uuid (wentries w2))"
    using ids eq by auto
  have before: "\<forall>j < ?i. entry_done (wentries w2 ! j) \<and> flags_ok (wentries w2 ! j)"
    using dn w(3) w2(3) by (auto simp: list_all_iff nth_append entry_done_def)
  have todo: "\<not> entry_done (wentries w2 ! ?i)" "num_regions (memory (wentries w2 ! ?i)) = 0"
      "vm_memory_ok (memory (wentries w2 ! ?i))"
    using w2(5) e(1) by (simp_all add: fresh_entry_def)
  have kn: "knows (wproxy w2) (uuid (wentries w2 ! ?i)) md" using w2(4,6) known e(1) by simp
  obtain w' where w': "process_entry (st_pe e4) w2 = Ret (Some (1, w'))"
    "wentries w' = (wentries w2)[?i := run_entry (st_pe e4) md (wentries w2 ! ?i)]"
    "umem_read (wmem w') (mem_core (pe_init (st_pe e4))) (unat (ml_size (mod_core_layout md))) =
       core_bytes (wproxy w2) md"
    "wproxy w' = wproxy w2" "wout w' = wout w2 @ concat (map serial_byte pre)"
    by (rule process_entry_ok [OF w(1) e(2) len dist before todo(1) kn w(2) pe todo(2,3)])
  have "main_run ([e1, e2, e3] @ [e4]) Wait w = Ret (Some (Wait, w'))"
    unfolding main_run_append w2(1) using w'(1) by (simp add: main_pe_def)
  then show thesis
    using w' w2(3,4) e by (intro that [of w' "run_entry (st_pe e4) md e" "memory e"])
      (auto simp: run_entry_def core_bytes_def w2(7))
qed

text \<open>Leaving through \<open>out_table\<close> returns 0, whatever went wrong before.\<close>

lemma out_table_returns:
  assumes "major_agrees w"
  shows "\<exists>w'. out_table sv w = Ret (Exited 0, w')"
  using assms
  by (simp add: out_table_def out_deregister_def deregister_server_def dev_ioctl_def major_agrees_def)

lemma spurious_exit:
  assumes inv: "running_inv ids w" and pend: "pending_uuids (wproxy w) = []"
    and sel: "0 \<le> st_select e1" "st_isset e1"
  shows "\<exists>w'. main_run [e1, e2] Wait w = Ret (Some (Exited 0, w'))"
proof -
  from inv have w: "proxy_inv (wproxy w)" "wmajor w = lxc_uio_cdev_major_number (wproxy w)"
    by (simp_all add: running_inv_def major_agrees_def)
  from get_new_entry_none [OF w(1) pend w(2)] obtain m where
    m: "get_new_entry (st_new e2) w = Ret (0, w\<lparr>wmem := m\<rparr>)" by blast
  have "major_agrees (w\<lparr>wmem := m\<rparr>)" using w(2) by (simp add: major_agrees_def)
  from out_table_returns [OF this, of "st_sv e2"] m sel show ?thesis by auto
qed

text \<open>Set-up on a loaded module.\<close>

definition setup_env_ok :: "'e setup_env \<Rightarrow> 'e proxy \<Rightarrow> bool" where
  "setup_env_ok env px \<longleftrightarrow>
     major_env_ok (su_major env) \<and> (\<exists>addr. su_file env = lxc_uio_proc_show addr px) \<and>
     0 \<le> su_kvm_open env \<and> 0 < su_kvm_ext env \<and> 0 \<le> su_eventfd env \<and> su_eventfd env < 2 ^ 31 \<and>
     0 \<le> su_cdev_open env \<and> kmalloc_ks (su_sv env) \<noteq> None \<and> fcheck (su_sv env) (su_eventfd env) \<noteq> 0 \<and>
     al_ptr (su_alloc env) \<noteq> 0"

lemma register_ok:
  assumes "major_agrees w" and "0 \<le> efd" "efd < 2 ^ 31" and "kmalloc_ks sv = Some k"
    and "fcheck sv efd \<noteq> 0"
  shows "register_server sv efd w =
    Ret (0, w\<lparr>wproxy := (wproxy w)\<lparr>ks := Some (k\<lparr>ks_pid := current_pid sv, ks_fp := fcheck sv efd\<rparr>)\<rparr>\<rparr>)"
proof -
  have "sint (ucast (word_of_int efd :: u64) :: u32) = efd"
    using assms(2,3) by (simp add: unsigned_of_int take_bit_int_eq_self sint_word_of_int_u32)
  with assms show ?thesis
    by (simp add: register_server_def dev_ioctl_def major_agrees_def ioctl_register_def Let_def)
qed

lemma setup_ok:
  assumes env: "setup_env_ok env (wproxy w)" and tab: "wtable w = utable_init"
    and rng: "0 \<le> lxc_uio_cdev_major_number (wproxy w)" "lxc_uio_cdev_major_number (wproxy w) < 2 ^ 31"
    and inv: "proxy_inv (wproxy w)"
  obtains w' k where "main_setup env w = Ret (Drain, w')" "running_inv (pending_uuids (wproxy w)) w'"
    "wentries w' = []" "room 256 w'" "ks_fp k = fcheck (su_sv env) (su_eventfd env)"
    "wproxy w' = (wproxy w)\<lparr>ks := Some k\<rparr>"
proof -
  let ?major = "lxc_uio_cdev_major_number (wproxy w)"
  from env obtain addr k where e: "major_env_ok (su_major env)" "su_file env = lxc_uio_proc_show addr (wproxy w)"
      "0 \<le> su_kvm_open env" "0 < su_kvm_ext env" "0 \<le> su_eventfd env" "su_eventfd env < 2 ^ 31"
      "0 \<le> su_cdev_open env" "kmalloc_ks (su_sv env) = Some k" "fcheck (su_sv env) (su_eventfd env) \<noteq> 0"
      "al_ptr (su_alloc env) \<noteq> 0"
    by (auto simp: setup_env_ok_def)
  have major: "get_major_number (su_major env) (su_file env) = ?major"
    unfolding e(2) by (rule proc_roundtrip [OF e(1) rng])
  let ?w = "w\<lparr>wmajor := ?major\<rparr>"
  let ?k = "k\<lparr>ks_pid := current_pid (su_sv env), ks_fp := fcheck (su_sv env) (su_eventfd env)\<rparr>"
  let ?w1 = "?w\<lparr>wproxy := (wproxy w)\<lparr>ks := Some ?k\<rparr>\<rparr>"
  have reg: "register_server (su_sv env) (su_eventfd env) ?w = Ret (0, ?w1)"
    using register_ok [of ?w "su_eventfd env" "su_sv env" k] e by (simp add: major_agrees_def)
  obtain t where t: "Uuid_Table.table_init (su_alloc env) utable_init = (0, t)" "ut_inv t" "ut_entries t = []"
      "uuid_table_size t = 256"
    using ut_inv_table_init [of utable_init "su_alloc env"] e(10)
    by (auto simp: Uuid_Table.table_init_def utable_init_def)
  let ?w2 = "?w1\<lparr>wtable := t\<rparr>"
  have "main_setup env w = Ret (Drain, ?w2)"
    using major rng(1) e reg t(1) tab by (simp add: main_setup_def Let_def)
  moreover have "running_inv (pending_uuids (wproxy w)) ?w2" "wentries ?w2 = []" "room 256 ?w2"
    using inv t by (simp_all add: running_inv_def major_agrees_def winv_def wentries_def room_def)
  ultimately show thesis by (intro that [of ?w2 ?k]) simp_all
qed

text \<open>From here on a run is reasoned about through the lemmas above.\<close>

declare main_run.simps [simp del]

text \<open>An insertion under a new identifier makes the module known.\<close>

lemma put_module_known:
  assumes inv: "proxy_inv st" and md: "kmodules st mp = Some md" "module_ok md"
    and ok: "mt_put_ok (krealloc_mt sv) (ptable st)" and live: "server_live sv st"
    and new: "u \<notin> mt_uuid ` set (mt_entries (ptable st))"
  obtains px where "lxc_uio_proxy_put_module_1 sv u ns mp st = Ret (0, px)" "knows px u md"
    "efds px = signalled sv st" "pending_uuids px = pending_uuids st @ [u]" "kmem px = kmem st"
    "lxc_uio_cdev_major_number px = lxc_uio_cdev_major_number st" "proxy_inv px"
proof -
  let ?e = "\<lparr>mt_uuid = u, mt_nsproxy = ns, mt_module = mp\<rparr>"
  obtain t1 where t1: "lxc_uio_proxy_put_module_1 sv u ns mp st =
      Ret (0, st\<lparr>ptable := t1, efds := signalled sv st\<rparr>)" "mt_inv t1"
    "mt_entries t1 = mt_entries (ptable st) @ [?e]" "mt_pending t1 = mt_pending (ptable st) @ [?e]"
    by (rule put_module_returns [OF inv md ok live])
  let ?px = "st\<lparr>ptable := t1, efds := signalled sv st\<rparr>"
  have inv': "proxy_inv ?px"
    using put_module_step [OF inv md ok t1(1)] by simp
  have "find (\<lambda>x. mt_uuid x = u) (mt_entries (ptable st)) = None"
    using new by (auto simp: find_None_iff image_iff)
  then have "mt_find u t1 = Some ?e"
    by (simp add: mt_find_def t1(3) find_snoc)
  with inv' md(1) have "knows ?px u md" by (simp add: knows_def)
  with t1 inv' show thesis by (intro that [of ?px]) (simp_all add: pending_uuids_def)
qed

end
