(* ===== verification/Server_Restart.thy ===== *)
theory Server_Restart
  imports Server_Liveness
begin

text \<open>
  The end of a server and the start of the next one. The operations of the device file
  (\<open>cdev_fops\<close> of \<open>cdev.c\<close>) that only lock and unlock, the interrupt that lets the server
  deregister, and the death of a server that does not get to deregister: the kernel then
  closes its files, so \<open>release\<close> of the device runs and the event file is freed, but the
  registration stays.
\<close>

subsection \<open>The operations of the device file\<close>

definition cdev_open :: "'e proxy \<Rightarrow> int \<times> 'e proxy" where
  "cdev_open st = (0, st)"

definition cdev_release :: "'e proxy \<Rightarrow> int \<times> 'e proxy" where
  "cdev_release st = (0, st)"

definition cdev_read :: "u64 \<Rightarrow> u64 \<Rightarrow> 'e proxy \<Rightarrow> int \<times> 'e proxy" where
  "cdev_read buff count st = (0, st)"

record 'e file_operations =
  fop_open :: "('e proxy \<Rightarrow> int \<times> 'e proxy) option"
  fop_release :: "('e proxy \<Rightarrow> int \<times> 'e proxy) option"
  fop_read :: "(u64 \<Rightarrow> u64 \<Rightarrow> 'e proxy \<Rightarrow> int \<times> 'e proxy) option"
  fop_write :: "('e kservices \<Rightarrow> u64 \<Rightarrow> u64 \<Rightarrow> umem \<Rightarrow> 'e proxy \<Rightarrow> (int \<times> umem) exec) option"
  fop_ioctl :: "('e kservices \<Rightarrow> u32 \<Rightarrow> u64 \<Rightarrow> umem \<Rightarrow> 'e proxy \<Rightarrow> (int \<times> umem \<times> 'e proxy) exec) option"

text \<open>The line that would set \<open>read\<close> is commented out.\<close>

definition cdev_fops :: "'e file_operations" where
  "cdev_fops =
     \<lparr>fop_open = Some cdev_open, fop_release = Some cdev_release, fop_read = None,
      fop_write = Some cdev_write, fop_ioctl = Some cdev_ioctl\<rparr>"

text \<open>A process that held the device open is gone.\<close>

definition server_killed :: "'e world \<Rightarrow> 'e world" where
  "server_killed w =
     w\<lparr>wproxy := (case fop_release cdev_fops of None \<Rightarrow> wproxy w | Some f \<Rightarrow> snd (f (wproxy w)))\<rparr>"

text \<open>A new process of the server: its own memory \<open>m\<close> and output, its globals as the
  initialisers set them.\<close>

definition new_process :: "umem \<Rightarrow> 'e world \<Rightarrow> 'e world" where
  "new_process m w = w\<lparr>wmem := m, wtable := utable_init, wmajor := -1, wout := []\<rparr>"

subsection \<open>Leaving by a signal\<close>

lemma interrupt_deregisters:
  assumes "major_agrees w"
  shows "signal_callback_handler sv SIGINT w = Ret (Exited 0, w\<lparr>wproxy := (wproxy w)\<lparr>ks := None\<rparr>\<rparr>)"
  using assms
  by (simp add: signal_callback_handler_def out_deregister_def deregister_server_def dev_ioctl_def
      major_agrees_def)

lemma killed_keeps_registration: "wproxy (server_killed w) = wproxy w"
  by (simp add: server_killed_def cdev_fops_def cdev_release_def)

text \<open>An insertion follows the file pointer of the registration.\<close>

lemma insertion_follows_file:
  assumes inv: "proxy_inv st" and md: "kmodules st md = Some km"
    and ok: "mt_put_ok (krealloc_mt sv) (ptable st)"
    and ks: "ks st = Some k" and dead: "eventfd_ctx_fileget sv (ks_fp k) = Crash f"
  shows "lxc_uio_proxy_put_module_1 sv u ns md st = Crash f"
proof -
  let ?e = "\<lparr>mt_uuid = u, mt_nsproxy = ns, mt_module = md\<rparr>"
  from inv have "mt_inv (ptable st)" by (simp add: proxy_inv_def)
  from mt_pending_put [OF this ok] obtain t1 where
    t1: "Module_Table.table_put (krealloc_mt sv) ?e (ptable st) = Ret (0, t1)" "mt_inv t1"
      "mt_pending t1 = mt_pending (ptable st) @ [?e]"
    by blast
  then have "table_peek t1 \<noteq> MtNull" by (simp add: table_peek_null_iff)
  with t1 md ks dead show ?thesis
    by (simp add: lxc_uio_proxy_put_module_1_def mod_deref_def send_event_def)
qed

lemma restarted:
  assumes inv: "running_inv ids w" and env: "setup_env_ok env ((wproxy w)\<lparr>ks := None\<rparr>)"
    and rng: "0 \<le> lxc_uio_cdev_major_number (wproxy w)" "lxc_uio_cdev_major_number (wproxy w) < 2 ^ 31"
    and us: "pending_uuids (wproxy w) = us" "distinct us" "length us \<le> 256"
    and known: "\<forall>u\<in>set us. \<exists>md. knows (wproxy w) u md"
    and envs: "list_all (\<lambda>env. drain_env_ok (st_new env)) envs" "length envs = Suc (length us)"
    and envs': "list_all process_env_ok envs'" "length envs' = Suc (length us)"
  obtains w1 w2 w' where "signal_callback_handler sv SIGINT w = Ret (Exited 0, w1)"
    "main_setup env (new_process m w1) = Ret (Drain, w2)"
    "main_run (envs @ envs') Drain w2 = Ret (Some (Wait, w'))"
    "map uuid (wentries w') = us" "list_all processed (wentries w')" "pending_uuids (wproxy w') = []"
proof -
  let ?w1 = "w\<lparr>wproxy := (wproxy w)\<lparr>ks := None\<rparr>\<rparr>"
  let ?n = "new_process m ?w1"
  have n: "wproxy ?n = (wproxy w)\<lparr>ks := None\<rparr>" "wtable ?n = utable_init"
    by (simp_all add: new_process_def)
  have p: "proxy_inv (wproxy ?n)" "setup_env_ok env (wproxy ?n)"
      "0 \<le> lxc_uio_cdev_major_number (wproxy ?n)" "lxc_uio_cdev_major_number (wproxy ?n) < 2 ^ 31"
    using inv env rng n by (simp_all add: running_inv_def)
  obtain w2 k where w2: "main_setup env ?n = Ret (Drain, w2)" "running_inv (pending_uuids (wproxy ?n)) w2"
    "wentries w2 = []" "room 256 w2" "wproxy w2 = (wproxy ?n)\<lparr>ks := Some k\<rparr>"
    by (rule setup_ok [OF p(2) n(2) p(3,4,1)])
  have r: "running_inv us w2" "room (length us) w2" "length us < 2 ^ 31"
      "\<forall>u\<in>set us. \<exists>md. knows (wproxy w2) u md"
    using w2(2,4,5) us known n(1) by (simp_all add: room_def knows_def)
  obtain w' where "main_run (envs @ envs') Drain w2 = Ret (Some (Wait, w'))"
    "map uuid (wentries w') = us" "list_all processed (wentries w')" "pending_uuids (wproxy w') = []"
    by (rule startup_run [OF r(1) w2(3) us(2) r(3,4,2) envs envs'])
  with w2(1) inv show thesis
    using interrupt_deregisters [of w sv] by (intro that [of ?w1 w2 w']) (simp_all add: running_inv_def)
qed

end
