(* ===== verification/Demo_Systems.thy ===== *)
theory Demo_Systems
  imports Demo_States Kernel_Tap Server_Restart
begin

text \<open>
  Concrete environments of the whole program, on top of \<open>Demo_States\<close>: the event file, the
  load of the module, the set-up and the steps of a server, and the kernel side of an
  insertion. The lemmas say that they satisfy the hypotheses of the properties.
\<close>

definition demo_ops :: "nat efd_ops" where
  "demo_ops = \<lparr>efd_ready = (\<lambda>n. 0 < n), efd_read = (\<lambda>_. 0)\<rparr>"

lemma demo_laws [simp]: "eventfd_laws demo_ops demo_sv"
  by (simp add: eventfd_laws_def demo_ops_def demo_sv_def)

definition demo_load :: load_env where
  "demo_load = \<lparr>le_kmalloc = Some (\<lambda>_. demo_entry 0), le_symbol = True, le_region = 0, le_major = 240,
     le_class = None, le_device = None, le_cdev = True, le_cdev_add = 0, le_proc = True\<rparr>"

definition demo_unloaded :: "nat lxmod" where
  "demo_unloaded =
     \<lparr>lx_proxy = (demo_proxy [] 0)\<lparr>ptable := mtable_init, lxc_uio_cdev_major_number := -1\<rparr>,
      lx_put_module = None, lx_held = {}\<rparr>"

lemma demo_load_ok: "fresh_module demo_unloaded" "load_env_sane demo_load"
  by (simp_all add: fresh_module_def demo_unloaded_def load_env_sane_def demo_load_def)

lemma demo_start: "\<exists>s'. start demo_load demo_unloaded = (0, s')"
  by (simp add: start_def load_table_def Module_Table.table_init_def create_chardev_def demo_load_def demo_unloaded_def
      mtable_init_def Let_def)

definition demo_major :: major_env where
  "demo_major = \<lparr>access_F_OK = 0, access_R_OK = 0, fopen_ok = True, malloc_ok = True, errno_before = 0\<rparr>"

lemma demo_major_ok [simp]: "major_env_ok demo_major"
  by (simp add: major_env_ok_def demo_major_def)

definition demo_setup :: "nat proxy \<Rightarrow> nat setup_env" where
  "demo_setup px = \<lparr>su_major = demo_major, su_file = lxc_uio_proc_show ''0x0'' px, su_kvm_open = 3,
     su_kvm_ext = 1, su_eventfd = 5, su_cdev_open = 6, su_sv = demo_sv,
     su_alloc = demo_alloc\<lparr>al_ptr := 4096\<rparr>\<rparr>"

lemma demo_setup_ok [simp]: "setup_env_ok (demo_setup px) px"
proof -
  have "kmalloc_ks demo_sv \<noteq> None" "fcheck demo_sv 5 \<noteq> 0" by (simp_all add: demo_sv_def)
  then show ?thesis by (auto simp: setup_env_ok_def demo_setup_def)
qed

definition demo_step :: "nat step_env" where
  "demo_step = \<lparr>st_new = demo_new, st_pe = demo_pe [(0, ExitHlt)], st_sv = demo_sv, st_select = 1,
     st_isset = True, st_read = 8, st_ctx = 1, st_efd_read = (\<lambda>_. 0)\<rparr>"

lemma demo_step_ok [simp]:
  "drain_env_ok (st_new demo_step)" "process_env_ok demo_step" "0 \<le> st_select demo_step"
  "st_isset demo_step" "st_read demo_step = 8" "st_ctx demo_step = 1"
  "st_efd_read demo_step = efd_read demo_ops" "pe_env_ok (st_pe demo_step) []"
proof -
  show pe: "pe_env_ok (st_pe demo_step) []" using demo_pe_ok [of "[]"] by (simp add: demo_step_def)
  then show "process_env_ok demo_step" by (auto simp: process_env_ok_def)
qed (simp_all add: demo_step_def drain_env_ok_def demo_new_def demo_ops_def)

text \<open>A server that has registered, with given entries and pending modules and the event
  counter of its file.\<close>

definition demo_live :: "u128 list \<Rightarrow> nat \<Rightarrow> UUID_table list \<Rightarrow> nat \<Rightarrow> nat world" where
  "demo_live us p es n =
     (demo_world us p es)\<lparr>wproxy := (demo_server us p)\<lparr>efds := (\<lambda>_. 0)(1 := n)\<rparr>\<rparr>"

lemma demo_live_simps [simp]:
  "wentries (demo_live us p es n) = es" "pending_uuids (wproxy (demo_live us p es n)) = drop p us"
  "efds (wproxy (demo_live us p es n)) 1 = n"
  "length es + k \<le> 256 \<Longrightarrow> room k (demo_live us p es n)"
  "wproxy (demo_live us p es n) = (demo_server us p)\<lparr>efds := (\<lambda>_. 0)(1 := n)\<rparr>"
  by (simp_all add: demo_live_def demo_server_simps room_def) (simp add: demo_utable_def)

lemma demo_live_inv:
  assumes "p \<le> length us" and "length us \<le> 256" and "length es \<le> 256" and "list_all flags_ok es"
    and "ids = map uuid es @ drop p us"
  shows "running_inv ids (demo_live us p es n)"
  using assms demo_server_simps(1) [OF assms(1,2)]
  by (simp add: running_inv_def major_agrees_def)
    (simp add: demo_live_def winv_def demo_server_def)

lemma demo_live_knows:
  assumes "p \<le> length us" and "length us \<le> 256" and "u \<in> set us"
  shows "knows (wproxy (demo_live us p es n)) u demo_module"
  using demo_knows [OF assms] by (simp add: demo_server_def knows_def)

lemmas demo_server_pending [simp] = demo_server_simps(7)

definition demo_done :: "u128 \<Rightarrow> UUID_table" where
  "demo_done u = (new_entry u demo_memory)\<lparr>processed := True\<rparr>"

lemma demo_done_simps [simp]: "uuid (demo_done u) = u" "processed (demo_done u)" "flags_ok (demo_done u)"
  by (simp_all add: demo_done_def new_entry_def flags_ok_def)

text \<open>A run of one step: a container inserts a module while the server waits.\<close>

lemma demo_insertion:
  obtains q where "running_inv [5] (demo_live [5] 1 [demo_done 5] 0)"
    "sys_run demo_ops 1 (Wait, demo_live [5] 1 [demo_done 5] 0) [7]
      (Wait, (demo_live [5] 1 [demo_done 5] 0)\<lparr>wproxy := q\<rparr>)"
proof -
  let ?w = "demo_live [5] 1 [demo_done 5] 0"
  have inv: "running_inv [5] ?w" by (rule demo_live_inv) simp_all
  have px: "proxy_inv (wproxy ?w)" using inv by (simp add: running_inv_def)
  have md: "kmodules (wproxy ?w) 64 = Some demo_module" "module_ok demo_module"
    by (simp_all add: demo_server_simps)
  have ok: "mt_put_ok (krealloc_mt demo_sv) (ptable (wproxy ?w))"
    using demo_server_simps(4) [of "[5]" 1] by simp
  have live: "server_live demo_sv (wproxy ?w)"
    using demo_server_simps(5) [of "[5]" 1] by (simp add: server_live_def)
  obtain q where "lxc_uio_proxy_put_module_1 demo_sv 7 0 64 (wproxy ?w) = Ret (0, q)"
    using put_module_returns [OF px md ok live] by metis
  from sys_step.container [OF md ok this, of demo_ops 1 Wait]
  have "sys_run demo_ops 1 (Wait, ?w) ([] @ [7]) (Wait, ?w\<lparr>wproxy := q\<rparr>)"
    by (rule sys_run.snoc [OF sys_run.nil])
  with inv show thesis by (intro that [of q]) simp_all
qed

subsection \<open>The kernel\<close>

definition demo_ns :: ns_env where
  "demo_ns = \<lparr>create_nsproxy = 0x100,
     nsproxy_new = \<lparr>mnt_ns = 0, uts_ns = 0, ipc_ns = 0, pid_ns_for_children = 0, cgroup_ns = 0, net_ns = 0\<rparr>,
     copy_mnt_ns = (\<lambda>_ _ _ _. KPtr 0x201), copy_utsname = (\<lambda>_ _ _. KPtr 0x202),
     copy_ipcs = (\<lambda>_ _ _. KPtr 0x203), copy_pid_ns = (\<lambda>_ _ _. KPtr 0x204),
     copy_cgroup_ns = (\<lambda>_ _ _. KPtr 0x205), copy_net_ns = (\<lambda>_ _ _. KPtr 0x206)\<rparr>"

definition demo_task :: task where
  "demo_task = \<lparr>tsk_nsproxy = nsproxy_new demo_ns, tsk_user_ns = 0x300, tsk_fs = 0x400\<rparr>"

definition demo_tap :: "module_state \<Rightarrow> nat tap_env" where
  "demo_tap state = \<lparr>ta_find = (\<lambda>n _. if n = ''lxc_uio_proxy'' then Some state else None),
     ta_name = ''lxc_uio_proxy'', ta_uuid = 7, ta_clone = 0x7e020000, ta_ns = demo_ns,
     ta_task = demo_task, ta_sv = demo_sv, ta_foreign = (\<lambda>_ _ _. 0)\<rparr>"

definition demo_ledger :: "ns_event list" where
  "demo_ledger = [AllocNsproxy 0x100, GotNs Mnt 0x201, GotNs Uts 0x202, GotNs Ipc 0x203,
     GotNs Pid 0x204, GotNs Cgroup 0x205, GotNs Net 0x206]"

lemma demo_copy:
  "\<exists>p. lxc_uio_nsproxy_deep_copy demo_ns fl demo_task = (0x100, p, demo_ledger)"
  by (simp add: lxc_uio_nsproxy_deep_copy_def lxc_uio_create_new_namespaces_def demo_ns_def ns_stage_def
      demo_ledger_def)

end
