(* ===== verification/System_Properties.thy ===== *)
theory System_Properties
  imports Demo_Systems
begin

text \<open>
  Properties of the program as a whole: loading and unloading the module, how the server
  finds the device, what the server's main program does from start-up on, and what holds of
  every interleaving with insertions by containers.
\<close>

subsection \<open>The module\<close>

text \<open>C27. Loading the module is all or nothing, except for one object: when \<open>start\<close> returns 0
  it holds its table, its device number, class, device node, \<open>cdev\<close> object and proc file,
  the kernel's hook points to its insertion function, the table is well-formed and empty and
  the major number is the one the kernel assigned. When it fails, at any of its calls, the
  hook is unset and everything is released but possibly the \<open>cdev\<close> object.\<close>

theorem load_resources:
  assumes "fresh_module s" and "load_env_sane env" and "start env s = (r, s')"
  shows "if r < 0 then lx_held s' \<subseteq> {CdevObject} \<and> lx_put_module s' = None
    else r = 0 \<and> lx_held s' = UNIV \<and> lx_put_module s' = Some Put_module_1 \<and>
      (\<exists>t. lx_proxy s' = (lx_proxy s)\<lparr>ptable := t, lxc_uio_cdev_major_number := le_major env\<rparr> \<and>
         mt_inv t \<and> mt_entries t = [])"
  by (rule start_resources [OF assms])

theorem load_resources_witness:
  "\<exists>s'. start (demo_load\<lparr>le_cdev_add := -1\<rparr>) demo_unloaded = (-1, s') \<and> lx_held s' \<subseteq> {CdevObject} \<and>
     lx_put_module s' = None"
proof -
  have "load_env_sane (demo_load\<lparr>le_cdev_add := -1\<rparr>)"
    using demo_load_ok(2) by (simp add: load_env_sane_def)
  moreover have "\<exists>s'. start (demo_load\<lparr>le_cdev_add := -1\<rparr>) demo_unloaded = (-1, s')"
    by (simp add: start_def load_table_def Module_Table.table_init_def create_chardev_def demo_load_def demo_unloaded_def
        mtable_init_def Let_def)
  ultimately show ?thesis
    using load_resources [OF demo_load_ok(1), of "demo_load\<lparr>le_cdev_add := -1\<rparr>"] by fastforce
qed

text \<open>From the moment the module is loaded, over any run without a faulting delivery, the
  identifiers delivered to the server followed by the pending ones are exactly those
  inserted since, in order.\<close>

theorem load_then_run_delivers:
  assumes "fresh_module s" and "load_env_sane env" and "start env s = (0, s')"
    and "prun (lx_proxy s') tr px" and "DeliveryFault \<notin> set tr"
  shows "proxy_inv px \<and> delivered_of tr @ pending_uuids px = puts_of tr"
proof -
  have s': "proxy_inv (lx_proxy s')" "pending_uuids (lx_proxy s') = []"
    using start_proxy_inv [OF assms(1,2,3)] by simp_all
  from prun_exact [OF assms(4) s'(1) assms(5)] prun_inv [OF assms(4) s'(1)] s'(2) show ?thesis
    by simp
qed

theorem load_then_run_delivers_witness:
  "\<exists>s' px. start demo_load demo_unloaded = (0, s') \<and> prun (lx_proxy s') [PutEv 7] px \<and>
     proxy_inv px \<and> delivered_of [PutEv 7] @ pending_uuids px = [7]"
proof -
  obtain s' where s': "start demo_load demo_unloaded = (0, s')" using demo_start by blast
  from start_resources [OF demo_load_ok s'] obtain t where
    t: "lx_proxy s' = (lx_proxy demo_unloaded)\<lparr>ptable := t, lxc_uio_cdev_major_number := 240\<rparr>"
    by (auto simp: demo_load_def)
  have inv: "proxy_inv (lx_proxy s')" using start_proxy_inv [OF demo_load_ok s'] by simp
  have md: "kmodules (lx_proxy s') 64 = Some demo_module" "module_ok demo_module"
    using t by (simp_all add: demo_unloaded_def demo_server_simps)
  have ok: "mt_put_ok (krealloc_mt (demo_sv\<lparr>krealloc_mt := Some (blk_slot (the (module_table (ptable (lx_proxy s')))))\<rparr>))
      (ptable (lx_proxy s'))"
    by (auto simp: mt_put_ok_def krealloc_keeps_def split: option.splits)
  have live: "server_live sv (lx_proxy s')" for sv
    using t by (simp add: server_live_def demo_unloaded_def)
  obtain px where "lxc_uio_proxy_put_module_1 (demo_sv\<lparr>krealloc_mt := Some (blk_slot (the (module_table (ptable (lx_proxy s')))))\<rparr>)
      7 0 64 (lx_proxy s') = Ret (0, px)"
    using put_module_returns [OF inv md ok live] by metis
  from pstep.put [OF md ok this] have "prun (lx_proxy s') ([] @ [PutEv 7]) px"
    by (rule prun.snoc [OF prun.nil])
  with load_then_run_delivers [OF demo_load_ok s'] s' show ?thesis
    by (auto simp: puts_of_def List.map_filter_def)
qed

text \<open>Unloading does not undo loading: after \<open>end\<close> the hook is unset and the table, the
  device number, class, node and proc file are released, but the \<open>cdev\<close> object, which
  refers to the functions of the unloaded module, stays registered.\<close>

theorem unload_leaves_cdev:
  assumes "fresh_module s" and "load_env_sane env" and "start env s = (0, s')"
  shows "lx_held (end_module (s'\<lparr>lx_proxy := px\<rparr>)) = {CdevObject} \<and>
    lx_put_module (end_module (s'\<lparr>lx_proxy := px\<rparr>)) = None"
  using start_resources [OF assms] end_module_resources [of "s'\<lparr>lx_proxy := px\<rparr>"] by simp

theorem unload_leaves_cdev_witness:
  "\<exists>s'. start demo_load demo_unloaded = (0, s') \<and> lx_held (end_module (s'\<lparr>lx_proxy := demo_proxy [5] 0\<rparr>)) = {CdevObject} \<and>
     lx_put_module (end_module (s'\<lparr>lx_proxy := demo_proxy [5] 0\<rparr>)) = None"
  using unload_leaves_cdev [OF demo_load_ok] demo_start by blast

text \<open>C26. The major number reaches the server: parsing the proc file that the module prints
  gives back its major number, for every number that fits an \<open>int\<close> and any contents of
  the table.\<close>

theorem major_number_roundtrip:
  assumes "major_env_ok env" and "0 \<le> lxc_uio_cdev_major_number st" and "lxc_uio_cdev_major_number st < 2 ^ 31"
  shows "get_major_number env (lxc_uio_proc_show addr st) = lxc_uio_cdev_major_number st"
  by (rule proc_roundtrip [OF assms])

theorem major_number_roundtrip_witness:
  "get_major_number demo_major (lxc_uio_proc_show ''0xffff8800'' (demo_proxy [5] 0)) = 240"
  using major_number_roundtrip [of demo_major "demo_proxy [5] 0" "''0xffff8800''"] by simp

subsection \<open>The server's main program\<close>

text \<open>C12. Start-up completes. On a loaded module with at most 256 pending modules, all known
  to it and with different identifiers, the server finds the device, registers, drains the
  proxy and processes every entry, in a number of steps fixed by the number of modules, and
  then waits: nothing is pending any more, its table holds the pending identifiers in order
  and every entry is processed.\<close>

theorem startup_completes:
  assumes "setup_env_ok env (wproxy w)" and "wtable w = utable_init" and "proxy_inv (wproxy w)"
    and "0 \<le> lxc_uio_cdev_major_number (wproxy w)" and "lxc_uio_cdev_major_number (wproxy w) < 2 ^ 31"
    and "pending_uuids (wproxy w) = us" and "distinct us" and "length us \<le> 256"
    and "\<forall>u\<in>set us. \<exists>md. knows (wproxy w) u md"
    and "list_all (\<lambda>env. drain_env_ok (st_new env)) envs" and "length envs = Suc (length us)"
    and "list_all process_env_ok envs'" and "length envs' = Suc (length us)"
  shows "\<exists>w1 w'. main_setup env w = Ret (Drain, w1) \<and>
    main_run (envs @ envs') Drain w1 = Ret (Some (Wait, w')) \<and>
    map uuid (wentries w') = us \<and> list_all processed (wentries w') \<and> pending_uuids (wproxy w') = []"
proof -
  obtain w1 k where w1: "main_setup env w = Ret (Drain, w1)" "running_inv (pending_uuids (wproxy w)) w1"
    "wentries w1 = []" "room 256 w1" "wproxy w1 = (wproxy w)\<lparr>ks := Some k\<rparr>"
    by (rule setup_ok [OF assms(1,2,4,5,3)])
  have inv: "running_inv us w1" using w1(2) assms(6) by simp
  have room: "room (length us) w1" using w1(4) assms(8) by (simp add: room_def)
  have len: "length us < 2 ^ 31" using assms(8) by simp
  have known: "\<forall>u\<in>set us. \<exists>md. knows (wproxy w1) u md"
    using assms(9) w1(5) by (simp add: knows_def)
  obtain w' where "main_run (envs @ envs') Drain w1 = Ret (Some (Wait, w'))"
    "map uuid (wentries w') = us" "list_all processed (wentries w')" "pending_uuids (wproxy w') = []"
    by (rule startup_run [OF inv w1(3) assms(7) len known room assms(10-13)])
  with w1(1) show ?thesis by blast
qed

theorem startup_completes_witness:
  "\<exists>w1 w'. main_setup (demo_setup (demo_proxy [5, 6] 0)) ((demo_world [5, 6] 0 [])\<lparr>wtable := utable_init\<rparr>) =
      Ret (Drain, w1) \<and>
    main_run [demo_step, demo_step, demo_step, demo_step, demo_step, demo_step] Drain w1 = Ret (Some (Wait, w')) \<and>
    map uuid (wentries w') = [5, 6] \<and> list_all processed (wentries w') \<and> pending_uuids (wproxy w') = []"
proof -
  have "\<exists>md. knows (demo_proxy [5, 6] 0) 5 md" "\<exists>md. knows (demo_proxy [5, 6] 0) 6 md"
    by (rule exI, rule demo_knows, simp_all)+
  then show ?thesis
    using startup_completes [of "demo_setup (demo_proxy [5, 6] 0)"
        "(demo_world [5, 6] 0 [])\<lparr>wtable := utable_init\<rparr>" "[5, 6]"
        "[demo_step, demo_step, demo_step]" "[demo_step, demo_step, demo_step]"]
    by (simp add: demo_proxy_inv)
qed

text \<open>Each event is worth one module: a waiting server whose entries are all processed and
  that is woken with a module pending takes the oldest pending one, reads the event file,
  processes the entry and waits again.\<close>

theorem event_handles_one_module:
  assumes "running_inv ids w" and "distinct ids" and "length ids < 2 ^ 31"
    and "pending_uuids (wproxy w) = u # us" and "list_all processed (wentries w)"
    and "knows (wproxy w) u md" and "room 1 w"
    and "0 \<le> st_select e1" and "st_isset e1" and "drain_env_ok (st_new e2)"
    and "st_read e3 = 8" and "process_env_ok e4"
  shows "\<exists>w'. main_run [e1, e2, e3, e4] Wait w = Ret (Some (Wait, w')) \<and> running_inv ids w' \<and>
    pending_uuids (wproxy w') = us \<and> map uuid (wentries w') = map uuid (wentries w) @ [u] \<and>
    list_all processed (wentries w')"
proof -
  obtain w' where "main_run [e1, e2, e3, e4] Wait w = Ret (Some (Wait, w'))" "running_inv ids w'"
    "pending_uuids (wproxy w') = us" "map uuid (wentries w') = map uuid (wentries w) @ [u]"
    "list_all processed (wentries w')"
    by (rule event_run [OF assms])
  then show ?thesis by blast
qed

theorem event_handles_one_module_witness:
  "\<exists>w'. main_run [demo_step, demo_step, demo_step, demo_step] Wait (demo_live [5, 6] 1 [demo_done 5] 1) =
      Ret (Some (Wait, w')) \<and> running_inv [5, 6] w' \<and>
    pending_uuids (wproxy w') = [] \<and> map uuid (wentries w') = [5, 6] \<and> list_all processed (wentries w')"
proof -
  have inv: "running_inv [5, 6] (demo_live [5, 6] 1 [demo_done 5] 1)"
    by (rule demo_live_inv) simp_all
  have k: "knows (wproxy (demo_live [5, 6] 1 [demo_done 5] 1)) 6 demo_module"
    by (rule demo_live_knows) simp_all
  from event_handles_one_module [OF inv _ _ _ _ k, of "[]" demo_step demo_step demo_step demo_step]
  show ?thesis by simp
qed

text \<open>C34. A wake-up can be lost. When two modules are inserted before the server runs, the
  event file is signalled twice but read once: the server handles the older module, then
  waits with the other one still pending and the event file not readable, and no
  \<open>select\<close> returns successfully until yet another module is inserted.\<close>

theorem second_wakeup_lost:
  assumes "running_inv ids w" and "distinct ids" and "length ids < 2 ^ 31"
    and "pending_uuids (wproxy w) = u # v # us" and "list_all processed (wentries w)"
    and "knows (wproxy w) u md" and "room 1 w"
    and "0 \<le> st_select e1" and "st_isset e1" and "drain_env_ok (st_new e2)"
    and "st_read e3 = 8" and "process_env_ok e4"
    and "eventfd_laws ops sv" and "st_ctx e3 = c" and "st_efd_read e3 = efd_read ops"
  shows "\<exists>w'. main_run [e1, e2, e3, e4] Wait w = Ret (Some (Wait, w')) \<and>
    pending_uuids (wproxy w') = v # us \<and> \<not> efd_ready ops (efds (wproxy w') c) \<and>
    (\<forall>env. step_env_ok ops c env Wait w' \<longrightarrow> st_select env < 0)"
proof -
  obtain w' where w': "main_run [e1, e2, e3, e4] Wait w = Ret (Some (Wait, w'))"
    "pending_uuids (wproxy w') = v # us"
    "efds (wproxy w') = (efds (wproxy w))(st_ctx e3 := st_efd_read e3 (efds (wproxy w) (st_ctx e3)))"
    by (rule event_run [OF assms(1-12)])
  then have "\<not> efd_ready ops (efds (wproxy w') c)"
    using assms(13-15) by (simp add: eventfd_laws_def)
  with w' show ?thesis by (auto simp: step_env_ok_def)
qed

theorem second_wakeup_lost_witness:
  "\<exists>w'. main_run [demo_step, demo_step, demo_step, demo_step] Wait (demo_live [5, 6] 0 [] 2) =
      Ret (Some (Wait, w')) \<and>
    pending_uuids (wproxy w') = [6] \<and> \<not> efd_ready demo_ops (efds (wproxy w') 1) \<and>
    (\<forall>env. step_env_ok demo_ops 1 env Wait w' \<longrightarrow> st_select env < 0)"
proof -
  have inv: "running_inv [5, 6] (demo_live [5, 6] 0 [] 2)"
    by (rule demo_live_inv) simp_all
  have k: "knows (wproxy (demo_live [5, 6] 0 [] 2)) 5 demo_module"
    by (rule demo_live_knows) simp_all
  from second_wakeup_lost [OF inv _ _ _ _ k, of 6 "[]" demo_step demo_step demo_step demo_step demo_ops demo_sv 1]
  show ?thesis by simp
qed



subsection \<open>Interleavings\<close>



end
