(* ===== verification/Module_Header.thy ===== *)
theory Module_Header
  imports Struct_Layout Module_Space
begin

text \<open>
  The structures that the kernel header \<open>module.h\<close> declares for a loaded module, as C types.
  What the header takes from elsewhere is a parameter: the configuration of the kernel (a
  record of its options) and the types of other headers (a record of C types). The lemmas
  give the places of the two areas of a module that the proxy reads, \<open>core_layout\<close> and
  \<open>init_layout\<close>, for every configuration. The inline functions of the header read only
  members that the configuration declares.
\<close>

subsection \<open>Parameters\<close>

record kconfig =
  SYSFS :: bool
  UNUSED_SYMBOLS :: bool
  MODULE_SIG :: bool
  MODULES_TREE_LOOKUP :: bool
  GENERIC_BUG :: bool
  KALLSYMS :: bool
  SMP :: bool
  TRACEPOINTS :: bool
  HAVE_JUMP_LABEL :: bool
  TRACING :: bool
  EVENT_TRACING :: bool
  FTRACE_MCOUNT_RECORD :: bool
  LIVEPATCH :: bool
  MODULE_UNLOAD :: bool
  CONSTRUCTORS :: bool

record kernel_types =
  list_head_t :: ctype
  kobject_t :: ctype
  attribute_t :: ctype
  mutex_t :: ctype
  latch_tree_node_t :: ctype
  mod_arch_specific_t :: ctype
  Elf_Ehdr_t :: ctype
  atomic_t :: ctype
  MODULE_NAME_LEN :: nat
  cacheline :: nat

text \<open>What is relied on: the other headers declare C types, and a cache line has 16, 32 or 64
  bytes.\<close>

definition kernel_types_ok :: "kernel_types \<Rightarrow> bool" where
  "kernel_types_ok K \<longleftrightarrow>
     list_all c_wf [list_head_t K, kobject_t K, attribute_t K, mutex_t K, latch_tree_node_t K,
       mod_arch_specific_t K, Elf_Ehdr_t K, atomic_t K] \<and>
     cacheline K \<in> {16, 32, 64}"

subsection \<open>Fields\<close>

primrec members :: "(string \<times> ctype) list \<Rightarrow> cfields" where
  "members [] = NoField"
| "members (f # fs) = Field (fst f) (snd f) (members fs)"

text \<open>A block of the declaration between \<open>#ifdef\<close> and \<open>#endif\<close>.\<close>

definition ifdef :: "bool \<Rightarrow> 'a list \<Rightarrow> 'a list" where
  "ifdef option fs = (if option then fs else [])"

text \<open>A structure with an alignment attribute of its own: its size is rounded up to it, as
  with a first field that is empty and so aligned.\<close>

definition aligned_struct :: "nat \<Rightarrow> (string \<times> ctype) list \<Rightarrow> ctype" where
  "aligned_struct n fs = Struct (members (('''', Aligned n (Bytes 0)) # fs))"

abbreviation pointer :: ctype where "pointer \<equiv> Scalar 8"
abbreviation unsigned_int :: ctype where "unsigned_int \<equiv> Scalar 4"
abbreviation unsigned_long :: ctype where "unsigned_long \<equiv> Scalar 8"
abbreviation c_bool :: ctype where "c_bool \<equiv> Scalar 1"

subsection \<open>The smaller structures\<close>

definition modversion_info_t :: "kernel_types \<Rightarrow> ctype" where
  "modversion_info_t K = Struct (members
     [(''crc'', unsigned_long),
      (''name'', Bytes (MODULE_NAME_LEN K))])"

definition module_kobject_t :: "kernel_types \<Rightarrow> ctype" where
  "module_kobject_t K = Struct (members
     [(''kobj'', kobject_t K),
      (''mod'', pointer),
      (''drivers_dir'', pointer),
      (''mp'', pointer),
      (''kobj_completion'', pointer)])"

definition module_attribute_t :: "kernel_types \<Rightarrow> ctype" where
  "module_attribute_t K = Struct (members
     [(''attr'', attribute_t K),
      (''show'', pointer),
      (''store'', pointer),
      (''setup'', pointer),
      (''test'', pointer),
      (''free'', pointer)])"

definition module_version_attribute_t :: "kernel_types \<Rightarrow> ctype" where
  "module_version_attribute_t K = aligned_struct 8
     [(''mattr'', module_attribute_t K),
      (''module_name'', pointer),
      (''version'', pointer)]"

definition module_use_t :: "kernel_types \<Rightarrow> ctype" where
  "module_use_t K = Struct (members
     [(''source_list'', list_head_t K),
      (''target_list'', list_head_t K),
      (''source'', pointer),
      (''target'', pointer)])"

definition mod_tree_node_t :: "kernel_types \<Rightarrow> ctype" where
  "mod_tree_node_t K = Struct (members
     [(''mod'', pointer),
      (''node'', latch_tree_node_t K)])"

definition mod_kallsyms_t :: ctype where
  "mod_kallsyms_t = Struct (members
     [(''symtab'', pointer),
      (''num_symtab'', unsigned_int),
      (''strtab'', pointer)])"

definition klp_modinfo_t :: "kernel_types \<Rightarrow> ctype" where
  "klp_modinfo_t K = Struct (members
     [(''hdr'', Elf_Ehdr_t K),
      (''sechdrs'', pointer),
      (''secstrings'', pointer),
      (''symndx'', unsigned_int)])"

text \<open>\<open>struct module_layout\<close>, whose tree node is there only with \<open>MODULES_TREE_LOOKUP\<close>; with it
  the core layout of a module is aligned to a cache line.\<close>

definition layout_t :: "kconfig \<Rightarrow> kernel_types \<Rightarrow> ctype" where
  "layout_t C K = Struct (members (
     [(''base'', pointer),
      (''size'', unsigned_int),
      (''text_size'', unsigned_int),
      (''ro_size'', unsigned_int)] @
     ifdef (MODULES_TREE_LOOKUP C) [(''mtn'', mod_tree_node_t K)]))"

definition module_layout_align :: "kconfig \<Rightarrow> kernel_types \<Rightarrow> ctype \<Rightarrow> ctype" where
  "module_layout_align C K t = (if MODULES_TREE_LOOKUP C then Aligned (cacheline K) t else t)"

subsection \<open>struct module\<close>

definition module_symbols :: "kconfig \<Rightarrow> kernel_types \<Rightarrow> (string \<times> ctype) list" where
  "module_symbols C K =
     [(''state'', unsigned_int),
      (''list'', list_head_t K),
      (''name'', Bytes (MODULE_NAME_LEN K)),
      (''mkobj'', module_kobject_t K),
      (''modinfo_attrs'', pointer),
      (''version'', pointer),
      (''srcversion'', pointer),
      (''holders_dir'', pointer),
      (''syms'', pointer),
      (''crcs'', pointer),
      (''num_syms'', unsigned_int)] @
     ifdef (SYSFS C) [(''param_lock'', mutex_t K)] @
     [(''kp'', pointer),
      (''num_kp'', unsigned_int),
      (''num_gpl_syms'', unsigned_int),
      (''gpl_syms'', pointer),
      (''gpl_crcs'', pointer)]"

definition module_unused_symbols :: "kconfig \<Rightarrow> (string \<times> ctype) list" where
  "module_unused_symbols C =
     ifdef (UNUSED_SYMBOLS C)
      [(''unused_syms'', pointer),
       (''unused_crcs'', pointer),
       (''num_unused_syms'', unsigned_int),
       (''num_unused_gpl_syms'', unsigned_int),
       (''unused_gpl_syms'', pointer),
       (''unused_gpl_crcs'', pointer)]"

definition module_init_part :: "kconfig \<Rightarrow> (string \<times> ctype) list" where
  "module_init_part C =
     ifdef (MODULE_SIG C) [(''sig_ok'', c_bool)] @
     [(''async_probe_requested'', c_bool),
      (''gpl_future_syms'', pointer),
      (''gpl_future_crcs'', pointer),
      (''num_gpl_future_syms'', unsigned_int),
      (''num_exentries'', unsigned_int),
      (''extable'', pointer),
      (''init'', pointer)]"

definition module_areas :: "kconfig \<Rightarrow> kernel_types \<Rightarrow> (string \<times> ctype) list" where
  "module_areas C K =
     [(''core_layout'', module_layout_align C K (layout_t C K)),
      (''init_layout'', layout_t C K)]"

definition module_debug_part :: "kconfig \<Rightarrow> kernel_types \<Rightarrow> (string \<times> ctype) list" where
  "module_debug_part C K =
     [(''arch'', mod_arch_specific_t K),
      (''taints'', unsigned_int)] @
     ifdef (GENERIC_BUG C)
      [(''num_bugs'', unsigned_int),
       (''bug_list'', list_head_t K),
       (''bug_table'', pointer)] @
     ifdef (KALLSYMS C)
      [(''kallsyms'', pointer),
       (''core_kallsyms'', mod_kallsyms_t),
       (''sect_attrs'', pointer),
       (''notes_attrs'', pointer)] @
     [(''args'', pointer)] @
     ifdef (SMP C) [(''percpu'', pointer), (''percpu_size'', unsigned_int)] @
     ifdef (TRACEPOINTS C) [(''num_tracepoints'', unsigned_int), (''tracepoints_ptrs'', pointer)]"

definition module_trace_part :: "kconfig \<Rightarrow> (string \<times> ctype) list" where
  "module_trace_part C =
     ifdef (HAVE_JUMP_LABEL C) [(''jump_entries'', pointer), (''num_jump_entries'', unsigned_int)] @
     ifdef (TRACING C)
      [(''num_trace_bprintk_fmt'', unsigned_int), (''trace_bprintk_fmt_start'', pointer)] @
     ifdef (EVENT_TRACING C)
      [(''trace_events'', pointer),
       (''num_trace_events'', unsigned_int),
       (''trace_enums'', pointer),
       (''num_trace_enums'', unsigned_int)] @
     ifdef (FTRACE_MCOUNT_RECORD C)
      [(''num_ftrace_callsites'', unsigned_int), (''ftrace_callsites'', pointer)]"

definition module_unload_part :: "kconfig \<Rightarrow> kernel_types \<Rightarrow> (string \<times> ctype) list" where
  "module_unload_part C K =
     ifdef (LIVEPATCH C) [(''klp'', c_bool), (''klp_alive'', c_bool), (''klp_info'', pointer)] @
     ifdef (MODULE_UNLOAD C)
      [(''source_list'', list_head_t K),
       (''target_list'', list_head_t K),
       (''exit'', pointer),
       (''refcnt'', atomic_t K)] @
     ifdef (CONSTRUCTORS C) [(''ctors'', pointer), (''num_ctors'', unsigned_int)]"

definition module_t :: "kconfig \<Rightarrow> kernel_types \<Rightarrow> ctype" where
  "module_t C K = aligned_struct (cacheline K)
     (module_symbols C K @ module_unused_symbols C @ module_init_part C @ module_areas C K @
      module_debug_part C K @ module_trace_part C @ module_unload_part C K)"

definition symsearch_t :: ctype where
  "symsearch_t = Struct (members
     [(''start'', pointer),
      (''stop'', pointer),
      (''crcs'', pointer),
      (''licence'', unsigned_int),
      (''unused'', c_bool)])"

subsection \<open>Inline functions\<close>

text \<open>The members of a module that the inline functions of the header read. A pointer to a module
  is an option where the function tests it; the others read through it untested. Without
  \<open>MODULE_UNLOAD\<close> a reference is a test only; with it, taking one is a function of the kernel.\<close>

record module_members =
  mm_name :: string
  mm_state :: module_state
  mm_async_probe_requested :: bool
  mm_klp :: bool
  mm_sig_ok :: bool

definition try_module_get :: "kconfig \<Rightarrow> (module_members option \<Rightarrow> bool) \<Rightarrow> module_members option \<Rightarrow> bool" where
  "try_module_get C take_reference m =
     (if MODULE_UNLOAD C then take_reference m
      else case m of None \<Rightarrow> True | Some md \<Rightarrow> module_is_live (mm_state md))"

definition module_name_of :: "module_members option \<Rightarrow> string" where
  "module_name_of m = (case m of None \<Rightarrow> ''kernel'' | Some md \<Rightarrow> mm_name md)"

definition module_requested_async_probing :: "module_members option \<Rightarrow> bool" where
  "module_requested_async_probing m \<longleftrightarrow> (case m of None \<Rightarrow> False | Some md \<Rightarrow> mm_async_probe_requested md)"

definition is_livepatch_module :: "kconfig \<Rightarrow> module_members \<Rightarrow> bool" where
  "is_livepatch_module C md \<longleftrightarrow> (if LIVEPATCH C then mm_klp md else False)"

definition module_sig_ok :: "kconfig \<Rightarrow> module_members \<Rightarrow> bool" where
  "module_sig_ok C md \<longleftrightarrow> (if MODULE_SIG C then mm_sig_ok md else True)"

subsection \<open>Layout of consecutive blocks\<close>

lemma c_end_append: "c_end (members (xs @ ys)) off = c_end (members ys) (c_end (members xs) off)"
  by (induction xs arbitrary: off) simp_all

lemma c_fields_append:
  "c_fields (members (xs @ ys)) off = c_fields (members xs) off @ c_fields (members ys) (c_end (members xs) off)"
  by (induction xs arbitrary: off) (simp_all add: Let_def)

lemma c_fields_names: "map fst (c_fields (members xs) off) = map fst xs"
  by (induction xs arbitrary: off) (simp_all add: Let_def)

lemma c_wfs_fields [simp]: "c_wfs (members xs) \<longleftrightarrow> list_all (\<lambda>f. c_wf (snd f)) xs"
  by (induction xs) simp_all

lemma field_after:
  assumes "x \<notin> set (map fst xs)"
  shows "field_offset (Struct (members (xs @ (x, t) # ys))) x = Some (align_up (c_end (members xs) 0) (c_align t))"
proof -
  have "map_of (c_fields (members xs) 0) x = None"
    using assms c_fields_names [of xs 0] unfolding map_of_eq_None_iff by (metis set_map)
  then show ?thesis by (simp add: c_fields_append map_add_def Let_def)
qed

lemma align_up_fits: "a dvd n \<Longrightarrow> 0 < a \<Longrightarrow> align_up n a = n"
  using div_mult_self3 [of a "n div a" "a - 1"] by (auto simp: align_up_def elim!: dvdE)

lemma pointer_end: "8 dvd c_end (members (xs @ [(x, pointer)])) off"
  by (simp add: c_end_append)

lemma ifdef_simps [simp]: "ifdef True fs = fs" "ifdef False fs = []"
  by (simp_all add: ifdef_def)

subsection \<open>The areas of a module\<close>

definition before_areas :: "kconfig \<Rightarrow> kernel_types \<Rightarrow> (string \<times> ctype) list" where
  "before_areas C K = ('''', Aligned (cacheline K) (Bytes 0)) #
     module_symbols C K @ module_unused_symbols C @ module_init_part C"

definition symbols_end :: "kconfig \<Rightarrow> kernel_types \<Rightarrow> nat" where
  "symbols_end C K = c_end (members (('''', Aligned (cacheline K) (Bytes 0)) # module_symbols C K)) 0"

lemma symbols_end_dvd: "8 dvd symbols_end C K"
  using pointer_end [of "('''', Aligned (cacheline K) (Bytes 0)) # butlast (module_symbols C K)" "''gpl_crcs''" 0]
  by (simp add: symbols_end_def module_symbols_def butlast_append)

lemma unused_end: "8 dvd off \<Longrightarrow>
    c_end (members (module_unused_symbols C)) off = off + (if UNUSED_SYMBOLS C then 40 else 0)"
  by (auto simp: module_unused_symbols_def align_up_def elim!: dvdE) presburger

lemma init_part_end: "8 dvd off \<Longrightarrow> c_end (members (module_init_part C)) off = off + 48"
  by (cases "MODULE_SIG C") (auto simp: module_init_part_def align_up_def elim!: dvdE, presburger+)

lemma before_areas_end:
  "c_end (members (before_areas C K)) 0 = symbols_end C K + (if UNUSED_SYMBOLS C then 88 else 48)"
proof -
  have "8 dvd symbols_end C K + (if UNUSED_SYMBOLS C then 40 else 0)"
    using symbols_end_dvd [of C K] by simp
  with symbols_end_dvd [of C K] show ?thesis
    using c_end_append [of "('''', Aligned (cacheline K) (Bytes 0)) # module_symbols C K"
        "module_unused_symbols C @ module_init_part C" 0]
    by (simp add: before_areas_def symbols_end_def [symmetric] c_end_append unused_end init_part_end
        del: members.simps)
qed

text \<open>The options on which the places of the areas depend, and the place itself.\<close>

definition core_offset_of :: "kconfig \<Rightarrow> kernel_types \<Rightarrow> nat" where
  "core_offset_of C K = align_up (symbols_end C K + (if UNUSED_SYMBOLS C then 88 else 48))
     (c_align (module_layout_align C K (layout_t C K)))"

lemma symbols_end_cong: "SYSFS C' = SYSFS C \<Longrightarrow> symbols_end C' K = symbols_end C K"
  by (simp add: symbols_end_def module_symbols_def)

lemma layout_cong:
  "MODULES_TREE_LOOKUP C' = MODULES_TREE_LOOKUP C \<Longrightarrow>
     layout_t C' K = layout_t C K \<and> module_layout_align C' K t = module_layout_align C K t"
  by (simp add: layout_t_def module_layout_align_def)

lemma layout_wf:
  assumes "kernel_types_ok K"
  shows "c_wf (layout_t C K)" "0 < c_align (layout_t C K)"
proof -
  show wf: "c_wf (layout_t C K)"
    using assms by (auto simp: layout_t_def kernel_types_ok_def mod_tree_node_t_def ifdef_def)
  then show "0 < c_align (layout_t C K)" by (rule align_pos)
qed

lemma core_align:
  assumes "kernel_types_ok K"
  shows "c_align (layout_t C K) dvd c_align (module_layout_align C K (layout_t C K))"
    and "0 < c_align (module_layout_align C K (layout_t C K))"
    and "MODULES_TREE_LOOKUP C \<Longrightarrow> cacheline K dvd c_align (module_layout_align C K (layout_t C K))"
  using max_align_dvd [of "cacheline K" "c_align (layout_t C K)"] align_range(1) [OF layout_wf(1) [OF assms]]
    assms layout_wf(2) [OF assms, of C]
  by (auto simp: module_layout_align_def kernel_types_ok_def)

lemma module_t_areas:
  "module_t C K = Struct (members (before_areas C K @ module_areas C K @
     module_debug_part C K @ module_trace_part C @ module_unload_part C K))"
  by (simp add: module_t_def aligned_struct_def before_areas_def)

lemma before_areas_names: "{''core_layout'', ''init_layout''} \<inter> set (map fst (before_areas C K)) = {}"
  by (auto simp: before_areas_def module_symbols_def module_unused_symbols_def module_init_part_def ifdef_def)

lemma core_field: "field_offset (module_t C K) ''core_layout'' = Some (core_offset_of C K)"
  using field_after [of "''core_layout''" "before_areas C K"] before_areas_names [of C K]
  by (simp add: module_t_areas module_areas_def core_offset_of_def before_areas_end)

lemma init_field:
  assumes "kernel_types_ok K"
  shows "field_offset (module_t C K) ''init_layout'' = Some (core_offset_of C K + c_size (layout_t C K))"
proof -
  let ?core = "(''core_layout'', module_layout_align C K (layout_t C K))"
  have "c_end (members (before_areas C K @ [?core])) 0 = core_offset_of C K + c_size (layout_t C K)"
    by (simp add: c_end_append before_areas_end core_offset_of_def) (simp add: module_layout_align_def)
  moreover have "c_align (layout_t C K) dvd core_offset_of C K + c_size (layout_t C K)"
    using dvd_trans [OF core_align(1) [OF assms, of C] align_up_dvd]
    by (simp add: core_offset_of_def layout_t_def)
  ultimately show ?thesis
    using field_after [of "''init_layout''" "before_areas C K @ [?core]"] before_areas_names [of C K]
      align_up_fits layout_wf(2) [OF assms, of C]
    by (simp add: module_t_areas module_areas_def del: field_offset.simps)
qed

lemma list_all_ifdef [simp]: "list_all P (ifdef b fs) \<longleftrightarrow> (b \<longrightarrow> list_all P fs)"
  by (simp add: ifdef_def)

lemma module_wf: "kernel_types_ok K \<Longrightarrow> c_wf (module_t C K)"
  using layout_wf(1) [of K C]
  by (auto simp: kernel_types_ok_def module_t_def aligned_struct_def module_symbols_def module_areas_def
      module_unused_symbols_def module_init_part_def module_debug_part_def module_trace_part_def
      module_unload_part_def module_kobject_t_def mod_kallsyms_t_def module_layout_align_def)

lemma module_size_dvd:
  assumes "kernel_types_ok K"
  shows "cacheline K dvd c_size (module_t C K)"
proof -
  obtain fs where m: "module_t C K = Struct (Field '''' (Aligned (cacheline K) (Bytes 0)) fs)"
    by (simp add: module_t_def aligned_struct_def)
  with module_wf [OF assms, of C] have fs: "c_wfs fs" by simp
  have cl: "cacheline K \<in> {16, 32, 64}" using assms by (simp add: kernel_types_ok_def)
  then have "cacheline K dvd max (cacheline K) (c_aligns fs)"
    using max_align_dvd [OF _ align_range(2) [OF fs], of "cacheline K"] by auto
  moreover have "max (cacheline K) 1 = cacheline K" using cl by auto
  ultimately show ?thesis
    unfolding m by (simp add: dvd_trans [OF _ align_up_dvd])
qed

text \<open>The server's own declaration of the structure starts like the kernel's, whatever the
  configuration.\<close>

lemma layout_heads_agree:
  "x \<in> {''base'', ''size'', ''text_size'', ''ro_size''} \<Longrightarrow>
     field_offset (layout_t C K) x = field_offset module_layout_t x"
  by (auto simp: layout_t_def module_layout_t_def align_up_def Let_def)

lemma layout_is_kernel_layout:
  "MODULES_TREE_LOOKUP C \<Longrightarrow> layout_t C K = kernel_module_layout_t (mod_tree_node_t K)"
  by (simp add: layout_t_def kernel_module_layout_t_def)

lemma layout_without_tree:
  assumes "\<not> MODULES_TREE_LOOKUP C"
  shows "c_size (layout_t C K) = 24" "c_align (module_layout_align C K (layout_t C K)) = 8"
  using assms by (simp_all add: layout_t_def module_layout_align_def align_up_def)

lemma unused_symbols_shift:
  assumes "\<not> MODULES_TREE_LOOKUP C" and "C' = C\<lparr>UNUSED_SYMBOLS := \<not> UNUSED_SYMBOLS C\<rparr>"
  shows "core_offset_of C' K + (if UNUSED_SYMBOLS C then 40 else 0) =
    core_offset_of C K + (if UNUSED_SYMBOLS C then 0 else 40)"
proof -
  have "symbols_end C' K = symbols_end C K" using assms(2) by (intro symbols_end_cong) simp
  moreover have "8 dvd symbols_end C K" by (rule symbols_end_dvd)
  ultimately show ?thesis
    using assms layout_without_tree(2) [of C K] layout_without_tree(2) [of C' K]
    by (simp add: core_offset_of_def align_up_fits)
qed

lemma layout_dvd:
  assumes "kernel_types_ok K"
  shows "8 dvd c_align (layout_t C K)"
proof -
  obtain fs where l: "layout_t C K = Struct (Field ''base'' pointer fs)"
    by (simp add: layout_t_def)
  with layout_wf(1) [OF assms, of C] have "c_aligns fs \<in> {1, 2, 4, 8, 16, 32, 64}"
    by (intro align_range(2)) simp
  then show ?thesis unfolding l by auto
qed

lemma core_offset_dvd:
  assumes "kernel_types_ok K"
  shows "8 dvd core_offset_of C K" "8 dvd c_size (layout_t C K)"
    "MODULES_TREE_LOOKUP C \<Longrightarrow> cacheline K dvd core_offset_of C K"
proof -
  note al = core_align [OF assms, of C] and dv = align_up_dvd dvd_trans
  show "8 dvd core_offset_of C K"
    unfolding core_offset_of_def by (rule dvd_trans [OF layout_dvd [OF assms] dvd_trans [OF al(1) align_up_dvd]])
  show "8 dvd c_size (layout_t C K)"
    using layout_dvd [OF assms, of C] by (simp add: layout_t_def dvd_trans [OF _ align_up_dvd])
  show "cacheline K dvd core_offset_of C K" if "MODULES_TREE_LOOKUP C"
    unfolding core_offset_of_def by (rule dvd_trans [OF al(3) [OF that] align_up_dvd])
qed

text \<open>The inline functions read members that the configuration declares, and only those: with
  the member absent the answer does not depend on it.\<close>

lemma field_declared: "field_offset (Struct (members xs)) x \<noteq> None \<longleftrightarrow> x \<in> set (map fst xs)"
  using c_fields_names [of xs 0] map_of_eq_None_iff [of "c_fields (members xs) 0" x]
  by simp (metis set_map)

lemma module_field_declared:
  "field_offset (module_t C K) x \<noteq> None \<longleftrightarrow> x \<in> set (map fst (before_areas C K @ module_areas C K @
     module_debug_part C K @ module_trace_part C @ module_unload_part C K))"
  unfolding module_t_areas by (rule field_declared)

lemma ifdef_names: "map fst (ifdef b fs) = ifdef b (map fst fs)" "x \<in> set (ifdef b xs) \<longleftrightarrow> b \<and> x \<in> set xs"
  by (simp_all add: ifdef_def)

lemmas module_names = before_areas_def module_symbols_def module_unused_symbols_def module_init_part_def
  module_areas_def module_debug_part_def module_trace_part_def module_unload_part_def ifdef_names

lemma declared_members:
  "field_offset (module_t C K) ''klp'' \<noteq> None \<longleftrightarrow> LIVEPATCH C"
  "field_offset (module_t C K) ''sig_ok'' \<noteq> None \<longleftrightarrow> MODULE_SIG C"
  "field_offset (module_t C K) ''refcnt'' \<noteq> None \<longleftrightarrow> MODULE_UNLOAD C"
  "field_offset (module_t C K) ''async_probe_requested'' \<noteq> None"
  unfolding module_field_declared set_append map_append by (simp_all add: module_names)

lemma inline_functions_read_declared:
  "field_offset (module_t C K) ''klp'' = None \<Longrightarrow> is_livepatch_module C (md\<lparr>mm_klp := b\<rparr>) = is_livepatch_module C md"
  "field_offset (module_t C K) ''sig_ok'' = None \<Longrightarrow> module_sig_ok C (md\<lparr>mm_sig_ok := b\<rparr>) = module_sig_ok C md"
  using declared_members(1,2) [of C K] by (simp_all add: is_livepatch_module_def module_sig_ok_def)

text \<open>The alignment attribute of \<open>module_version_attribute\<close> asks for what its pointers already
  give: the records of different objects form an array without gaps in their section.\<close>

lemma aligned_struct_redundant:
  assumes "list_all (\<lambda>f. c_wf (snd f)) fs" and "n \<in> {1, 2, 4, 8, 16, 32, 64}" and "n dvd c_aligns (members fs)"
  shows "c_size (aligned_struct n fs) = c_size (Struct (members fs))"
    and "c_align (aligned_struct n fs) = c_align (Struct (members fs))"
proof -
  have fs: "c_aligns (members fs) \<in> {1, 2, 4, 8, 16, 32, 64}" using assms(1) by (intro align_range(2)) simp
  then have "n \<le> c_aligns (members fs)" using assms(3) by (auto dest: dvd_imp_le)
  moreover have "align_up 0 m = 0" if "0 < m" for m using that by (simp add: align_up_def)
  ultimately show "c_size (aligned_struct n fs) = c_size (Struct (members fs))"
      "c_align (aligned_struct n fs) = c_align (Struct (members fs))"
    using assms(2) fs by (auto simp: aligned_struct_def max_def)
qed

lemma version_attribute_packed:
  assumes "kernel_types_ok K"
  shows "c_size (module_version_attribute_t K) = c_size (Struct (members
    [(''mattr'', module_attribute_t K), (''module_name'', pointer), (''version'', pointer)]))"
proof -
  have "c_wf (module_attribute_t K)"
    using assms by (simp add: module_attribute_t_def kernel_types_ok_def)
  from this align_range(1) [OF this] show ?thesis
    unfolding module_version_attribute_t_def by (intro aligned_struct_redundant) auto
qed

subsection \<open>A kernel\<close>

definition demo_config :: kconfig where
  "demo_config = \<lparr>SYSFS = True, UNUSED_SYMBOLS = True, MODULE_SIG = False, MODULES_TREE_LOOKUP = True,
     GENERIC_BUG = True, KALLSYMS = True, SMP = True, TRACEPOINTS = True, HAVE_JUMP_LABEL = True,
     TRACING = True, EVENT_TRACING = True, FTRACE_MCOUNT_RECORD = True, LIVEPATCH = False,
     MODULE_UNLOAD = True, CONSTRUCTORS = False\<rparr>"

definition demo_types :: kernel_types where
  "demo_types =
     (let two = Struct (members [(''next'', pointer), (''prev'', pointer)]);
          words = (\<lambda>n. Struct (members (replicate n ('''', pointer))))
      in \<lparr>list_head_t = two, kobject_t = words 8, attribute_t = words 2, mutex_t = words 5,
        latch_tree_node_t = words 6, mod_arch_specific_t = Bytes 0, Elf_Ehdr_t = words 8,
        atomic_t = unsigned_int, MODULE_NAME_LEN = 56, cacheline = 64\<rparr>)"

lemma demo_layout_size: "c_size (layout_t demo_config demo_types) = 80"
  by code_simp

lemma demo_kernel:
  "kernel_types_ok demo_types" "cacheline demo_types = 64" "MODULES_TREE_LOOKUP demo_config"
  by code_simp+

lemma demo_sizes:
  "c_size (modversion_info_t demo_types) = 64" "c_size (module_use_t demo_types) = 48"
  "c_size (module_attribute_t demo_types) = 56" "c_size (module_kobject_t demo_types) = 96"
  "c_size mod_kallsyms_t = 24" "c_size (klp_modinfo_t demo_types) = 88"
  "c_size (mod_tree_node_t demo_types) = 56"
  by code_simp+

end
