(* ===== verification/Kernel_Properties.thy ===== *)
theory Kernel_Properties
  imports Demo_Systems Module_Header
begin

text \<open>
  Properties at the boundary with the kernel: the declarations of the shared structures, the
  copy of a task's namespaces, and the tap that hands the modules of containers to the proxy.
\<close>

subsection \<open>Declarations and images\<close>

text \<open>C20. The hand-written byte images follow the declarations. The sizes used for \<open>ioctl\<close>,
  \<open>write\<close> and \<open>realloc\<close> are the sizes of the declared structures; every scalar field of
  a packet and of a layout is found in its image at the offset and with the size that its
  declaration gives it. The layout structure of the kernel, whose last field takes 56 bytes,
  has the size of the server's and the same offsets of the fields the server reads. The
  declaration of \<open>vm_memory\<close> in the older header has the same size, but where the one in use
  has the core region it has \<open>boot_ram\<close>, and its init region lies where the IDT region is.\<close>

theorem struct_layouts_agree:
  assumes "vm_memory_ok (pk_memory p)" and "layout_ok l" and "c_size mtn = 56" and "c_align mtn = 8"
  shows "c_size packet_t = sizeof_packet \<and> c_size module_layout_t = sizeof_module_layout \<and>
    c_size UUID_table_t = nat sizeof_UUID_table \<and>
    read_leaves packet_t (enc_packet p) = packet_leaves p \<and>
    read_leaves module_layout_t (enc_layout l) = layout_leaves l \<and>
    c_size (kernel_module_layout_t mtn) = c_size module_layout_t \<and>
    list_all (\<lambda>x. field_offset (kernel_module_layout_t mtn) x = field_offset module_layout_t x)
      [''base'', ''size'', ''text_size'', ''ro_size''] \<and>
    c_size old_vm_memory_t = c_size vm_memory_t \<and>
    field_offset old_vm_memory_t ''boot_ram'' = field_offset vm_memory_t ''region_core'' \<and>
    field_offset old_vm_memory_t ''region_init'' = field_offset vm_memory_t ''region_IDT''"
proof -
  have "c_size (kernel_module_layout_t mtn) = 80"
    using assms(3,4) by (simp add: kernel_module_layout_t_def align_up_def)
  moreover have "list_all (\<lambda>x. field_offset (kernel_module_layout_t mtn) x = field_offset module_layout_t x)
      [''base'', ''size'', ''text_size'', ''ro_size'']"
    by (simp add: kernel_module_layout_t_def module_layout_t_def align_up_def Let_def)
  moreover have "c_size old_vm_memory_t = 280"
    "field_offset old_vm_memory_t ''boot_ram'' = Some 64" "field_offset vm_memory_t ''region_core'' = Some 64"
    "field_offset old_vm_memory_t ''region_init'' = Some 0" "field_offset vm_memory_t ''region_IDT'' = Some 0"
    by (simp_all add: struct_defs align_up_def Let_def)
  ultimately show ?thesis
    using struct_sizes packet_image [OF assms(1)] layout_image [OF assms(2)]
    by (simp add: sizeof_module_layout_def)
qed

theorem struct_layouts_agree_witness:
  "read_leaves packet_t (enc_packet \<lparr>pk_uuid = 5, pk_memory = demo_memory\<rparr>) =
     packet_leaves \<lparr>pk_uuid = 5, pk_memory = demo_memory\<rparr> \<and>
   c_size (kernel_module_layout_t (Struct (Field ''mod'' (Scalar 8) (Field ''node'' (Bytes 48) NoField)))) =
     c_size module_layout_t"
  using struct_layouts_agree [of "\<lparr>pk_uuid = 5, pk_memory = demo_memory\<rparr>" "demo_layout 0 0"
      "Struct (Field ''mod'' (Scalar 8) (Field ''node'' (Bytes 48) NoField))"]
  by (simp add: align_up_def)



subsection \<open>Namespaces\<close>

text \<open>C25. Copying the namespaces of a task either returns a new object that holds one copy of
  each of the six namespaces and puts none of them, or returns an error after undoing what
  it did: the namespaces obtained so far, which are the first of the fixed order, are put
  once each in the opposite order (null pointers, which hold nothing, are skipped) and then
  the object is freed. When the object cannot be allocated nothing is done.\<close>

theorem namespace_copy_balanced:
  assumes "lxc_uio_create_new_namespaces env fl tsk user_ns fs = (q, p, tr)"
  shows "case q of
      KPtr a \<Rightarrow> a = create_nsproxy env \<and> a \<noteq> 0 \<and>
        tr = AllocNsproxy a # map (\<lambda>k. GotNs k (ns_of p k)) ns_order
    | ErrPtr e \<Rightarrow>
        (create_nsproxy env = 0 \<and> e = - ENOMEM \<and> tr = []) \<or>
        (create_nsproxy env \<noteq> 0 \<and>
         tr = AllocNsproxy (create_nsproxy env) # map (\<lambda>(k, n). GotNs k n) (ns_got tr) @
           map (\<lambda>(k, n). PutNs k n) (rev (ns_owed (ns_got tr))) @ [FreeNsproxy (create_nsproxy env)] \<and>
         map fst (ns_got tr) = take (length (ns_got tr)) ns_order \<and> length (ns_got tr) < 6)"
  using assms create_new_namespaces_failed create_new_namespaces_done by (cases q) auto

theorem namespace_copy_balanced_witness:
  "\<exists>p. lxc_uio_create_new_namespaces (demo_ns\<lparr>copy_pid_ns := (\<lambda>_ _ _. ErrPtr (-12))\<rparr>) 0 demo_task 0 0 =
      (ErrPtr (-12), p, [AllocNsproxy 0x100, GotNs Mnt 0x201, GotNs Uts 0x202, GotNs Ipc 0x203,
        PutNs Ipc 0x203, PutNs Uts 0x202, PutNs Mnt 0x201, FreeNsproxy 0x100]) \<and>
    map fst (ns_got [AllocNsproxy 0x100, GotNs Mnt 0x201, GotNs Uts 0x202, GotNs Ipc 0x203,
        PutNs Ipc 0x203, PutNs Uts 0x202, PutNs Mnt 0x201, FreeNsproxy 0x100]) = take 3 ns_order"
proof -
  let ?tr = "[AllocNsproxy 0x100, GotNs Mnt 0x201, GotNs Uts 0x202, GotNs Ipc 0x203,
        PutNs Ipc 0x203, PutNs Uts 0x202, PutNs Mnt 0x201, FreeNsproxy 0x100]"
  obtain p where "lxc_uio_create_new_namespaces (demo_ns\<lparr>copy_pid_ns := (\<lambda>_ _ _. ErrPtr (-12))\<rparr>) 0 demo_task 0 0 =
      (ErrPtr (-12), p, ?tr)"
    by (simp add: lxc_uio_create_new_namespaces_def demo_ns_def ns_stage_def ns_labels)
  with namespace_copy_balanced [OF this] show ?thesis by (auto simp: demo_ns_def ENOMEM_def numeral_3_eq_3)
qed

subsection \<open>The tap\<close>

text \<open>C13. A container's insertion reaches the proxy exactly while the proxy is live. After the
  proxy was loaded, \<open>load_module\<close> with the container flag copies the namespaces of the
  inserting task and makes the module, with its new identifier and that copy, the only
  pending one, and returns 0 without running the module. While the proxy is not live yet, and
  once it was unloaded, the insertion is given up with nothing done. Without the flag the
  module is initialised as ever.\<close>

theorem tap_follows_lifecycle:
  assumes "fresh_module s" and "load_env_sane le" and "start le s = (0, s1)"
    and "fl AND MODULE_INIT_LXC \<noteq> 0" and "fl' AND MODULE_INIT_LXC = 0"
    and "lxc_uio_nsproxy_deep_copy (ta_ns env) (ta_clone env) (ta_task env) = (nsp, p, tr)" and "nsp \<noteq> 0"
    and "kmodules (lx_proxy s1) md = Some km" and "module_ok km" and "server_live (ta_sv env) (lx_proxy s1)"
  shows "(ta_find env (ta_name env) False = Some MODULE_STATE_LIVE \<longrightarrow>
      (\<exists>px. load_module_tap env fl md err s1 = Ret (TapReturn 0, tr, s1\<lparr>lx_proxy := px\<rparr>) \<and> proxy_inv px \<and>
         mt_pending (ptable px) = [\<lparr>mt_uuid = ta_uuid env, mt_nsproxy = nsp, mt_module = md\<rparr>])) \<and>
    (ta_find env (ta_name env) False \<noteq> Some MODULE_STATE_LIVE \<longrightarrow>
      load_module_tap env fl md err s1 = Ret (SysfsCleanup err, [], s1)) \<and>
    load_module_tap env fl md err (end_module s1) = Ret (SysfsCleanup err, [], end_module s1) \<and>
    load_module_tap env fl' md err s1 = Ret (DoInitModule, [], s1)"
proof -
  from start_resources [OF assms(1,2,3)] obtain t where
    t: "lx_proxy s1 = (lx_proxy s)\<lparr>ptable := t, lxc_uio_cdev_major_number := le_major le\<rparr>"
      "mt_inv t" "mt_entries t = []" and hook: "lx_put_module s1 = Some Put_module_1"
    by auto
  have pend: "mt_pending (ptable (lx_proxy s1)) = []" using t by (simp add: mt_pending_def)
  have "table_num_entries t = 0" using length_mt_entries [OF t(2)] t(2,3) by (auto elim: mt_invE)
  then have ok: "mt_put_ok (krealloc_mt (ta_sv env)) (ptable (lx_proxy s1))"
    using t(1,2) by (auto simp: mt_put_ok_def elim: mt_invE)
  have inv: "proxy_inv (lx_proxy s1)" using start_proxy_inv [OF assms(1,2,3)] by simp
  note ready_iff = tap_ready_start [OF assms(1,2,3), of env]
  have live: "\<exists>px. load_module_tap env fl md err s1 = Ret (TapReturn 0, tr, s1\<lparr>lx_proxy := px\<rparr>) \<and> proxy_inv px \<and>
         mt_pending (ptable px) = [\<lparr>mt_uuid = ta_uuid env, mt_nsproxy = nsp, mt_module = md\<rparr>]"
    if ready: "tap_ready env s1"
  proof -
    obtain px where "load_module_tap env fl md err s1 = Ret (TapReturn 0, tr, s1\<lparr>lx_proxy := px\<rparr>)"
      "proxy_inv px" "mt_pending (ptable px) = mt_pending (ptable (lx_proxy s1)) @
        [\<lparr>mt_uuid = ta_uuid env, mt_nsproxy = nsp, mt_module = md\<rparr>]"
      by (rule tap_delivers [OF assms(4) ready assms(6,7) hook inv assms(8,9) ok assms(10)])
    with pend show ?thesis by (intro exI [of _ px]) simp
  qed
  have "load_module_tap env fl' md err s1 = Ret (DoInitModule, [], s1)"
    using assms(5) by (simp add: load_module_tap_def)
  with live ready_iff tap_not_ready [OF assms(4)] tap_ready_end show ?thesis by blast
qed

theorem tap_follows_lifecycle_witness:
  "\<exists>s1 px. start demo_load demo_unloaded = (0, s1) \<and>
     load_module_tap (demo_tap MODULE_STATE_LIVE) MODULE_INIT_LXC 64 0 s1 =
       Ret (TapReturn 0, demo_ledger, s1\<lparr>lx_proxy := px\<rparr>) \<and>
     mt_pending (ptable px) = [\<lparr>mt_uuid = 7, mt_nsproxy = 0x100, mt_module = 64\<rparr>] \<and>
     load_module_tap (demo_tap MODULE_STATE_COMING) MODULE_INIT_LXC 64 0 s1 = Ret (SysfsCleanup 0, [], s1) \<and>
     load_module_tap (demo_tap MODULE_STATE_LIVE) 0 64 0 s1 = Ret (DoInitModule, [], s1)"
proof -
  obtain s1 where s1: "start demo_load demo_unloaded = (0, s1)" using demo_start by blast
  from start_resources [OF demo_load_ok s1] obtain t where
    t: "lx_proxy s1 = (lx_proxy demo_unloaded)\<lparr>ptable := t, lxc_uio_cdev_major_number := 240\<rparr>"
    by (auto simp: demo_load_def)
  have md: "kmodules (lx_proxy s1) 64 = Some demo_module" and ok: "module_ok demo_module"
    and live: "server_live demo_sv (lx_proxy s1)"
    using t by (simp_all add: demo_unloaded_def demo_server_simps server_live_def)
  have fl: "MODULE_INIT_LXC AND MODULE_INIT_LXC \<noteq> 0" "(0::u32) AND MODULE_INIT_LXC = 0"
    by (simp_all add: MODULE_INIT_LXC_def)
  obtain p where "lxc_uio_nsproxy_deep_copy demo_ns 0x7e020000 demo_task = (0x100, p, demo_ledger)"
    using demo_copy by blast
  then have "lxc_uio_nsproxy_deep_copy (ta_ns (demo_tap st)) (ta_clone (demo_tap st)) (ta_task (demo_tap st)) =
      (0x100, p, demo_ledger)" for st
    by (simp add: demo_tap_def)
  note tap = tap_follows_lifecycle [OF demo_load_ok s1 fl this _ md ok, where err = 0]
  from tap [of MODULE_STATE_LIVE] tap [of MODULE_STATE_COMING] s1 live show ?thesis
    by (auto simp: demo_tap_def)
qed



text \<open>A refused insertion is not reported. Whatever makes the tap give up, it jumps to the
  clean-up with the variable \<open>err\<close> as the code before it left it: no reason to give up is
  ever stored there. When the proxy refused a module for
  which the namespaces had been copied, nobody puts them: the ledger shows all six obtained,
  none put, and the object not freed.\<close>

theorem tap_failure_unreported:
  assumes "fl AND MODULE_INIT_LXC \<noteq> 0" and "load_module_tap env fl md err s = Ret (res, tr, s')"
  shows "res = TapReturn 0 \<or>
    (res = SysfsCleanup err \<and>
     (tap_ready env s \<and> fst (lxc_uio_nsproxy_deep_copy (ta_ns env) (ta_clone env) (ta_task env)) \<noteq> 0 \<longrightarrow>
        (\<exists>nsp q. tap_call env nsp md s = Ret (q, s') \<and> q < 0) \<and>
        map fst (ns_got tr) = ns_order \<and> ns_put tr = [] \<and> (\<forall>a. FreeNsproxy a \<notin> set tr)))"
  using assms
proof (cases rule: tap_exits)
  case (refused nsp p q)
  with copied_ledger [OF refused(4,3)] show ?thesis by auto
qed simp_all

theorem tap_failure_unreported_witness:
  "\<exists>s'. load_module_tap (demo_tap MODULE_STATE_LIVE) MODULE_INIT_LXC 64 0
      (demo_unloaded\<lparr>lx_put_module := Some Put_module_1\<rparr>) = Ret (SysfsCleanup 0, demo_ledger, s') \<and>
    map fst (ns_got demo_ledger) = ns_order \<and> ns_put demo_ledger = [] \<and> FreeNsproxy 0x100 \<notin> set demo_ledger"
proof -
  let ?env = "demo_tap MODULE_STATE_LIVE" and ?s = "demo_unloaded\<lparr>lx_put_module := Some Put_module_1\<rparr>"
  obtain p where p: "lxc_uio_nsproxy_deep_copy (ta_ns ?env) (ta_clone ?env) (ta_task ?env) = (0x100, p, demo_ledger)"
    using demo_copy by (auto simp: demo_tap_def)
  have ready: "tap_ready ?env ?s"
    by (simp add: tap_ready_def lxc_uio_finished_loading_def demo_tap_def)
  have fl: "MODULE_INIT_LXC AND MODULE_INIT_LXC \<noteq> 0" by (simp add: MODULE_INIT_LXC_def)
  have "lxc_uio_proxy_put_module_1 demo_sv 7 0x100 64 (lx_proxy ?s) = Ret (-1, lx_proxy ?s)"
    by (simp add: lxc_uio_proxy_put_module_1_def Module_Table.table_put_def mod_deref_def demo_unloaded_def mtable_init_def)
  then have "tap_call ?env 0x100 64 ?s = Ret (-1, ?s)"
    by (simp add: tap_call_def demo_tap_def)
  then have "load_module_tap ?env MODULE_INIT_LXC 64 0 ?s = Ret (SysfsCleanup 0, demo_ledger, ?s)"
    using tap_copied [OF fl ready p] by (simp add: tap_deliver_def)
  with tap_failure_unreported [OF fl this] p ready show ?thesis by auto
qed

text \<open>Nothing keeps the proxy loaded while its hook is in use. An insertion that found the
  proxy live and the hook set copies the namespaces, which may sleep; when the proxy is
  unloaded meanwhile, the insertion calls through a null pointer.\<close>

theorem unload_during_insertion_faults:
  assumes "fresh_module s" and "load_env_sane le" and "start le s = (0, s1)"
    and "ta_find env (ta_name env) False = Some MODULE_STATE_LIVE"
  shows "tap_ready env s1 \<and> tap_deliver env nsp md err (end_module s1) = Crash NullDeref"
  using tap_ready_start [OF assms(1,2,3), of env] assms(4)
  by (simp add: tap_deliver_def tap_call_def end_module_def remove_chardev_def)

theorem unload_during_insertion_faults_witness:
  "\<exists>s1. start demo_load demo_unloaded = (0, s1) \<and> tap_ready (demo_tap MODULE_STATE_LIVE) s1 \<and>
     tap_deliver (demo_tap MODULE_STATE_LIVE) 0x100 64 0 (end_module s1) = Crash NullDeref"
proof -
  obtain s1 where s1: "start demo_load demo_unloaded = (0, s1)" using demo_start by blast
  have "ta_find (demo_tap MODULE_STATE_LIVE) (ta_name (demo_tap MODULE_STATE_LIVE)) False = Some MODULE_STATE_LIVE"
    by (simp add: demo_tap_def)
  with unload_during_insertion_faults [OF demo_load_ok s1] s1 show ?thesis by blast
qed

end
