(* ===== verification/Service_Spec.thy ===== *)
theory Service_Spec
  imports Server_Main
begin

text \<open>
  What the whole system promises, without its tables, requests and phases: a service with a
  queue of submitted identifiers and a list of the identifiers it has taken, each finished or
  not. A step submits an identifier, takes the oldest one, finishes one that is not finished,
  or stops the service. The lemmas show that every step of the model of the program is such a
  step of the service, through the abstraction \<open>service_abs\<close>.
\<close>

subsection \<open>The service\<close>

record jobs =
  jb_queue :: "u128 list"
  jb_taken :: "(u128 \<times> bool) list"

text \<open>\<open>None\<close>: the service has stopped; what containers submit then is of no concern to it.\<close>

inductive jstep :: "jobs option \<Rightarrow> u128 list \<Rightarrow> jobs option \<Rightarrow> bool" where
  submit: "jstep (Some j) [u] (Some (j\<lparr>jb_queue := jb_queue j @ [u]\<rparr>))"
| ignored: "jstep None [u] None"
| take_job: "jb_queue j = u # q \<Longrightarrow>
    jstep (Some j) [] (Some \<lparr>jb_queue = q, jb_taken = jb_taken j @ [(u, False)]\<rparr>)"
| finish: "i < length (jb_taken j) \<Longrightarrow> jb_taken j ! i = (u, False) \<Longrightarrow>
    jstep (Some j) [] (Some (j\<lparr>jb_taken := (jb_taken j)[i := (u, True)]\<rparr>))"
| idle: "jstep s [] s"
| stop: "jstep s [] None"

inductive jrun :: "jobs option \<Rightarrow> u128 list \<Rightarrow> jobs option \<Rightarrow> bool" where
  nil: "jrun s [] s"
| snoc: "jrun s us s1 \<Longrightarrow> jstep s1 vs s2 \<Longrightarrow> jrun s (us @ vs) s2"

inductive_cases jstep_NoneE: "jstep None us s"

inductive_cases jstep_SomeE: "jstep (Some j) us (Some j')"

text \<open>Every identifier of the service is taken in the order it came, and what is finished
  stays finished.\<close>

definition job_ids :: "jobs \<Rightarrow> u128 list" where
  "job_ids j = map fst (jb_taken j) @ jb_queue j"

definition job_le :: "jobs \<Rightarrow> jobs \<Rightarrow> bool" where
  "job_le j j' \<longleftrightarrow>
     length (jb_taken j) \<le> length (jb_taken j') \<and>
     (\<forall>i < length (jb_taken j). fst (jb_taken j' ! i) = fst (jb_taken j ! i) \<and>
        (snd (jb_taken j ! i) \<longrightarrow> snd (jb_taken j' ! i)))"

lemma job_le_trans: "job_le j1 j2 \<Longrightarrow> job_le j2 j3 \<Longrightarrow> job_le j1 j3"
  by (fastforce simp: job_le_def)

lemma jstep_some:
  "jstep (Some j) us (Some j') \<Longrightarrow> job_ids j' = job_ids j @ us \<and> job_le j j'"
  by (erule jstep_SomeE)
    (auto simp: job_ids_def job_le_def nth_append nth_list_update map_update list_update_same_conv)

lemma jstep_stopped: "jstep None us s \<Longrightarrow> s = None"
  by (erule jstep_NoneE) simp_all

lemma jrun_some:
  "jrun s us s' \<Longrightarrow> s' = Some j' \<Longrightarrow> \<exists>j. s = Some j \<and> job_ids j' = job_ids j @ us \<and> job_le j j'"
proof (induction arbitrary: j' rule: jrun.induct)
  case (nil s)
  then show ?case by (simp add: job_le_def)
next
  case (snoc s us s1 vs s2)
  then obtain j1 where j1: "s1 = Some j1"
    using jstep_stopped by (cases s1) auto
  with snoc.IH obtain j where j: "s = Some j" "job_ids j1 = job_ids j @ us" "job_le j j1" by blast
  from jstep_some [of j1 vs j'] snoc j1 have "job_ids j' = job_ids j1 @ vs" "job_le j1 j'" by simp_all
  with j job_le_trans show ?case by auto
qed

subsection \<open>The program as a service\<close>

definition abs_jobs :: "'e world \<Rightarrow> jobs" where
  "abs_jobs w =
     \<lparr>jb_queue = pending_uuids (wproxy w), jb_taken = map (\<lambda>e. (uuid e, processed e)) (wentries w)\<rparr>"

definition service_abs :: "phase \<times> 'e world \<Rightarrow> jobs option" where
  "service_abs s = (case fst s of Exited r \<Rightarrow> None | _ \<Rightarrow> Some (abs_jobs (snd s)))"

lemma service_abs_Exited [simp]: "service_abs (Exited r, w) = None"
  by (simp add: service_abs_def)

lemma service_abs_running: "\<nexists>r. ph = Exited r \<Longrightarrow> service_abs (ph, w) = Some (abs_jobs w)"
  by (cases ph) (simp_all add: service_abs_def)

lemma abs_jobs_frame [simp]:
  "abs_jobs (w\<lparr>wmem := m\<rparr>) = abs_jobs w" "abs_jobs (read_event env w) = abs_jobs w"
  by (simp_all add: abs_jobs_def read_event_def)

lemma get_new_entry_refines:
  assumes inv: "running_inv ids w" and env: "new_env_ok env (wtable w)"
    and r: "get_new_entry env w = Ret (r, w')"
  shows "jstep (Some (abs_jobs w)) [] (Some (abs_jobs w'))"
proof -
  from inv have w: "winv w" "proxy_inv (wproxy w)" "wmajor w = lxc_uio_cdev_major_number (wproxy w)"
    by (simp_all add: running_inv_def major_agrees_def)
  show ?thesis
  proof (cases "pending_uuids (wproxy w)")
    case Nil
    from get_new_entry_none [OF w(2) Nil w(3), of env] r obtain m where "w' = w\<lparr>wmem := m\<rparr>" by auto
    then show ?thesis by (simp add: jstep.idle)
  next
    case (Cons u us)
    obtain w1 where "get_new_entry env w = Ret (1, w1)" "winv w1" "proxy_inv (wproxy w1)"
      "pending_uuids (wproxy w1) = us"
      "wentries w1 = wentries w @ [new_entry u (fresh_memory (the (ne_mem env)))]"
      by (rule get_new_entry_some [OF w(1,2) Cons w(3) env])
    with r have "abs_jobs w' = \<lparr>jb_queue = us, jb_taken = jb_taken (abs_jobs w) @ [(u, False)]\<rparr>"
      by (simp add: abs_jobs_def new_entry_def)
    with Cons jstep.take_job [of "abs_jobs w" u us] show ?thesis by (simp add: abs_jobs_def)
  qed
qed

lemma process_entry_refines:
  assumes inv: "running_inv ids w" and ids: "distinct ids" "length ids < 2 ^ 31"
    and r: "process_entry env w = Ret (Some (r, w'))" and "0 \<le> r"
  shows "jstep (Some (abs_jobs w)) [] (Some (abs_jobs w'))"
proof -
  from inv have w: "winv w" "list_all flags_ok (wentries w)" "major_agrees w"
    and eq: "map uuid (wentries w) @ pending_uuids (wproxy w) = ids"
    by (simp_all add: running_inv_def)
  from ids(1) eq have d: "distinct (map uuid (wentries w))" by auto
  from eq have "length (wentries w) \<le> length ids" by auto
  with ids(2) have l: "length (wentries w) < 2 ^ 31" by simp
  have px: "pending_uuids (wproxy w') = pending_uuids (wproxy w)"
    using process_entry_same [OF w(3) r] by (simp add: same_proxy_def)
  from process_entry_cases [OF w(1) d l w(2) r] \<open>0 \<le> r\<close> consider "w' = w"
    | i e where "i < length (wentries w)" "\<not> entry_done (wentries w ! i)"
        "wentries w' = (wentries w)[i := e]" "processed e" "map uuid (wentries w') = map uuid (wentries w)"
    by auto
  then show ?thesis
  proof cases
    case 1
    then show ?thesis by (simp add: jstep.idle)
  next
    case (2 i e)
    let ?u = "uuid (wentries w ! i)"
    have "uuid e = ?u" using 2(1,3,5) by (metis length_map nth_list_update_eq nth_map)
    with 2 px have "abs_jobs w' = (abs_jobs w)\<lparr>jb_taken := (jb_taken (abs_jobs w))[i := (?u, True)]\<rparr>"
      by (simp add: abs_jobs_def map_update)
    with 2 jstep.finish [of i "abs_jobs w" ?u] show ?thesis
      by (simp add: abs_jobs_def entry_done_def)
  qed
qed

lemma main_step_refines:
  assumes inv: "sys_inv ids (ph, w)" and ids: "distinct ids" "length ids < 2 ^ 31"
    and env: "step_env_ok ops c env ph w" and r: "main_step env ph w = Ret (Some (ph', w'))"
  shows "jstep (service_abs (ph, w)) [] (service_abs (ph', w'))"
proof (cases "(\<exists>x. ph = Exited x) \<or> (\<exists>x. ph' = Exited x)")
  case True
  with r show ?thesis by (auto intro: jstep.idle jstep.stop)
next
  case False
  then have run: "running_inv ids w" and abs: "service_abs (ph, w) = Some (abs_jobs w)"
      "service_abs (ph', w') = Some (abs_jobs w')"
    using inv by (cases ph; simp add: sys_inv_def service_abs_running)+
  have "jstep (Some (abs_jobs w)) [] (Some (abs_jobs w'))"
  proof (cases ph)
    case Drain
    with env r False obtain q where "new_env_ok (st_new env) (wtable w)" "get_new_entry (st_new env) w = Ret (q, w')"
      by (auto simp: step_env_ok_def main_new_def split: exec_bind_splits if_splits dest!: out_table_exits)
    with get_new_entry_refines [OF run] show ?thesis by blast
  next
    case Serve
    with env r False obtain q where "new_env_ok (st_new env) (wtable w)" "get_new_entry (st_new env) w = Ret (q, w')"
      by (auto simp: step_env_ok_def split: exec_bind_splits if_splits dest!: out_table_exits)
    with get_new_entry_refines [OF run] show ?thesis by blast
  next
    case Process
    with r False obtain q where "process_entry (st_pe env) w = Ret (Some (q, w'))" "0 \<le> q"
      by (auto simp: main_pe_def split: exec_bind_splits option.splits if_splits dest!: out_table_exits)
    then show ?thesis by (rule process_entry_refines [OF run ids])
  next
    case ProcessOne
    with r False obtain q where "process_entry (st_pe env) w = Ret (Some (q, w'))" "0 \<le> q"
      by (auto simp: main_pe_def split: exec_bind_splits option.splits if_splits dest!: out_table_exits)
    then show ?thesis by (rule process_entry_refines [OF run ids])
  qed (use r False in \<open>auto intro: jstep.idle split: if_splits dest!: out_table_exits\<close>)
  with abs show ?thesis by simp
qed

lemma container_refines:
  assumes inv: "sys_inv ids (ph, w)" and md: "kmodules (wproxy w) md = Some km" "module_ok km"
    and ok: "mt_put_ok (krealloc_mt sv) (ptable (wproxy w))"
    and r: "lxc_uio_proxy_put_module_1 sv u ns md (wproxy w) = Ret (r, px)"
  shows "jstep (service_abs (ph, w)) [u] (service_abs (ph, w\<lparr>wproxy := px\<rparr>))"
proof (cases "\<exists>x. ph = Exited x")
  case True
  then show ?thesis by (auto intro: jstep.ignored)
next
  case False
  with inv have "proxy_inv (wproxy w)" by (cases ph) (simp_all add: sys_inv_def running_inv_def)
  from put_module_step [OF this md ok r]
  have "abs_jobs (w\<lparr>wproxy := px\<rparr>) = (abs_jobs w)\<lparr>jb_queue := jb_queue (abs_jobs w) @ [u]\<rparr>"
    by (simp add: abs_jobs_def)
  with False show ?thesis using jstep.submit [of "abs_jobs w" u] by (simp add: service_abs_running)
qed

lemma sys_run_refines:
  "sys_run ops c s us s' \<Longrightarrow> sys_inv ids s \<Longrightarrow> distinct (ids @ us) \<Longrightarrow> length (ids @ us) < 2 ^ 31 \<Longrightarrow>
     jrun (service_abs s) us (service_abs s')"
proof (induction rule: sys_run.induct)
  case (nil s)
  show ?case by (rule jrun.nil)
next
  case (snoc s us s1 vs s2)
  from snoc.prems have d: "distinct (ids @ us)" "length (ids @ us) < 2 ^ 31" by auto
  note IH = snoc.IH [OF snoc.prems(1) d]
  note inv = sys_run_inv [OF snoc.hyps(1) snoc.prems(1) d]
  have "jstep (service_abs s1) vs (service_abs s2)"
    using snoc.hyps(2)
  proof (cases rule: sys_step.cases)
    case (container w md km sv u ns r px ph)
    with container_refines [of "ids @ us" ph w] inv show ?thesis by simp
  next
    case (server env ph w ph' w')
    with main_step_refines [of "ids @ us" ph w ops c env] inv snoc.prems show ?thesis by simp
  qed
  with IH show ?case by (rule jrun.snoc)
qed

end
