(* ===== verification/Concurrent_Requests.thy ===== *)
theory Concurrent_Requests
  imports Proxy_Runs Pending_Race "HOL-Library.Multiset"
begin

text \<open>
  Several requests for a pending module at once. The handler in \<open>cdev.c\<close> holds no lock over
  its body: \<open>table_pop\<close> and \<open>table_pop_reverse\<close> each take and release \<open>table_mutex\<close>, and
  the copy to the user in between runs without it. \<open>req_step\<close> splits the handler at these
  points; uninterrupted, the stages are the handler. \<open>cstep\<close> interleaves the stages of any
  number of requests with insertions. A pointer in hand is followed in the table as it is by
  then; the case of a table that was moved meanwhile is the subject of \<open>Pending_Race\<close>.
\<close>

subsection \<open>The stages of a request\<close>

datatype rstate = Begin | Popped mt_ptr | CopyFailed nat | Done int

primrec req_step ::
    "'e kservices \<Rightarrow> u64 \<Rightarrow> rstate \<Rightarrow> umem \<Rightarrow> 'e proxy \<Rightarrow> (rstate \<times> umem \<times> 'e proxy) exec" where
  "req_step sv param Begin m st =
     (case table_pop (ptable st) of (mt, t1) \<Rightarrow>
        Ret (if mt = MtNull then Done 0 else Popped mt, m, st\<lparr>ptable := t1\<rparr>))"
| "req_step sv param (Popped mt) m st =
     exec_bind (mt_deref (ptable st) mt) (\<lambda>x.
       case copy_to_user sv m param (enc_u128 (mt_uuid x)) of (n, m') \<Rightarrow>
         Ret (if n = 0 then Done 1 else CopyFailed n, m', st))"
| "req_step sv param (CopyFailed n) m st =
     Ret (Done (- int n), m, st\<lparr>ptable := snd (table_pop_reverse (ptable st))\<rparr>)"
| "req_step sv param (Done r) m st = Ret (Done r, m, st)"

text \<open>The stages run one after the other.\<close>

definition req_alone ::
    "'e kservices \<Rightarrow> u64 \<Rightarrow> umem \<Rightarrow> 'e proxy \<Rightarrow> (rstate \<times> umem \<times> 'e proxy) exec" where
  "req_alone sv param m st =
     exec_bind (req_step sv param Begin m st) (\<lambda>(r1, m1, st1).
       exec_bind (req_step sv param r1 m1 st1) (\<lambda>(r2, m2, st2). req_step sv param r2 m2 st2))"

lemma req_alone_eq:
  "req_alone sv param m st =
     exec_bind (ioctl_get_pending_module sv param m st) (\<lambda>(r, m', st'). Ret (Done r, m', st'))"
proof -
  obtain p t1 where p: "table_pop (ptable st) = (p, t1)" by fastforce
  show ?thesis
  proof (cases "p = MtNull")
    case True
    with p show ?thesis by (simp add: req_alone_def ioctl_get_pending_module_def)
  next
    case False
    with p show ?thesis
      by (cases "mt_deref t1 p")
        (auto simp: req_alone_def ioctl_get_pending_module_def exec_bind_assoc split: prod.split)
  qed
qed

subsection \<open>Interleaved requests\<close>

record 'e creq =
  cr_proxy :: "'e proxy"
  cr_mem :: umem
  cr_threads :: "rstate list"

definition req_event :: "rstate \<Rightarrow> rstate \<Rightarrow> u64 \<Rightarrow> umem \<Rightarrow> pevent" where
  "req_event r r' param m' =
     (case r of
        Popped mt \<Rightarrow>
          (if r' = Done 1 then Delivered (dec_u128 (umem_read m' param 16)) else DeliveryFault)
      | _ \<Rightarrow> Quiet)"

inductive cstep :: "'e creq \<Rightarrow> pevent \<Rightarrow> 'e creq \<Rightarrow> bool" where
  put: "kmodules (cr_proxy s) md = Some km \<Longrightarrow> module_ok km \<Longrightarrow>
    mt_put_ok (krealloc_mt sv) (ptable (cr_proxy s)) \<Longrightarrow>
    lxc_uio_proxy_put_module_1 sv u ns md (cr_proxy s) = Ret (r, px) \<Longrightarrow>
    cstep s (PutEv u) (s\<lparr>cr_proxy := px\<rparr>)"
| stage: "uaccess_ok sv \<Longrightarrow> i < length (cr_threads s) \<Longrightarrow>
    req_step sv param (cr_threads s ! i) (cr_mem s) (cr_proxy s) = Ret (r, m, px) \<Longrightarrow>
    cstep s (req_event (cr_threads s ! i) r param m)
      \<lparr>cr_proxy = px, cr_mem = m, cr_threads = (cr_threads s)[i := r]\<rparr>"
| again: "i < length (cr_threads s) \<Longrightarrow> cr_threads s ! i = Done r \<Longrightarrow>
    cstep s Quiet (s\<lparr>cr_threads := (cr_threads s)[i := Begin]\<rparr>)"

inductive crun :: "'e creq \<Rightarrow> pevent list \<Rightarrow> 'e creq \<Rightarrow> bool" where
  nil: "crun s [] s"
| snoc: "crun s tr s1 \<Longrightarrow> cstep s1 ev s2 \<Longrightarrow> crun s (tr @ [ev]) s2"

text \<open>The identifiers of the modules whose pointers the requests hold.\<close>

definition holds :: "mtable \<Rightarrow> rstate \<Rightarrow> u128 list" where
  "holds t r =
     (case r of Popped (MtSlot k) \<Rightarrow> [mt_uuid (mt_entries t ! nat k)] | _ \<Rightarrow> [])"

definition held :: "'e creq \<Rightarrow> u128 multiset" where
  "held s = \<Sum>\<^sub># (mset (map (\<lambda>r. mset (holds (ptable (cr_proxy s)) r)) (cr_threads s)))"

definition thread_ok :: "mtable \<Rightarrow> rstate \<Rightarrow> bool" where
  "thread_ok t r \<longleftrightarrow>
     (case r of
        Popped p \<Rightarrow> (case p of MtNull \<Rightarrow> False | MtSlot k \<Rightarrow> 0 \<le> k \<and> nat k < length (mt_entries t))
      | _ \<Rightarrow> True)"

definition cinv :: "'e creq \<Rightarrow> bool" where
  "cinv s \<longleftrightarrow> proxy_inv (cr_proxy s) \<and> list_all (thread_ok (ptable (cr_proxy s))) (cr_threads s)"

subsection \<open>One step\<close>

lemma holds_simps [simp]:
  "holds t Begin = []" "holds t (Done r) = []" "holds t (CopyFailed n) = []"
  by (simp_all add: holds_def)

lemma holds_entries: "mt_entries t' = mt_entries t \<Longrightarrow> holds t' r = holds t r"
  by (simp add: holds_def split: rstate.split mt_ptr.split)

lemma holds_append:
  "thread_ok t r \<Longrightarrow> mt_entries t' = mt_entries t @ xs \<Longrightarrow> holds t' r = holds t r"
  by (auto simp: holds_def thread_ok_def nth_append split: rstate.splits mt_ptr.splits)

lemma thread_ok_mono:
  "thread_ok t r \<Longrightarrow> mt_entries t' = mt_entries t @ xs \<Longrightarrow> thread_ok t' r"
  by (auto simp: thread_ok_def split: rstate.splits mt_ptr.splits)

text \<open>Replacing the state of one request moves what it held.\<close>

lemma sum_mset_list_update:
  fixes f :: "'a \<Rightarrow> 'b multiset"
  shows "i < length xs \<Longrightarrow>
    \<Sum>\<^sub># (mset (map f (xs[i := y]))) + f (xs ! i) = \<Sum>\<^sub># (mset (map f xs)) + f y"
proof (induction xs arbitrary: i)
  case (Cons x xs)
  show ?case
  proof (cases i)
    case (Suc j)
    with Cons.IH [of j] Cons.prems show ?thesis by (simp add: add.assoc)
  qed simp
qed simp

lemma held_update:
  assumes "i < length (cr_threads s)" and "mt_entries (ptable px) = mt_entries (ptable (cr_proxy s))"
  shows "held \<lparr>cr_proxy = px, cr_mem = m, cr_threads = (cr_threads s)[i := r]\<rparr> +
      mset (holds (ptable (cr_proxy s)) (cr_threads s ! i)) =
    held s + mset (holds (ptable px) r)"
proof -
  let ?f = "\<lambda>r. mset (holds (ptable (cr_proxy s)) r)"
  have "holds (ptable px) = holds (ptable (cr_proxy s))"
    using holds_entries [OF assms(2)] by (rule ext)
  then show ?thesis
    using sum_mset_list_update [OF assms(1), of ?f r] by (simp add: held_def)
qed

lemma put_module_entries:
  assumes "proxy_inv st" and "mt_put_ok (krealloc_mt sv) (ptable st)"
    and "lxc_uio_proxy_put_module_1 sv u ns md st = Ret (r, st')"
  shows "mt_entries (ptable st') = mt_entries (ptable st) @ [\<lparr>mt_uuid = u, mt_nsproxy = ns, mt_module = md\<rparr>]"
proof -
  let ?e = "\<lparr>mt_uuid = u, mt_nsproxy = ns, mt_module = md\<rparr>"
  from assms(1) have "mt_inv (ptable st)" by (simp add: proxy_inv_def)
  from mt_put_append [OF this assms(2), of ?e] obtain t1 where
    t1: "table_put (krealloc_mt sv) ?e (ptable st) = Ret (0, t1)" "mt_entries t1 = mt_entries (ptable st) @ [?e]"
    by blast
  with assms(3) have "ptable st' = t1"
    by (auto simp: lxc_uio_proxy_put_module_1_def exec_bind_eq_Ret_iff dest: send_event_frame)
  with t1 show ?thesis by simp
qed

lemma pop_stage:
  assumes inv: "proxy_inv st" and pend: "mt_pending (ptable st) = x # xs"
  obtains t1 where "req_step sv param Begin m st =
      Ret (Popped (MtSlot (int (mt_popped (ptable st)))), m, st\<lparr>ptable := t1\<rparr>)"
    "proxy_inv (st\<lparr>ptable := t1\<rparr>)" "mt_pending t1 = xs" "mt_entries t1 = mt_entries (ptable st)"
    "t1 = (ptable st)\<lparr>table_index := table_index (ptable st) + 1\<rparr>"
    "mt_entries (ptable st) ! mt_popped (ptable st) = x"
    "mt_popped (ptable st) < length (mt_entries (ptable st))"
proof -
  from inv have mt: "mt_inv (ptable st)" by (simp add: proxy_inv_def)
  obtain p t1 where t1: "table_pop (ptable st) = (p, t1)" "p \<noteq> MtNull" "mt_inv t1"
      "mt_pending t1 = xs" "mt_entries t1 = mt_entries (ptable st)"
      "t1 = (ptable st)\<lparr>table_index := table_index (ptable st) + 1\<rparr>"
    using table_pop_Cons [OF mt pend] by metis
  have lt: "mt_popped (ptable st) < length (mt_entries (ptable st))"
    using pend by (metis drop_all list.distinct(1) mt_pending_def not_le_imp_less)
  have p: "p = MtSlot (int (mt_popped (ptable st)))"
    using t1(1,2) mt by (auto simp: table_pop_def mt_addr_def mt_popped_def split: if_splits elim!: mt_invE)
  have "mt_entries (ptable st) ! mt_popped (ptable st) = x"
    using pend lt by (metis Cons_nth_drop_Suc list.inject mt_pending_def)
  with t1 p lt proxy_inv_pop [OF inv t1(3,5)] show thesis
    by (intro that [of t1]) simp_all
qed

lemma copy_stage:
  assumes inv: "proxy_inv st" and k: "k < length (mt_entries (ptable st))" and ua: "uaccess_ok sv"
    and n: "copy_to_user sv m param (enc_u128 (mt_uuid (mt_entries (ptable st) ! k))) = (n, m')"
  shows "req_step sv param (Popped (MtSlot (int k))) m st = Ret (if n = 0 then Done 1 else CopyFailed n, m', st) \<and>
    req_event (Popped (MtSlot (int k))) (if n = 0 then Done 1 else CopyFailed n) param m' =
      (if n = 0 then Delivered (mt_uuid (mt_entries (ptable st) ! k)) else DeliveryFault)"
proof -
  let ?u = "mt_uuid (mt_entries (ptable st) ! k)"
  have "mt_deref (ptable st) (MtSlot (int k)) = Ret (mt_entries (ptable st) ! k)"
    using inv k by (simp add: mt_deref_slot proxy_inv_def)
  moreover have "dec_u128 (umem_read m' param 16) = ?u" if "n = 0"
    using uaccess_to [OF ua, of m param "enc_u128 ?u" m'] n that umem_read_write [of "enc_u128 ?u" m param] by simp
  ultimately show ?thesis using n by (simp add: req_event_def)
qed

text \<open>What a stage that does not fail does to the table and to what the request holds.\<close>

lemma req_step_effect:
  assumes inv: "proxy_inv st" and th: "thread_ok (ptable st) r" and ua: "uaccess_ok sv"
    and step: "req_step sv param r m st = Ret (r', m', st')"
    and nf: "req_event r r' param m' \<noteq> DeliveryFault" "\<nexists>n. r = CopyFailed n"
  shows "proxy_inv st' \<and> thread_ok (ptable st') r' \<and> mt_entries (ptable st') = mt_entries (ptable st) \<and>
    mset (holds (ptable st') r') + mset (delivered_of [req_event r r' param m']) + mset (pending_uuids st') =
    mset (holds (ptable st) r) + mset (pending_uuids st) \<and> puts_of [req_event r r' param m'] = [] \<and>
    (\<nexists>n. r' = CopyFailed n)"
proof -
  from inv have mt: "mt_inv (ptable st)" by (simp add: proxy_inv_def)
  have ev: "delivered_of [Quiet] = []" "puts_of [Quiet] = []"
      "delivered_of [Delivered u] = [u]" "puts_of [Delivered u] = []" for u
    by (simp_all add: delivered_of_def puts_of_def List.map_filter_def)
  show ?thesis
  proof (cases r)
    case Begin
    show ?thesis
    proof (cases "mt_pending (ptable st)")
      case Nil
      with Begin step inv table_pop_Nil [OF mt Nil] show ?thesis
        by (auto simp: thread_ok_def ev req_event_def)
    next
      case (Cons x xs)
      obtain t1 where t1: "req_step sv param Begin m st =
          Ret (Popped (MtSlot (int (mt_popped (ptable st)))), m, st\<lparr>ptable := t1\<rparr>)"
        "proxy_inv (st\<lparr>ptable := t1\<rparr>)" "mt_pending t1 = xs" "mt_entries t1 = mt_entries (ptable st)"
        "t1 = (ptable st)\<lparr>table_index := table_index (ptable st) + 1\<rparr>"
        "mt_entries (ptable st) ! mt_popped (ptable st) = x"
        "mt_popped (ptable st) < length (mt_entries (ptable st))"
        by (rule pop_stage [OF inv Cons])
      then have "r' = Popped (MtSlot (int (mt_popped (ptable st))))" "st' = st\<lparr>ptable := t1\<rparr>"
        using Begin step by simp_all
      with t1(2,3,4,6,7) Begin Cons show ?thesis
        by (simp add: thread_ok_def ev req_event_def holds_def pending_uuids_def)
    qed
  next
    case (Popped p)
    with th obtain k where k: "p = MtSlot (int k)" "k < length (mt_entries (ptable st))"
      by (auto simp: thread_ok_def split: mt_ptr.splits) (metis int_nat_eq)
    obtain n m1 where "copy_to_user sv m param (enc_u128 (mt_uuid (mt_entries (ptable st) ! k))) = (n, m1)"
      by fastforce
    note c = copy_stage [OF inv k(2) ua this]
    then have "st' = st" "m' = m1" "r' = (if n = 0 then Done 1 else CopyFailed n)"
      using step Popped k(1) by simp_all
    with c nf(1) Popped k(1) have r': "r' = Done 1" "st' = st"
        "req_event r r' param m' = Delivered (mt_uuid (mt_entries (ptable st) ! k))"
      by (simp_all split: if_splits)
    with Popped k(1) inv show ?thesis by (simp add: thread_ok_def ev holds_def)
  next
    case (CopyFailed n)
    with nf show ?thesis by simp
  next
    case (Done n)
    with step inv show ?thesis by (auto simp: thread_ok_def ev req_event_def)
  qed
qed

subsection \<open>Runs without a copy fault\<close>

definition no_failed :: "'e creq \<Rightarrow> bool" where
  "no_failed s \<longleftrightarrow> list_all (\<lambda>r. \<nexists>n. r = CopyFailed n) (cr_threads s)"

lemma thread_ok_entries: "mt_entries t' = mt_entries t \<Longrightarrow> thread_ok t' = thread_ok t"
  by (auto simp: thread_ok_def fun_eq_iff split: rstate.splits mt_ptr.splits)

lemma list_all_update: "list_all P xs \<Longrightarrow> P y \<Longrightarrow> list_all P (xs[i := y])"
  by (auto simp: list_all_iff dest: set_update_subset_insert [THEN subsetD])

lemma mset_move:
  fixes H :: "'b multiset"
  assumes "H' + h = H + h'" and "h' + D + P' = h + P"
  shows "D + H' + P' = H + P"
proof -
  have "(D + H' + P') + (h + h') = (H' + h) + (h' + D + P')" by (simp add: ac_simps)
  also have "\<dots> = (H + P) + (h + h')" unfolding assms by (simp add: ac_simps)
  finally show ?thesis by simp
qed

lemma mset_chain:
  fixes a :: "'b multiset"
  assumes "a + H1 + P1 = H0 + P0 + u" and "b + H2 + P2 = H1 + P1 + v"
  shows "(a + b) + H2 + P2 = H0 + P0 + (u + v)"
proof -
  have "(a + b) + H2 + P2 = a + (b + H2 + P2)" by (simp add: ac_simps)
  also have "\<dots> = (a + H1 + P1) + v" unfolding assms(2) by (simp add: ac_simps)
  finally show ?thesis unfolding assms(1) by (simp add: ac_simps)
qed

lemma cstep_conserves:
  assumes "cstep s ev s'" and "cinv s" and "no_failed s" and "ev \<noteq> DeliveryFault"
  shows "cinv s' \<and> no_failed s' \<and>
    mset (delivered_of [ev]) + held s' + mset (pending_uuids (cr_proxy s')) =
    held s + mset (pending_uuids (cr_proxy s)) + mset (puts_of [ev])"
  using assms
proof (induction rule: cstep.induct)
  case (put s md km sv u ns r px)
  let ?t = "ptable (cr_proxy s)"
  from put have inv: "proxy_inv (cr_proxy s)" and th: "list_all (thread_ok ?t) (cr_threads s)"
    by (simp_all add: cinv_def)
  note step = put_module_step [OF inv put.hyps]
  note app = put_module_entries [OF inv put.hyps(3,4)]
  have "held (s\<lparr>cr_proxy := px\<rparr>) = held s"
    using th holds_append [OF _ app] by (auto simp: held_def list_all_iff intro!: arg_cong [of _ _ sum_mset] cong: map_cong)
  moreover have "list_all (thread_ok (ptable px)) (cr_threads s)"
    using th thread_ok_mono [OF _ app] by (auto simp: list_all_iff)
  ultimately show ?case
    using step put.prems by (simp add: cinv_def no_failed_def puts_of_def delivered_of_def List.map_filter_def)
next
  case (stage sv i s param r m px)
  let ?t = "ptable (cr_proxy s)" and ?r = "cr_threads s ! i"
  let ?s' = "\<lparr>cr_proxy = px, cr_mem = m, cr_threads = (cr_threads s)[i := r]\<rparr>"
  from stage have inv: "proxy_inv (cr_proxy s)" and th: "list_all (thread_ok ?t) (cr_threads s)"
    by (simp_all add: cinv_def)
  then have r: "thread_ok ?t ?r" "\<nexists>n. ?r = CopyFailed n"
    using stage.hyps(2) stage.prems(2) by (auto simp: list_all_length no_failed_def)
  note eff = req_step_effect [OF inv r(1) stage.hyps(1,3) stage.prems(3) r(2)]
  then have ents: "mt_entries (ptable px) = mt_entries ?t" by blast
  have "held ?s' + mset (holds ?t ?r) = held s + mset (holds (ptable px) r)"
    by (rule held_update [OF stage.hyps(2) ents])
  moreover have "cinv ?s'"
    using eff th thread_ok_entries [OF ents] by (simp add: cinv_def list_all_update)
  moreover have "no_failed ?s'"
    using eff stage.prems(2) by (simp add: no_failed_def list_all_update)
  ultimately show ?case
    using eff mset_move [of "held ?s'" "mset (holds ?t ?r)" "held s" "mset (holds (ptable px) r)"
        "mset (delivered_of [req_event ?r r param m])" "mset (pending_uuids px)" "mset (pending_uuids (cr_proxy s))"]
    by simp
next
  case (again i s r)
  have "held (s\<lparr>cr_threads := (cr_threads s)[i := Begin]\<rparr>) = held s"
    using sum_mset_list_update [OF again.hyps(1), of "\<lambda>r. mset (holds (ptable (cr_proxy s)) r)" Begin] again.hyps(2)
    by (simp add: held_def)
  with again.prems show ?case
    by (simp add: cinv_def no_failed_def list_all_update thread_ok_def puts_of_def delivered_of_def List.map_filter_def)
qed

lemma events_snoc:
  "puts_of (tr @ [ev]) = puts_of tr @ puts_of [ev]" "delivered_of (tr @ [ev]) = delivered_of tr @ delivered_of [ev]"
  by (simp_all add: puts_of_def delivered_of_def List.map_filter_def)

lemma crun_conserves:
  "crun s tr s' \<Longrightarrow> cinv s \<Longrightarrow> no_failed s \<Longrightarrow> DeliveryFault \<notin> set tr \<Longrightarrow>
     cinv s' \<and> no_failed s' \<and>
     mset (delivered_of tr) + held s' + mset (pending_uuids (cr_proxy s')) =
     held s + mset (pending_uuids (cr_proxy s)) + mset (puts_of tr)"
proof (induction rule: crun.induct)
  case (nil s)
  then show ?case by simp
next
  case (snoc s tr s1 ev s2)
  then have IH: "cinv s1" "no_failed s1" "mset (delivered_of tr) + held s1 + mset (pending_uuids (cr_proxy s1)) =
     held s + mset (pending_uuids (cr_proxy s)) + mset (puts_of tr)" and ev: "ev \<noteq> DeliveryFault"
    by auto
  from cstep_conserves [OF snoc.hyps(2) IH(1,2) ev] show ?case
    using mset_chain [OF IH(3)] by (simp only: events_snoc mset_append)
qed

subsection \<open>A copy fault beside another request\<close>

lemma crun_stage:
  assumes "crun s0 tr s" and "uaccess_ok sv" and "i < length (cr_threads s)"
    and "req_step sv param (cr_threads s ! i) (cr_mem s) (cr_proxy s) = Ret (r, m, px)"
  shows "crun s0 (tr @ [req_event (cr_threads s ! i) r param m])
    \<lparr>cr_proxy = px, cr_mem = m, cr_threads = (cr_threads s)[i := r]\<rparr>"
  using crun.snoc [OF assms(1) cstep.stage [OF assms(2-4)]] .

lemma fault_duplicates:
  fixes s :: "'e creq" and sv svf :: "'e kservices"
  assumes inv: "proxy_inv (cr_proxy s)" and pend: "mt_pending (ptable (cr_proxy s)) = x # y # rest"
    and idle: "cr_threads s = [Begin, Begin]"
    and bad: "uaccess_ok svf" "copy_to_user svf (cr_mem s) pf (enc_u128 (mt_uuid x)) = (n, m1)" "n \<noteq> 0"
    and good: "uaccess_ok sv" "\<forall>m bs. copy_to_user sv m p bs = (0, umem_write m p bs)"
  shows "\<exists>s'. crun s [Quiet, Quiet, DeliveryFault, Quiet, Delivered (mt_uuid y), Quiet, Quiet, Delivered (mt_uuid y)] s' \<and>
    mt_pending (ptable (cr_proxy s')) = rest \<and> cr_threads s' = [Done (- int n), Done 1]"
proof -
  let ?st = "cr_proxy s" and ?m = "cr_mem s" and ?k = "mt_popped (ptable (cr_proxy s))"
  let ?A = "Popped (MtSlot (int ?k))" and ?B = "Popped (MtSlot (int (Suc ?k)))"
  obtain t1 where t1: "\<And>sv p m. req_step sv p Begin m ?st = Ret (?A, m, ?st\<lparr>ptable := t1\<rparr>)"
    "proxy_inv (?st\<lparr>ptable := t1\<rparr>)" "mt_pending t1 = y # rest" "mt_entries t1 = mt_entries (ptable ?st)"
    "t1 = (ptable ?st)\<lparr>table_index := table_index (ptable ?st) + 1\<rparr>"
    "mt_entries (ptable ?st) ! ?k = x" "?k < length (mt_entries (ptable ?st))"
    using pop_stage [OF inv pend] by metis
  let ?s1 = "?st\<lparr>ptable := t1\<rparr>"
  have idx: "-1 \<le> table_index (ptable ?st)" using inv by (auto simp: proxy_inv_def elim: mt_invE)
  then have k1: "mt_popped t1 = Suc ?k" using t1(5) by (simp add: mt_popped_def)
  obtain t2 where t2: "\<And>sv p m. req_step sv p Begin m ?s1 = Ret (?B, m, ?st\<lparr>ptable := t2\<rparr>)"
    "proxy_inv (?st\<lparr>ptable := t2\<rparr>)" "mt_pending t2 = rest" "mt_entries t2 = mt_entries t1"
    "t2 = t1\<lparr>table_index := table_index t1 + 1\<rparr>" "mt_entries t1 ! Suc ?k = y" "Suc ?k < length (mt_entries t1)"
    using pop_stage [OF t1(2), of y rest] t1(3) k1 by auto
  let ?s2 = "?st\<lparr>ptable := t2\<rparr>"
  have rev: "?s2\<lparr>ptable := snd (table_pop_reverse t2)\<rparr> = ?s1"
    using t1(5) t2(5) idx by (simp add: table_pop_reverse_def)
  obtain m2 where m2: "copy_to_user sv m1 p (enc_u128 (mt_uuid y)) = (0, m2)"
    using good(2) by blast
  obtain m3 where m3: "copy_to_user sv m2 p (enc_u128 (mt_uuid y)) = (0, m3)"
    using good(2) by blast
  have A: "req_step svf pf ?A ?m ?s2 = Ret (CopyFailed n, m1, ?s2)"
      "req_event ?A (CopyFailed n) pf m1 = DeliveryFault"
    using copy_stage [OF t2(2) _ bad(1), of ?k ?m pf n m1] bad t1 t2 by auto
  have B: "req_step sv p ?B m1 ?s1 = Ret (Done 1, m2, ?s1)" "req_event ?B (Done 1) p m2 = Delivered (mt_uuid y)"
    using copy_stage [OF t1(2) _ good(1), of "Suc ?k" m1 p 0 m2] m2 t2 by auto
  have C: "req_step sv p ?B m2 ?s2 = Ret (Done 1, m3, ?s2)" "req_event ?B (Done 1) p m3 = Delivered (mt_uuid y)"
    using copy_stage [OF t2(2) _ good(1), of "Suc ?k" m2 p 0 m3] m3 t2 by auto
  have q: "req_event Begin r a b = Quiet" "req_event (CopyFailed n) r a b = Quiet" for r a b
    by (simp_all add: req_event_def)
  note st = crun_stage [OF _ good(1)]
  have "crun s ([] @ [Quiet]) \<lparr>cr_proxy = ?s1, cr_mem = ?m, cr_threads = [?A, Begin]\<rparr>"
    using st [OF crun.nil, of 0 s p] idle t1(1) q by simp
  from st [OF this, of 1 p] have "crun s (([] @ [Quiet]) @ [Quiet]) \<lparr>cr_proxy = ?s2, cr_mem = ?m, cr_threads = [?A, ?B]\<rparr>"
    using t2(1) q by simp
  from crun_stage [OF this bad(1), of 0 pf] have
    "crun s ((([] @ [Quiet]) @ [Quiet]) @ [DeliveryFault]) \<lparr>cr_proxy = ?s2, cr_mem = m1, cr_threads = [CopyFailed n, ?B]\<rparr>"
    using A by simp
  from st [OF this, of 0 p] have
    "crun s (((([] @ [Quiet]) @ [Quiet]) @ [DeliveryFault]) @ [Quiet]) \<lparr>cr_proxy = ?s1, cr_mem = m1, cr_threads = [Done (- int n), ?B]\<rparr>"
    using rev q by simp
  from st [OF this, of 1 p] have d: "crun s ((((([] @ [Quiet]) @ [Quiet]) @ [DeliveryFault]) @ [Quiet]) @ [Delivered (mt_uuid y)])
      \<lparr>cr_proxy = ?s1, cr_mem = m2, cr_threads = [Done (- int n), Done 1]\<rparr>" (is "crun s ?tr ?d")
    using B by simp
  have "cstep ?d Quiet \<lparr>cr_proxy = ?s1, cr_mem = m2, cr_threads = [Done (- int n), Begin]\<rparr>"
    using cstep.again [of 1 ?d 1] by simp
  from st [OF crun.snoc [OF d this], of 1 p] have
    "crun s ((?tr @ [Quiet]) @ [Quiet]) \<lparr>cr_proxy = ?s2, cr_mem = m2, cr_threads = [Done (- int n), ?B]\<rparr>"
    using t2(1) q by simp
  from st [OF this, of 1 p] have
    "crun s (((?tr @ [Quiet]) @ [Quiet]) @ [Delivered (mt_uuid y)]) \<lparr>cr_proxy = ?s2, cr_mem = m3, cr_threads = [Done (- int n), Done 1]\<rparr>"
    using C by simp
  with t2(3) show ?thesis
    by (intro exI [of _ "\<lparr>cr_proxy = ?s2, cr_mem = m3, cr_threads = [Done (- int n), Done 1]\<rparr>"]) simp
qed

end
