(* ===== verification/Interleaving_Properties.thy ===== *)
theory Interleaving_Properties
  imports Demo_Systems Service_Spec Concurrent_Requests
begin

text \<open>
  Properties of interleavings: the whole system as a service, several requests for a pending
  module at once, and the end of one server and the start of the next.
\<close>

subsection \<open>The system as a service\<close>



subsection \<open>Concurrent requests\<close>

text \<open>A request of which no other step comes in between is the handler of the device: its
  stages, run one after the other, return what the handler returns, change the state as it
  does, and fault where it faults.\<close>

theorem request_alone_is_handler:
  "req_alone sv param m st =
     exec_bind (cdev_ioctl sv (kvm_host_server_get_pending_module (lxc_uio_cdev_major_number st)) param m st)
       (\<lambda>(r, m', st'). Ret (Done r, m', st'))"
  using req_alone_eq by simp


definition demo_requests :: "u128 list \<Rightarrow> nat creq" where
  "demo_requests us = \<lparr>cr_proxy = demo_proxy us 0, cr_mem = (\<lambda>_. 0), cr_threads = [Begin, Begin]\<rparr>"



text \<open>C32. A copy fault beside another request loses a module and delivers another one twice. Of
  two requests, the first has popped the oldest module and the second the next one when the
  copy of the first faults. It gives back a pop, but the table only counts pops: what becomes
  pending again is the module of the second request, which is delivered, by that request and
  once more by the next one, while the oldest module is gone.\<close>

theorem concurrent_fault_duplicates:
  fixes s :: "'e creq" and sv svf :: "'e kservices"
  assumes "proxy_inv (cr_proxy s)" and "mt_pending (ptable (cr_proxy s)) = x # y # rest"
    and "cr_threads s = [Begin, Begin]" and "uaccess_ok svf"
    and "copy_to_user svf (cr_mem s) pf (enc_u128 (mt_uuid x)) = (n, m1)" and "n \<noteq> 0"
    and "uaccess_ok sv" and "\<forall>m bs. copy_to_user sv m p bs = (0, umem_write m p bs)"
  shows "\<exists>s'. crun s [Quiet, Quiet, DeliveryFault, Quiet, Delivered (mt_uuid y), Quiet, Quiet, Delivered (mt_uuid y)] s' \<and>
    mt_pending (ptable (cr_proxy s')) = rest \<and> cr_threads s' = [Done (- int n), Done 1]"
  by (rule fault_duplicates [OF assms])

definition demo_faulty :: "nat kservices" where
  "demo_faulty = demo_sv\<lparr>copy_to_user := (\<lambda>m a bs. if bs = [] then (0, umem_write m a bs) else (length bs, m))\<rparr>"

lemma demo_faulty_ok: "uaccess_ok demo_faulty"
  by (simp add: demo_faulty_def uaccess_ok_def) (simp add: demo_sv_def)

theorem concurrent_fault_duplicates_witness:
  "\<exists>s'. crun (demo_requests [5, 6, 7])
      [Quiet, Quiet, DeliveryFault, Quiet, Delivered 6, Quiet, Quiet, Delivered 6] s' \<and>
    mt_pending (ptable (cr_proxy s')) = [demo_entry 7] \<and> cr_threads s' = [Done (-16), Done 1]"
proof -
  let ?s = "demo_requests [5, 6, 7]"
  have s: "proxy_inv (cr_proxy ?s)" "cr_threads ?s = [Begin, Begin]"
    "mt_pending (ptable (cr_proxy ?s)) = demo_entry 5 # demo_entry 6 # [demo_entry 7]"
    by (simp_all add: demo_requests_def demo_proxy_inv)
  have f: "copy_to_user demo_faulty (cr_mem ?s) 64 (enc_u128 (mt_uuid (demo_entry 5))) = (16, cr_mem ?s)"
    by (auto simp: demo_faulty_def dest: arg_cong [where f = length])
  have g: "\<forall>m bs. copy_to_user demo_sv m 64 bs = (0, umem_write m 64 bs)"
    by (simp add: demo_sv_def)
  have "mt_uuid (demo_entry 6) = 6" by (simp add: demo_entry_def)
  with concurrent_fault_duplicates [OF s(1,3,2) demo_faulty_ok f _ demo_sv_ok(1) g] show ?thesis by simp
qed

subsection \<open>The end of a server\<close>

text \<open>C33. A server that dies without deregistering breaks the next insertion. Closing the files
  of a killed server leaves its registration, whose file pointer dangles once the file is
  freed: the next insertion follows it and faults. Had the server been interrupted instead,
  its handler deregisters it, exits with status 0, and the insertion only becomes pending.\<close>

theorem killed_server_breaks_insertion:
  assumes "running_inv ids w" and "kmodules (wproxy w) md = Some km" and "module_ok km"
    and "mt_put_ok (krealloc_mt sv) (ptable (wproxy w))"
    and "ks (wproxy w) = Some k" and "eventfd_ctx_fileget sv (ks_fp k) = Crash UseAfterFree"
  shows "lxc_uio_proxy_put_module_1 sv u ns md (wproxy (server_killed w)) = Crash UseAfterFree \<and>
    (\<exists>w1 px. signal_callback_handler sv' SIGINT w = Ret (Exited 0, w1) \<and>
       lxc_uio_proxy_put_module_1 sv u ns md (wproxy w1) = Ret (0, px) \<and>
       pending_uuids px = pending_uuids (wproxy w) @ [u] \<and> efds px = efds (wproxy w))"
proof -
  from assms(1) have inv: "proxy_inv (wproxy w)" and maj: "major_agrees w"
    by (simp_all add: running_inv_def)
  let ?st = "(wproxy w)\<lparr>ks := None\<rparr>"
  have st: "proxy_inv ?st" "kmodules ?st md = Some km" "mt_put_ok (krealloc_mt sv) (ptable ?st)"
      "server_live sv ?st"
    using inv assms(2,4) by (simp_all add: server_live_def)
  obtain t1 where t1: "lxc_uio_proxy_put_module_1 sv u ns md ?st = Ret (0, ?st\<lparr>ptable := t1, efds := signalled sv ?st\<rparr>)"
      "mt_pending t1 = mt_pending (ptable ?st) @ [\<lparr>mt_uuid = u, mt_nsproxy = ns, mt_module = md\<rparr>]"
    by (rule put_module_returns [OF st(1,2) assms(3) st(3,4)])
  have "lxc_uio_proxy_put_module_1 sv u ns md (wproxy w) = Crash UseAfterFree"
    by (rule insertion_follows_file [OF inv assms(2,4,5,6)])
  with t1 show ?thesis
    using interrupt_deregisters [OF maj, of sv']
    by (simp add: killed_keeps_registration pending_uuids_def signalled_def)
qed

definition demo_dead :: "nat kservices" where
  "demo_dead = demo_sv\<lparr>eventfd_ctx_fileget := (\<lambda>_. Crash UseAfterFree)\<rparr>"

theorem killed_server_breaks_insertion_witness:
  "lxc_uio_proxy_put_module_1 demo_dead 7 0 64 (wproxy (server_killed (demo_live [5] 1 [demo_done 5] 0))) =
      Crash UseAfterFree"
proof -
  have inv: "running_inv [5] (demo_live [5] 1 [demo_done 5] 0)" by (rule demo_live_inv) simp_all
  have ok: "mt_put_ok (krealloc_mt demo_dead) (ptable (wproxy (demo_live [5] 1 [demo_done 5] 0)))"
    using demo_server_simps(4) [of "[5]" 1] by (simp add: demo_dead_def)
  show ?thesis
    using killed_server_breaks_insertion [OF inv _ _ ok, of 64 demo_module "\<lparr>ks_pid = 42, ks_fp = 80\<rparr>" 7 0 demo_sv]
    by (simp add: demo_server_simps) (simp add: demo_server_def demo_dead_def)
qed

text \<open>C24. A new server takes over what is pending. After a running server was interrupted, a new
  process finds the device, registers, and after its start-up waits with exactly the modules
  that were pending processed, in order. Modules that the old server had taken are not
  served again.\<close>

theorem restart_serves_pending:
  assumes "running_inv ids w" and "setup_env_ok env ((wproxy w)\<lparr>ks := None\<rparr>)" and "distinct ids"
    and "0 \<le> lxc_uio_cdev_major_number (wproxy w)" and "lxc_uio_cdev_major_number (wproxy w) < 2 ^ 31"
    and "pending_uuids (wproxy w) = us" and "length us \<le> 256"
    and "\<forall>u\<in>set us. \<exists>md. knows (wproxy w) u md"
    and "list_all (\<lambda>env. drain_env_ok (st_new env)) envs" and "length envs = Suc (length us)"
    and "list_all process_env_ok envs'" and "length envs' = Suc (length us)"
  shows "\<exists>w1 w2 w'. signal_callback_handler sv SIGINT w = Ret (Exited 0, w1) \<and>
    main_setup env (new_process m w1) = Ret (Drain, w2) \<and>
    main_run (envs @ envs') Drain w2 = Ret (Some (Wait, w')) \<and>
    map uuid (wentries w') = us \<and> list_all processed (wentries w') \<and> pending_uuids (wproxy w') = [] \<and>
    set (map uuid (wentries w')) \<inter> set (map uuid (wentries w)) = {}"
proof -
  from assms(1,6) have ids: "map uuid (wentries w) @ us = ids" by (auto simp: running_inv_def)
  with assms(3) have "distinct (map uuid (wentries w) @ us)" by simp
  then have us: "distinct us" "set us \<inter> set (map uuid (wentries w)) = {}"
    unfolding distinct_append by (blast, blast)
  obtain w1 w2 w' where w: "signal_callback_handler sv SIGINT w = Ret (Exited 0, w1)"
    "main_setup env (new_process m w1) = Ret (Drain, w2)"
    "main_run (envs @ envs') Drain w2 = Ret (Some (Wait, w'))"
    "map uuid (wentries w') = us" "list_all processed (wentries w')" "pending_uuids (wproxy w') = []"
    by (rule restarted [OF assms(1,2,4,5,6) us(1) assms(7-12)])
  from us(2) have "set (map uuid (wentries w')) \<inter> set (map uuid (wentries w)) = {}" unfolding w(4) .
  with w show ?thesis by blast
qed

theorem restart_serves_pending_witness:
  "\<exists>w1 w2 w'. signal_callback_handler demo_sv SIGINT (demo_live [5, 6] 1 [demo_done 5] 0) = Ret (Exited 0, w1) \<and>
    main_setup (demo_setup ((demo_server [5, 6] 1)\<lparr>efds := (\<lambda>_. 0)(1 := 0), ks := None\<rparr>))
      (new_process (\<lambda>_. 0) w1) = Ret (Drain, w2) \<and>
    main_run [demo_step, demo_step, demo_step, demo_step] Drain w2 = Ret (Some (Wait, w')) \<and>
    map uuid (wentries w') = [6] \<and> list_all processed (wentries w') \<and> pending_uuids (wproxy w') = []"
proof -
  let ?w = "demo_live [5, 6] 1 [demo_done 5] 0"
  have inv: "running_inv [5, 6] ?w" by (rule demo_live_inv) simp_all
  have known: "\<exists>md. knows (wproxy ?w) 6 md" using demo_live_knows [of 1 "[5, 6]" 6] by auto
  have maj: "lxc_uio_cdev_major_number (wproxy ?w) = 240" by (simp add: demo_server_def)
  show ?thesis
    using restart_serves_pending [OF inv, of "demo_setup ((wproxy ?w)\<lparr>ks := None\<rparr>)" "[6]"
        "[demo_step, demo_step]" "[demo_step, demo_step]" demo_sv "\<lambda>_. 0"] known maj
    by (simp del: main_run.simps) (elim exE conjE, intro exI conjI)
qed

end
