(* ===== verification/Lock_Programs.thy ===== *)
theory Lock_Programs
  imports Prelude
begin

text \<open>
  Code that takes locks, run by several threads. A program is a tree of atomic actions,
  acquisitions and releases; a thread is at a node of its tree. The first part is the
  operational model: programs, a program run alone, and threads interleaved over a shared
  state. The second part is the calculus in which programs are shown to respect a locking
  discipline (\<open>safe\<close>), with a rely-guarantee reading: between two actions of a thread the
  others change the state only as the guarantee allows, and not at all what is protected by
  the locks the thread holds. The locale at the end is the contract between the programs a
  system calls and the scheduler: if every program is safe, then in every reachable
  configuration the invariant holds, what a lock protects is left alone by everybody but
  its owner, nobody waits forever, and faults are of the allowed kinds only.
\<close>

subsection \<open>Programs\<close>

text \<open>\<open>Atomic f k\<close>: in state \<open>s\<close> go to \<open>f s\<close> and continue as \<open>k s\<close>.\<close>

datatype ('l, 's) prog =
    Finished int
  | Faulted fault
  | Acquire 'l "('l, 's) prog"
  | Release 'l "('l, 's) prog"
  | Atomic "'s \<Rightarrow> 's" "'s \<Rightarrow> ('l, 's) prog"

text \<open>An action given by its outcome: a fault, or the new state and the rest.\<close>

definition atomic :: "('s \<Rightarrow> ('s \<times> ('l, 's) prog) exec) \<Rightarrow> ('l, 's) prog" where
  "atomic f = Atomic
     (\<lambda>s. case f s of Ret (s', p) \<Rightarrow> s' | Crash e \<Rightarrow> s)
     (\<lambda>s. case f s of Ret (s', p) \<Rightarrow> p | Crash e \<Rightarrow> Faulted e)"

primrec run_alone :: "('l, 's) prog \<Rightarrow> 's \<Rightarrow> (int \<times> 's) exec" where
  "run_alone (Finished r) = (\<lambda>s. Ret (r, s))"
| "run_alone (Faulted e) = (\<lambda>s. Crash e)"
| "run_alone (Acquire l p) = run_alone p"
| "run_alone (Release l p) = run_alone p"
| "run_alone (Atomic f k) = (\<lambda>s. run_alone (k s) (f s))"

lemma run_alone_atomic [simp]:
  "run_alone (atomic f) s = exec_bind (f s) (\<lambda>(s', p). run_alone p s')"
  by (simp add: atomic_def split: exec.split prod.split)

subsection \<open>Threads\<close>

record ('l, 's) config =
  cf_state :: 's
  cf_owner :: "'l \<Rightarrow> nat option"
  cf_threads :: "('l, 's) prog list"

inductive lstep :: "('l, 's) config \<Rightarrow> nat \<Rightarrow> ('l, 's) config \<Rightarrow> bool" where
  acquire: "i < length (cf_threads c) \<Longrightarrow> cf_threads c ! i = Acquire l p \<Longrightarrow> cf_owner c l = None \<Longrightarrow>
    lstep c i (c\<lparr>cf_owner := (cf_owner c)(l \<mapsto> i), cf_threads := (cf_threads c)[i := p]\<rparr>)"
| release: "i < length (cf_threads c) \<Longrightarrow> cf_threads c ! i = Release l p \<Longrightarrow> cf_owner c l = Some i \<Longrightarrow>
    lstep c i (c\<lparr>cf_owner := (cf_owner c)(l := None), cf_threads := (cf_threads c)[i := p]\<rparr>)"
| atomic: "i < length (cf_threads c) \<Longrightarrow> cf_threads c ! i = Atomic f k \<Longrightarrow>
    lstep c i (c\<lparr>cf_state := f (cf_state c), cf_threads := (cf_threads c)[i := k (cf_state c)]\<rparr>)"

text \<open>The steps, computed: one thread, and a schedule.\<close>

definition lexec :: "('l, 's) config \<Rightarrow> nat \<Rightarrow> ('l, 's) config option" where
  "lexec c i =
     (if i < length (cf_threads c) then
        (case cf_threads c ! i of
           Acquire l p \<Rightarrow>
             (if cf_owner c l = None
              then Some (c\<lparr>cf_owner := (cf_owner c)(l \<mapsto> i), cf_threads := (cf_threads c)[i := p]\<rparr>) else None)
         | Release l p \<Rightarrow>
             (if cf_owner c l = Some i
              then Some (c\<lparr>cf_owner := (cf_owner c)(l := None), cf_threads := (cf_threads c)[i := p]\<rparr>) else None)
         | Atomic f k \<Rightarrow>
             Some (c\<lparr>cf_state := f (cf_state c), cf_threads := (cf_threads c)[i := k (cf_state c)]\<rparr>)
         | _ \<Rightarrow> None)
      else None)"

primrec lsched :: "('l, 's) config \<Rightarrow> nat list \<Rightarrow> ('l, 's) config option" where
  "lsched c [] = Some c"
| "lsched c (i # is) = (case lexec c i of None \<Rightarrow> None | Some c1 \<Rightarrow> lsched c1 is)"

lemma lexec_lstep: "lexec c i = Some c' \<Longrightarrow> lstep c i c'"
  by (auto simp: lexec_def split: if_splits prog.splits intro: lstep.intros)

lemma lstep_lexec: "lstep c i c' \<Longrightarrow> lexec c i = Some c'"
  by (induction rule: lstep.induct) (simp_all add: lexec_def)

text \<open>A thread that is not scheduled stays where it is.\<close>

lemma lsched_others:
  "lsched c is = Some c' \<Longrightarrow> set is \<subseteq> {i} \<Longrightarrow> j \<noteq> i \<Longrightarrow>
     length (cf_threads c') = length (cf_threads c) \<and> cf_threads c' ! j = cf_threads c ! j"
  by (induction "is" arbitrary: c) (auto simp: lexec_def split: option.splits if_splits prog.splits)

text \<open>The steps of the first thread, as rewrite rules.\<close>

lemma sched_Acquire:
  "ow l = None \<Longrightarrow> lsched \<lparr>cf_state = s, cf_owner = ow, cf_threads = Acquire l p # ps\<rparr> (0 # is) =
     lsched \<lparr>cf_state = s, cf_owner = ow(l \<mapsto> 0), cf_threads = p # ps\<rparr> is"
  by (simp add: lexec_def)

lemma sched_Release:
  "ow l = Some 0 \<Longrightarrow> lsched \<lparr>cf_state = s, cf_owner = ow, cf_threads = Release l p # ps\<rparr> (0 # is) =
     lsched \<lparr>cf_state = s, cf_owner = ow(l := None), cf_threads = p # ps\<rparr> is"
  by (simp add: lexec_def)

lemma sched_atomic:
  "f s = Ret (s', p) \<Longrightarrow> lsched \<lparr>cf_state = s, cf_owner = ow, cf_threads = atomic f # ps\<rparr> (0 # is) =
     lsched \<lparr>cf_state = s', cf_owner = ow, cf_threads = p # ps\<rparr> is"
  by (simp add: lexec_def atomic_def)

lemma sched_fault:
  "f s = Crash e \<Longrightarrow> lsched \<lparr>cf_state = s, cf_owner = ow, cf_threads = atomic f # ps\<rparr> (0 # is) =
     lsched \<lparr>cf_state = s, cf_owner = ow, cf_threads = Faulted e # ps\<rparr> is"
  by (simp add: lexec_def atomic_def)

text \<open>A thread that has finished may be given one of the programs \<open>H\<close> next.\<close>

inductive lcall :: "('l, 's) prog set \<Rightarrow> ('l, 's) config \<Rightarrow> ('l, 's) config \<Rightarrow> bool" for H where
  call: "i < length (cf_threads c) \<Longrightarrow> cf_threads c ! i = Finished r \<Longrightarrow> p \<in> H \<Longrightarrow>
    lcall H c (c\<lparr>cf_threads := (cf_threads c)[i := p]\<rparr>)"

inductive lreach :: "('l, 's) prog set \<Rightarrow> ('l, 's) config \<Rightarrow> ('l, 's) config \<Rightarrow> bool" for H where
  start: "lreach H c c"
| step: "lreach H c c1 \<Longrightarrow> lstep c1 i c2 \<Longrightarrow> lreach H c c2"
| call: "lreach H c c1 \<Longrightarrow> lcall H c1 c2 \<Longrightarrow> lreach H c c2"

lemma lsched_lreach: "lsched c is = Some c' \<Longrightarrow> lreach H c c'"
proof -
  have "lreach H c0 c \<Longrightarrow> lsched c is = Some c' \<Longrightarrow> lreach H c0 c'" for c0
    by (induction "is" arbitrary: c) (auto split: option.splits dest: lexec_lstep intro: lreach.step)
  then show "lsched c is = Some c' \<Longrightarrow> lreach H c c'" using lreach.start by blast
qed

lemma lreach_trans: "lreach H c1 c2 \<Longrightarrow> lreach H c0 c1 \<Longrightarrow> lreach H c0 c2"
  by (induction rule: lreach.induct) (auto intro: lreach.intros)

definition idle_config :: "'s \<Rightarrow> nat \<Rightarrow> ('l, 's) config" where
  "idle_config s n = \<lparr>cf_state = s, cf_owner = (\<lambda>_. None), cf_threads = replicate n (Finished 0)\<rparr>"

definition finished :: "('l, 's) prog \<Rightarrow> bool" where
  "finished p \<longleftrightarrow> (\<exists>r. p = Finished r)"

definition faulted :: "('l, 's) prog \<Rightarrow> bool" where
  "faulted p \<longleftrightarrow> (\<exists>e. p = Faulted e)"

lemma finished_simps [simp]:
  "finished (Finished r)" "\<not> finished (Faulted e)" "\<not> finished (Acquire l p)"
  "\<not> finished (Release l p)" "\<not> finished (Atomic f k)"
  by (simp_all add: finished_def)

lemma faulted_simps [simp]:
  "faulted (Faulted e)" "\<not> faulted (Finished r)" "\<not> faulted (Acquire l p)"
  "\<not> faulted (Release l p)" "\<not> faulted (Atomic f k)"
  by (simp_all add: faulted_def)

lemma lstep_length: "lstep c i c' \<Longrightarrow> length (cf_threads c') = length (cf_threads c)"
  by (induction rule: lstep.induct) simp_all

subsection \<open>Steps terminate\<close>

text \<open>Without new calls only finitely many steps are possible: each one moves a thread to a
  proper part of its program.\<close>

definition prog_part :: "(('l, 's) prog \<times> ('l, 's) prog) set" where
  "prog_part = {(q, p). (\<exists>l. p = Acquire l q) \<or> (\<exists>l. p = Release l q) \<or> (\<exists>f k s. p = Atomic f k \<and> q = k s)}"

lemma wf_prog_part: "wf (prog_part :: (('l, 's) prog \<times> ('l, 's) prog) set)"
proof (rule wfUNIVI)
  fix P :: "('l, 's) prog \<Rightarrow> bool" and x
  assume "\<forall>x. (\<forall>y. (y, x) \<in> prog_part \<longrightarrow> P y) \<longrightarrow> P x"
  then have step: "(\<And>y. (y, x) \<in> prog_part \<Longrightarrow> P y) \<Longrightarrow> P x" for x by blast
  show "P x"
  proof (induction x)
    case (Acquire l p)
    then show ?case by - (rule step, auto simp: prog_part_def)
  next
    case (Release l p)
    then show ?case by - (rule step, auto simp: prog_part_def)
  next
    case (Atomic f k)
    then show ?case by - (rule step, auto simp: prog_part_def)
  qed (rule step, simp add: prog_part_def)+
qed

lemma lstep_part:
  assumes "lstep c i c'"
  shows "(cf_threads c', cf_threads c) \<in> listrel1 prog_part"
proof -
  from assms obtain p where i: "i < length (cf_threads c)"
    and p: "cf_threads c' = (cf_threads c)[i := p]" "(p, cf_threads c ! i) \<in> prog_part"
    by (cases rule: lstep.cases) (auto simp: prog_part_def)
  have "cf_threads c = take i (cf_threads c) @ cf_threads c ! i # drop (Suc i) (cf_threads c)"
    using i by (simp add: id_take_nth_drop)
  then show ?thesis
    by (rule listrel1I [OF p(2), rotated]) (simp add: p(1) i upd_conv_take_nth_drop)
qed

lemma wf_lstep: "wf {(c', c :: ('l, 's) config). \<exists>i. lstep c i c'}"
proof (rule wf_subset)
  show "wf (inv_image (listrel1 (prog_part :: (('l, 's) prog \<times> _) set)) cf_threads)"
    by (intro wf_inv_image) (simp add: wf_prog_part)
  show "{(c', c). \<exists>i. lstep c i c'} \<subseteq> inv_image (listrel1 prog_part) cf_threads"
    by (auto simp: lstep_part)
qed

subsection \<open>A thread that faulted\<close>

lemma lstep_dead:
  assumes "lstep c i c'" and "j < length (cf_threads c)" and "cf_threads c ! j = Faulted e"
    and "cf_owner c l = Some j"
  shows "cf_threads c' ! j = Faulted e \<and> cf_owner c' l = Some j \<and>
    (m < length (cf_threads c) \<and> cf_threads c ! m = Acquire l p \<longrightarrow> cf_threads c' ! m = Acquire l p)"
  using assms by (cases rule: lstep.cases) (auto simp: nth_list_update)

lemma lcall_dead:
  assumes "lcall H c c'" and "j < length (cf_threads c)" and "cf_threads c ! j = Faulted e"
    and "cf_owner c l = Some j"
  shows "cf_threads c' ! j = Faulted e \<and> cf_owner c' l = Some j \<and> length (cf_threads c') = length (cf_threads c) \<and>
    (m < length (cf_threads c) \<and> cf_threads c ! m = Acquire l p \<longrightarrow> cf_threads c' ! m = Acquire l p)"
  using assms by (cases rule: lcall.cases) (auto simp: nth_list_update)

text \<open>A lock whose owner faulted is never released; who waits for it waits forever.\<close>

lemma dead_owner:
  assumes "lreach H c c'" and "j < length (cf_threads c)" and "cf_threads c ! j = Faulted e"
    and "cf_owner c l = Some j"
  shows "cf_threads c' ! j = Faulted e \<and> cf_owner c' l = Some j \<and> length (cf_threads c') = length (cf_threads c) \<and>
    (\<forall>m p. m < length (cf_threads c) \<and> cf_threads c ! m = Acquire l p \<longrightarrow> cf_threads c' ! m = Acquire l p)"
  using assms
proof (induction rule: lreach.induct)
  case (step c c1 i c2)
  with lstep_dead [OF step.hyps(2), of j e l] lstep_length [OF step.hyps(2)] show ?case by simp
next
  case (call c c1 c2)
  with lcall_dead [OF call.hyps(2), of j e l] show ?case by simp
qed simp

subsection \<open>The discipline\<close>

text \<open>What the programs of a system agree on: the order of the locks, the part of the state each
  lock protects (given by when it is unchanged), the invariant of the state, what anybody
  may do to the state in one action, and the faults that may happen.\<close>

record ('l, 's) lock_spec =
  sp_rank :: "'l \<Rightarrow> nat"
  sp_same :: "'l \<Rightarrow> 's \<Rightarrow> 's \<Rightarrow> bool"
  sp_inv :: "'s \<Rightarrow> bool"
  sp_guar :: "'s \<Rightarrow> 's \<Rightarrow> bool"
  sp_faults :: "fault set"

text \<open>An action of a thread that holds \<open>h\<close>, and an assertion that the actions of the others
  preserve meanwhile.\<close>

definition allowed :: "('l, 's) lock_spec \<Rightarrow> 'l list \<Rightarrow> 's \<Rightarrow> 's \<Rightarrow> bool" where
  "allowed R h s s' \<longleftrightarrow> sp_inv R s' \<and> sp_guar R s s' \<and> (\<forall>l. l \<notin> set h \<longrightarrow> sp_same R l s s')"

definition stable :: "('l, 's) lock_spec \<Rightarrow> 'l list \<Rightarrow> ('s \<Rightarrow> bool) \<Rightarrow> bool" where
  "stable R h P \<longleftrightarrow>
     (\<forall>s s'. sp_inv R s \<and> sp_inv R s' \<and> sp_guar R s s' \<and> (\<forall>l\<in>set h. sp_same R l s s') \<and> P s \<longrightarrow> P s')"

text \<open>\<open>safe R h P p\<close>: holding the locks \<open>h\<close>, the last one first, and knowing \<open>P\<close>, the
  program \<open>p\<close> takes locks in ascending order and releases the last one first, changes the
  state only as allowed, holds nothing when it finishes, and faults only in allowed ways.\<close>

inductive safe :: "('l, 's) lock_spec \<Rightarrow> 'l list \<Rightarrow> ('s \<Rightarrow> bool) \<Rightarrow> ('l, 's) prog \<Rightarrow> bool" for R where
  finished: "safe R [] P (Finished r)"
| faulted: "e \<in> sp_faults R \<Longrightarrow> safe R h P (Faulted e)"
| acquire: "(\<And>m. m \<in> set h \<Longrightarrow> sp_rank R m < sp_rank R l) \<Longrightarrow> safe R (l # h) P p \<Longrightarrow>
    safe R h P (Acquire l p)"
| release: "stable R h Q \<Longrightarrow> (\<And>s. P s \<Longrightarrow> Q s) \<Longrightarrow> safe R h Q p \<Longrightarrow> safe R (l # h) P (Release l p)"
| atomic: "(\<And>s. sp_inv R s \<Longrightarrow> P s \<Longrightarrow>
      allowed R h s (f s) \<and> stable R h (Q s) \<and> Q s (f s) \<and> safe R h (Q s) (k s)) \<Longrightarrow>
    safe R h P (Atomic f k)"

inductive_cases safe_FinishedE: "safe R h P (Finished r)"

inductive_cases safe_FaultedE: "safe R h P (Faulted e)"

inductive_cases safe_AcquireE: "safe R h P (Acquire l p)"

inductive_cases safe_ReleaseE: "safe R h P (Release l p)"

inductive_cases safe_AtomicE: "safe R h P (Atomic f k)"

lemma stable_true [simp]: "stable R h (\<lambda>_. True)"
  by (simp add: stable_def)

lemma stable_more: "stable R h P \<Longrightarrow> set h \<subseteq> set h' \<Longrightarrow> stable R h' P"
  by (auto simp: stable_def)

text \<open>An action given by its outcome.\<close>

lemma safe_atomic:
  assumes "\<And>s s' p. sp_inv R s \<Longrightarrow> P s \<Longrightarrow> f s = Ret (s', p) \<Longrightarrow>
      allowed R h s s' \<and> stable R h (Q s) \<and> Q s s' \<and> safe R h (Q s) p"
    and "\<And>s e. sp_inv R s \<Longrightarrow> P s \<Longrightarrow> f s = Crash e \<Longrightarrow> e \<in> sp_faults R"
    and "\<And>s. sp_inv R s \<Longrightarrow> allowed R h s s"
  shows "safe R h P (atomic f)"
  unfolding atomic_def
proof (rule safe.atomic [where Q = "\<lambda>s. if \<exists>x. f s = Ret x then Q s else (\<lambda>_. True)"])
  fix s assume s: "sp_inv R s" "P s"
  show "allowed R h s (case f s of Ret (s', p) \<Rightarrow> s' | Crash e \<Rightarrow> s) \<and>
    stable R h (if \<exists>x. f s = Ret x then Q s else (\<lambda>_. True)) \<and>
    (if \<exists>x. f s = Ret x then Q s else (\<lambda>_. True)) (case f s of Ret (s', p) \<Rightarrow> s' | Crash e \<Rightarrow> s) \<and>
    safe R h (if \<exists>x. f s = Ret x then Q s else (\<lambda>_. True)) (case f s of Ret (s', p) \<Rightarrow> p | Crash e \<Rightarrow> Faulted e)"
  proof (cases "f s")
    case (Ret x)
    then show ?thesis using assms(1) [OF s, of "fst x" "snd x"] by (cases x) simp
  next
    case (Crash e)
    then show ?thesis using assms(2,3) s by (simp add: safe.faulted)
  qed
qed

subsection \<open>A thread on its own\<close>

text \<open>\<open>run_alone\<close> is what happens when the scheduler runs one thread only and the others hold
  nothing: it gets every lock it asks for and ends as \<open>run_alone\<close> says.\<close>

definition ends_as :: "('l, 's) config \<Rightarrow> nat \<Rightarrow> ('l, 's) prog list \<Rightarrow> (int \<times> 's) exec \<Rightarrow> bool" where
  "ends_as c i ts x \<longleftrightarrow>
     (\<exists>n c'. lsched c (replicate n i) = Some c' \<and>
       (case x of
          Ret (r, s') \<Rightarrow> c' = \<lparr>cf_state = s', cf_owner = (\<lambda>_. None), cf_threads = ts[i := Finished r]\<rparr>
        | Crash e \<Rightarrow> cf_threads c' = ts[i := Faulted e]))"

lemma ends_as_step:
  assumes "lexec c i = Some c1" and "ends_as c1 i ts x"
  shows "ends_as c i ts x"
proof -
  from assms(2) obtain n c' where "lsched c1 (replicate n i) = Some c'" and
    x: "case x of
          Ret (r, s') \<Rightarrow> c' = \<lparr>cf_state = s', cf_owner = (\<lambda>_. None), cf_threads = ts[i := Finished r]\<rparr>
        | Crash e \<Rightarrow> cf_threads c' = ts[i := Faulted e]"
    by (auto simp: ends_as_def)
  with assms(1) have "lsched c (replicate (Suc n) i) = Some c'" by simp
  with x show ?thesis unfolding ends_as_def by blast
qed

lemma ends_as_update [simp]: "ends_as c i (ts[i := p]) x = ends_as c i ts x"
  by (cases x) (simp_all add: ends_as_def case_prod_unfold)

lemma safe_ends_as:
  assumes "safe R h P p" and "sp_inv R s" and "P s"
    and "sorted_wrt (\<lambda>a b. sp_rank R b < sp_rank R a) h"
    and "ow = (\<lambda>l. if l \<in> set h then Some i else None)" and "i < length ts" and "ts ! i = p"
  shows "ends_as \<lparr>cf_state = s, cf_owner = ow, cf_threads = ts\<rparr> i ts (run_alone p s)"
  using assms
proof (induction arbitrary: s ow ts rule: safe.induct)
  case (finished P r)
  then have "ts[i := Finished r] = ts" using list_update_id [of ts i] by simp
  with finished show ?case by (auto simp: ends_as_def intro!: exI [of _ 0])
next
  case (faulted e h P)
  then have "ts[i := Faulted e] = ts" using list_update_id [of ts i] by simp
  then show ?case by (auto simp: ends_as_def intro!: exI [of _ 0])
next
  case (acquire h l P p)
  let ?ow = "\<lambda>m. if m \<in> set (l # h) then Some i else None"
  have l: "l \<notin> set h" using acquire.hyps(1) [of l] by auto
  have "ends_as \<lparr>cf_state = s, cf_owner = ?ow, cf_threads = ts[i := p]\<rparr> i (ts[i := p]) (run_alone p s)"
    using acquire.prems acquire.hyps(1) by (intro acquire.IH) auto
  moreover have "lexec \<lparr>cf_state = s, cf_owner = ow, cf_threads = ts\<rparr> i =
      Some \<lparr>cf_state = s, cf_owner = ?ow, cf_threads = ts[i := p]\<rparr>"
    using acquire.prems l by (auto simp: lexec_def fun_eq_iff)
  ultimately show ?case using ends_as_step by simp
next
  case (release h Q P p l)
  let ?ow = "\<lambda>m. if m \<in> set h then Some i else None"
  have l: "l \<notin> set h" using release.prems(3) by auto
  have "ends_as \<lparr>cf_state = s, cf_owner = ?ow, cf_threads = ts[i := p]\<rparr> i (ts[i := p]) (run_alone p s)"
    using release.prems release.hyps(2) by (intro release.IH) auto
  moreover have "lexec \<lparr>cf_state = s, cf_owner = ow, cf_threads = ts\<rparr> i =
      Some \<lparr>cf_state = s, cf_owner = ?ow, cf_threads = ts[i := p]\<rparr>"
    using release.prems l by (auto simp: lexec_def fun_eq_iff)
  ultimately show ?case using ends_as_step by simp
next
  case (atomic P h f Q k)
  have "ends_as \<lparr>cf_state = f s, cf_owner = ow, cf_threads = ts[i := k s]\<rparr> i (ts[i := k s]) (run_alone (k s) (f s))"
    using atomic.IH [OF atomic.prems(1,2), THEN conjunct2, THEN conjunct2, THEN conjunct2, THEN conjunct2,
        rule_format, of "f s" ow "ts[i := k s]"] atomic.IH [OF atomic.prems(1,2)] atomic.prems(3-6)
    by (simp add: allowed_def)
  moreover have "lexec \<lparr>cf_state = s, cf_owner = ow, cf_threads = ts\<rparr> i =
      Some \<lparr>cf_state = f s, cf_owner = ow, cf_threads = ts[i := k s]\<rparr>"
    using atomic.prems by (simp add: lexec_def)
  ultimately show ?case using ends_as_step by simp
qed

subsection \<open>The invariant of a running system\<close>

text \<open>Thread \<open>i\<close> holds the locks \<open>hs i\<close> and knows \<open>Ps i\<close>.\<close>

definition thread_inv ::
    "('l, 's) lock_spec \<Rightarrow> 's \<Rightarrow> 'l list \<Rightarrow> ('s \<Rightarrow> bool) \<Rightarrow> ('l, 's) prog \<Rightarrow> bool" where
  "thread_inv R s h P p \<longleftrightarrow>
     safe R h P p \<and> stable R h P \<and> P s \<and> sorted_wrt (\<lambda>a b. sp_rank R b < sp_rank R a) h"

definition system_inv ::
    "('l, 's) lock_spec \<Rightarrow> ('l, 's) config \<Rightarrow> (nat \<Rightarrow> 'l list) \<Rightarrow> (nat \<Rightarrow> 's \<Rightarrow> bool) \<Rightarrow> bool" where
  "system_inv R c hs Ps \<longleftrightarrow>
     sp_inv R (cf_state c) \<and>
     (\<forall>i < length (cf_threads c). thread_inv R (cf_state c) (hs i) (Ps i) (cf_threads c ! i)) \<and>
     (\<forall>l i. cf_owner c l = Some i \<longleftrightarrow> i < length (cf_threads c) \<and> l \<in> set (hs i))"

lemma idle_system_inv:
  "sp_inv R s \<Longrightarrow> system_inv R (idle_config s n) (\<lambda>_. []) (\<lambda>_ _. True)"
  by (simp add: system_inv_def idle_config_def thread_inv_def safe.finished)

lemma system_invD:
  assumes "system_inv R c hs Ps" and "i < length (cf_threads c)"
  shows "safe R (hs i) (Ps i) (cf_threads c ! i)" "stable R (hs i) (Ps i)" "Ps i (cf_state c)"
    "sorted_wrt (\<lambda>a b. sp_rank R b < sp_rank R a) (hs i)" "sp_inv R (cf_state c)"
  using assms by (simp_all add: system_inv_def thread_inv_def)

lemma system_inv_owner:
  "system_inv R c hs Ps \<Longrightarrow> cf_owner c l = Some i \<longleftrightarrow> i < length (cf_threads c) \<and> l \<in> set (hs i)"
  by (simp add: system_inv_def)

lemma system_inv_update:
  assumes inv: "system_inv R c hs Ps" and i: "i < length (cf_threads c)"
    and t: "thread_inv R (cf_state c) h P p"
    and ow: "\<And>l j. ow l = Some j \<longleftrightarrow> (if j = i then l \<in> set h else cf_owner c l = Some j)"
  shows "system_inv R (c\<lparr>cf_owner := ow, cf_threads := (cf_threads c)[i := p]\<rparr>) (hs(i := h)) (Ps(i := P))"
  unfolding system_inv_def
proof (intro conjI allI impI)
  show "cf_owner (c\<lparr>cf_owner := ow, cf_threads := (cf_threads c)[i := p]\<rparr>) l = Some j \<longleftrightarrow>
      j < length (cf_threads (c\<lparr>cf_owner := ow, cf_threads := (cf_threads c)[i := p]\<rparr>)) \<and> l \<in> set ((hs(i := h)) j)"
    for l j
    using system_inv_owner [OF inv, of l j] i ow [of l j] by simp
qed (use t inv in \<open>simp_all add: system_inv_def nth_list_update\<close>)

lemma acquire_inv:
  assumes inv: "system_inv R c hs Ps" and i: "i < length (cf_threads c)"
    and t: "cf_threads c ! i = Acquire l p" and free: "cf_owner c l = None"
  shows "system_inv R (c\<lparr>cf_owner := (cf_owner c)(l \<mapsto> i), cf_threads := (cf_threads c)[i := p]\<rparr>)
    (hs(i := l # hs i)) (Ps(i := Ps i))"
proof (rule system_inv_update [OF inv i])
  note D = system_invD [OF inv i]
  from D(1) t have p: "\<And>m. m \<in> set (hs i) \<Longrightarrow> sp_rank R m < sp_rank R l" "safe R (l # hs i) (Ps i) p"
    by (auto elim: safe_AcquireE)
  then show "thread_inv R (cf_state c) (l # hs i) (Ps i) p"
    using D stable_more [OF D(2), of "l # hs i"] by (simp add: thread_inv_def subset_insertI)
  show "((cf_owner c)(l \<mapsto> i)) m = Some j \<longleftrightarrow> (if j = i then m \<in> set (l # hs i) else cf_owner c m = Some j)" for m j
    using system_inv_owner [OF inv, of m j] free i by (cases "m = l") auto
qed

lemma release_inv:
  assumes inv: "system_inv R c hs Ps" and i: "i < length (cf_threads c)"
    and t: "cf_threads c ! i = Release l p"
  shows "\<exists>h Q. system_inv R (c\<lparr>cf_owner := (cf_owner c)(l := None), cf_threads := (cf_threads c)[i := p]\<rparr>)
    (hs(i := h)) (Ps(i := Q))"
proof -
  note D = system_invD [OF inv i]
  from D(1) t obtain h Q where h: "hs i = l # h" "stable R h Q" "\<And>s. Ps i s \<Longrightarrow> Q s" "safe R h Q p"
    by (auto elim: safe_ReleaseE)
  then have me: "thread_inv R (cf_state c) h Q p" and l: "l \<notin> set h"
    using D by (auto simp: thread_inv_def)
  have "((cf_owner c)(l := None)) m = Some j \<longleftrightarrow> (if j = i then m \<in> set h else cf_owner c m = Some j)" for m j
    using system_inv_owner [OF inv, of m j] system_inv_owner [OF inv, of l i] h(1) i l by (cases "m = l") auto
  then show ?thesis using system_inv_update [OF inv i me] by blast
qed

lemma atomic_inv:
  assumes inv: "system_inv R c hs Ps" and i: "i < length (cf_threads c)"
    and t: "cf_threads c ! i = Atomic f k"
  shows "allowed R (hs i) (cf_state c) (f (cf_state c)) \<and>
    (\<exists>Q. system_inv R (c\<lparr>cf_state := f (cf_state c), cf_threads := (cf_threads c)[i := k (cf_state c)]\<rparr>)
      hs (Ps(i := Q)))"
proof -
  note D = system_invD [OF inv i]
  let ?s = "cf_state c"
  from D(1) t obtain Q where Q: "allowed R (hs i) ?s (f ?s)" "stable R (hs i) (Q ?s)" "Q ?s (f ?s)"
      "safe R (hs i) (Q ?s) (k ?s)"
    using D(3,5) by (auto elim!: safe_AtomicE)
  have me: "thread_inv R (f ?s) (hs i) (Q ?s) (k ?s)"
    using Q D(4) by (simp add: thread_inv_def)
  have others: "thread_inv R (f ?s) (hs j) (Ps j) (cf_threads c ! j)"
    if j: "j < length (cf_threads c)" "j \<noteq> i" for j
  proof -
    note J = system_invD [OF inv j(1)]
    have "l \<notin> set (hs i)" if "l \<in> set (hs j)" for l
      using system_inv_owner [OF inv, of l j] system_inv_owner [OF inv, of l i] i j that by auto
    then have "Ps j (f ?s)"
      using Q(1) J(2,3,5) unfolding stable_def allowed_def by blast
    with J show ?thesis by (simp add: thread_inv_def)
  qed
  have "system_inv R (c\<lparr>cf_state := f ?s, cf_threads := (cf_threads c)[i := k ?s]\<rparr>) hs (Ps(i := Q ?s))"
    using inv me others Q(1) unfolding system_inv_def allowed_def by (auto simp: nth_list_update)
  with Q(1) show ?thesis by blast
qed

lemma lstep_inv:
  assumes "lstep c i c'" and "system_inv R c hs Ps"
  shows "\<exists>hs' Ps'. system_inv R c' hs' Ps'"
  using assms
proof (cases rule: lstep.cases)
  case (acquire l p)
  with acquire_inv [OF assms(2)] show ?thesis by blast
next
  case (release l p)
  with release_inv [OF assms(2)] show ?thesis by blast
next
  case (atomic f k)
  with atomic_inv [OF assms(2)] show ?thesis by blast
qed

text \<open>A thread that is not done can move, or somebody can, as long as no thread faulted: of the
  locks that threads wait for take the highest; its owner does not wait.\<close>

lemma lstep_progress:
  assumes inv: "system_inv R c hs Ps" and i: "i < length (cf_threads c)" "\<not> finished (cf_threads c ! i)"
    and ok: "\<forall>p\<in>set (cf_threads c). \<not> faulted p"
  shows "\<exists>j c'. lstep c j c'"
proof (rule ccontr)
  assume stuck: "\<nexists>j c'. lstep c j c'"
  let ?n = "length (cf_threads c)"
  have waits: "\<exists>l p j. cf_threads c ! m = Acquire l p \<and> cf_owner c l = Some j \<and>
      (\<forall>l'\<in>set (hs m). sp_rank R l' < sp_rank R l)"
    if m: "m < ?n" "\<not> finished (cf_threads c ! m)" for m
  proof (cases "cf_threads c ! m")
    case (Acquire l p)
    with stuck m(1) lstep.acquire [of m c l p] obtain j where "cf_owner c l = Some j"
      by (cases "cf_owner c l") auto
    moreover have "\<forall>l'\<in>set (hs m). sp_rank R l' < sp_rank R l"
      using system_invD(1) [OF inv m(1)] Acquire by (auto elim: safe_AcquireE)
    ultimately show ?thesis using Acquire by blast
  next
    case (Release l p)
    then have "cf_owner c l = Some m"
      using system_invD(1) [OF inv m(1)] system_inv_owner [OF inv, of l m] m(1) by (auto elim: safe_ReleaseE)
    with stuck m(1) Release lstep.release [of m c l p] show ?thesis by blast
  next
    case (Atomic f k)
    with stuck m(1) lstep.atomic [of m c f k] show ?thesis by blast
  next
    case (Faulted e)
    with ok m(1) nth_mem show ?thesis by fastforce
  qed (use m in simp)
  let ?W = "{sp_rank R l |l m p. m < ?n \<and> cf_threads c ! m = Acquire l p}"
  have "?W \<subseteq> (\<lambda>m. sp_rank R (case cf_threads c ! m of Acquire l p \<Rightarrow> l)) ` {..<?n}"
    by (force simp: image_iff)
  then have fin: "finite ?W" by (rule finite_subset) simp
  from waits [OF i] i(1) have "?W \<noteq> {}" by blast
  with fin obtain l m p where m: "m < ?n" "cf_threads c ! m = Acquire l p" "sp_rank R l = Max ?W"
    using Max_in by (smt (verit) mem_Collect_eq)
  then obtain j where j: "cf_owner c l = Some j" using waits [of m] by auto
  then have owner: "j < ?n" "l \<in> set (hs j)" using system_inv_owner [OF inv, of l j] by auto
  then have "\<not> finished (cf_threads c ! j)"
    using system_invD(1) [OF inv owner(1)] by (auto simp: finished_def elim!: safe_FinishedE)
  from waits [OF owner(1) this] owner(2) obtain l' p' where
    l': "cf_threads c ! j = Acquire l' p'" "sp_rank R l < sp_rank R l'"
    by blast
  then have "sp_rank R l' \<le> Max ?W" using owner(1) fin by (intro Max_ge) auto
  with l'(2) m(3) show False by simp
qed

subsection \<open>Systems of safe programs\<close>

locale lock_protocol =
  fixes R :: "('l, 's) lock_spec" and H :: "('l, 's) prog set"
  assumes calls_safe: "p \<in> H \<Longrightarrow> safe R [] (\<lambda>_. True) p"
    and same_refl: "sp_same R l s s"
    and guar_refl: "sp_guar R s s"
    and guar_trans: "sp_guar R s s1 \<Longrightarrow> sp_guar R s1 s2 \<Longrightarrow> sp_guar R s s2"
begin

lemma call_inv:
  assumes "lcall H c c'" and inv: "system_inv R c hs Ps"
  shows "\<exists>hs' Ps'. system_inv R c' hs' Ps'"
  using assms(1)
proof (cases rule: lcall.cases)
  case (call i r p)
  from system_invD(1) [OF inv call(2)] call(3) have "hs i = []" by (auto elim: safe_FinishedE)
  then have me: "thread_inv R (cf_state c) [] (\<lambda>_. True) p"
    and ow: "cf_owner c l = Some j \<longleftrightarrow> (if j = i then l \<in> set [] else cf_owner c l = Some j)" for l j
    using calls_safe [OF call(4)] system_inv_owner [OF inv, of l i] by (auto simp: thread_inv_def)
  show ?thesis using system_inv_update [OF inv call(2) me ow] call(1) by auto
qed

lemma reach_inv:
  "lreach H c0 c \<Longrightarrow> system_inv R c0 hs0 Ps0 \<Longrightarrow> \<exists>hs Ps. system_inv R c hs Ps"
proof (induction rule: lreach.induct)
  case (step c c1 i c2)
  then show ?case using lstep_inv by blast
next
  case (call c c1 c2)
  then show ?case using call_inv by blast
qed blast

lemma reachable:
  assumes "sp_inv R s" and "lreach H (idle_config s n) c"
  obtains hs Ps where "system_inv R c hs Ps"
  using reach_inv [OF assms(2) idle_system_inv [OF assms(1)]] by blast

lemma reachable_invariant:
  assumes "sp_inv R s" and "lreach H (idle_config s n) c"
  shows "sp_inv R (cf_state c)"
  using assms by (rule reachable) (simp add: system_inv_def)

lemma reachable_faults:
  assumes "sp_inv R s" and "lreach H (idle_config s n) c" and "Faulted e \<in> set (cf_threads c)"
  shows "e \<in> sp_faults R"
proof -
  obtain hs Ps where inv: "system_inv R c hs Ps" using assms(1,2) by (rule reachable)
  from assms(3) obtain i where "i < length (cf_threads c)" "cf_threads c ! i = Faulted e"
    by (auto simp: in_set_conv_nth)
  with system_invD(1) [OF inv, of i] show ?thesis by (auto elim: safe_FaultedE)
qed

text \<open>The guarantee holds from the start to every later state.\<close>

lemma reachable_guarantee:
  assumes "sp_inv R s" and "lreach H (idle_config s n) c"
  shows "sp_guar R s (cf_state c)"
proof -
  have "lreach H c0 c \<Longrightarrow> c0 = idle_config s n \<Longrightarrow> sp_guar R s (cf_state c)" for c0
  proof (induction rule: lreach.induct)
    case (step c c1 i c2)
    obtain hs Ps where inv: "system_inv R c1 hs Ps"
      using reach_inv [OF step.hyps(1)] idle_system_inv [OF assms(1)] step.prems by blast
    have "sp_guar R (cf_state c1) (cf_state c2)"
      using step.hyps(2)
    proof (cases rule: lstep.cases)
      case (atomic f k)
      with atomic_inv [OF inv atomic(2,3)] show ?thesis by (simp add: allowed_def)
    qed (simp_all add: guar_refl)
    with step.IH step.prems show ?case by (blast intro: guar_trans)
  next
    case (call c c1 c2)
    then have "cf_state c2 = cf_state c1" by (auto elim: lcall.cases)
    with call show ?case by simp
  qed (simp add: idle_config_def guar_refl)
  with assms(2) show ?thesis by blast
qed

text \<open>What a lock protects is left alone by everybody but its owner.\<close>

lemma reachable_exclusion:
  assumes "sp_inv R s" and "lreach H (idle_config s n) c" and "lstep c j c'"
    and "cf_owner c l \<noteq> Some j"
  shows "sp_same R l (cf_state c) (cf_state c')"
proof -
  obtain hs Ps where inv: "system_inv R c hs Ps" using assms(1,2) by (rule reachable)
  from assms(3) show ?thesis
  proof (cases rule: lstep.cases)
    case (atomic f k)
    with system_inv_owner [OF inv, of l j] assms(4) atomic_inv [OF inv atomic(2,3)] show ?thesis
      by (simp add: allowed_def)
  qed (simp_all add: same_refl)
qed

text \<open>A call in an idle system returns what it returns alone.\<close>

lemma call_alone:
  assumes "p \<in> H" and "sp_inv R s" and "i < length ts" and "ts ! i = p"
  shows "ends_as \<lparr>cf_state = s, cf_owner = (\<lambda>_. None), cf_threads = ts\<rparr> i ts (run_alone p s)"
  using safe_ends_as [OF calls_safe [OF assms(1)] assms(2)] assms(3,4) by simp

lemma reachable_progress:
  assumes "sp_inv R s" and "lreach H (idle_config s n) c" and "i < length (cf_threads c)"
    and "\<not> finished (cf_threads c ! i)" and "\<forall>p\<in>set (cf_threads c). \<not> faulted p"
  shows "\<exists>j c'. lstep c j c'"
proof -
  obtain hs Ps where inv: "system_inv R c hs Ps" using assms(1,2) by (rule reachable)
  then show ?thesis using assms(3-5) by (rule lstep_progress)
qed

text \<open>Whatever the scheduler does, it ends, and then every thread is done, unless one
  faulted.\<close>

lemma reachable_completes:
  assumes "sp_inv R s" and "lreach H (idle_config s n) c"
  shows "\<exists>c'. (\<lambda>c c'. \<exists>i. lstep c i c')\<^sup>*\<^sup>* c c' \<and>
    ((\<forall>p\<in>set (cf_threads c'). finished p) \<or> (\<exists>p\<in>set (cf_threads c'). faulted p))"
  using wf_lstep assms(2)
proof (induction c rule: wf_induct_rule)
  case (less c)
  show ?case
  proof (cases "(\<forall>p\<in>set (cf_threads c). finished p) \<or> (\<exists>p\<in>set (cf_threads c). faulted p)")
    case True
    then show ?thesis by blast
  next
    case False
    then obtain i where "i < length (cf_threads c)" "\<not> finished (cf_threads c ! i)"
      by (auto simp: in_set_conv_nth)
    with reachable_progress [OF assms(1) less.prems] False obtain j c1 where j: "lstep c j c1" by blast
    with less.IH [of c1] lreach.step [OF less.prems j] obtain c' where
      "(\<lambda>c c'. \<exists>i. lstep c i c')\<^sup>*\<^sup>* c1 c'"
      "(\<forall>p\<in>set (cf_threads c'). finished p) \<or> (\<exists>p\<in>set (cf_threads c'). faulted p)"
      by blast
    moreover have "(\<lambda>c c'. \<exists>i. lstep c i c') c c1" using j by blast
    ultimately show ?thesis
      using converse_rtranclp_into_rtranclp [of "\<lambda>c c'. \<exists>i. lstep c i c'" c c1 c'] by blast
  qed
qed

end

end
