(* ===== verification/Device_Programs.thy ===== *)
theory Device_Programs
  imports Lock_Programs Proxy_Runs Pending_Race
begin

text \<open>
  The entry points of the proxy module as programs over its three mutexes: \<open>cdev_mutex\<close>
  (\<open>cdev.c\<close>), \<open>ks_mutex\<close> and \<open>table_mutex\<close> (\<open>lxc-uio-proxy.c\<close>). A program takes and
  releases a mutex where the C function does; the code between two such points is one action.
  Run alone, the programs are the handlers of \<open>Char_Device\<close>; run by several threads, they
  interleave at every point where the kernel may switch between them.

  The table carries the address of its block, as in \<open>Pending_Race\<close>, so that a pointer popped
  before \<open>krealloc\<close> moved the block and read afterwards is a use after free. The answer of
  \<open>krealloc\<close> depends on the table it is called for, which with several threads is known only
  at the call, so it is a function of the table. \<open>dv_copies\<close> counts the copies of entries that
  \<open>table_get_copy\<close> has allocated and nobody has freed yet.
\<close>

subsection \<open>Programs\<close>

datatype mutex = CdevMutex | KsMutex | TableMutex

record 'e dev =
  dv_proxy :: "'e proxy"
  dv_base :: u64
  dv_mem :: umem
  dv_copies :: nat

type_synonym 'e dprog = "(mutex, 'e dev) prog"

text \<open>The table with the address of its block.\<close>

definition dev_table :: "'e dev \<Rightarrow> ltable" where
  "dev_table s = \<lparr>lt_table = ptable (dv_proxy s), lt_base = dv_base s\<rparr>"

definition set_table :: "ltable \<Rightarrow> 'e dev \<Rightarrow> 'e dev" where
  "set_table t s = s\<lparr>dv_proxy := (dv_proxy s)\<lparr>ptable := lt_table t\<rparr>, dv_base := lt_base t\<rparr>"

text \<open>An operation on the table under \<open>table_mutex\<close>.\<close>

definition with_table :: "(ltable \<Rightarrow> ('a \<times> ltable) exec) \<Rightarrow> ('a \<Rightarrow> 'e dprog) \<Rightarrow> 'e dprog" where
  "with_table f k =
     Acquire TableMutex (atomic (\<lambda>s.
       exec_bind (f (dev_table s)) (\<lambda>(x, t). Ret (set_table t s, Release TableMutex (k x)))))"

definition table_put_prog ::
    "(ltable \<Rightarrow> (nat \<Rightarrow> module_table_struct) option \<times> u64) \<Rightarrow> module_table_struct \<Rightarrow> (int \<Rightarrow> 'e dprog) \<Rightarrow>
     'e dprog" where
  "table_put_prog kr mt = with_table (\<lambda>t. locked_put (kr t) mt t)"

definition table_pop_prog :: "((u64 \<times> int) option \<Rightarrow> 'e dprog) \<Rightarrow> 'e dprog" where
  "table_pop_prog = with_table (\<lambda>t. Ret (locked_pop t))"

definition table_pop_reverse_prog :: "(int \<Rightarrow> 'e dprog) \<Rightarrow> 'e dprog" where
  "table_pop_reverse_prog =
     with_table (\<lambda>t. case table_pop_reverse (lt_table t) of (r, t') \<Rightarrow> Ret (r, t\<lparr>lt_table := t'\<rparr>))"

definition table_peek_prog :: "(mt_ptr \<Rightarrow> 'e dprog) \<Rightarrow> 'e dprog" where
  "table_peek_prog = with_table (\<lambda>t. Ret (table_peek (lt_table t), t))"

text \<open>\<open>kmalloc\<close> is called before the mutex is taken. A copy is freed with \<open>kfree\<close>.\<close>

definition table_get_copy_prog ::
    "module_table_struct option \<Rightarrow> u128 \<Rightarrow> (module_table_struct option \<Rightarrow> 'e dprog) \<Rightarrow> 'e dprog" where
  "table_get_copy_prog km u k =
     (if km = None then k None
      else atomic (\<lambda>s. Ret (s\<lparr>dv_copies := dv_copies s + 1\<rparr>, with_table (\<lambda>t. exec_bind (table_get_copy km u (lt_table t)) (\<lambda>x. Ret (x, t))) k)))"

definition kfree_copy :: "'e dev \<Rightarrow> 'e dev" where
  "kfree_copy s = s\<lparr>dv_copies := dv_copies s - 1\<rparr>"

definition register_prog :: "'e kservices \<Rightarrow> u64 \<Rightarrow> 'e dprog" where
  "register_prog sv param =
     Acquire KsMutex (atomic (\<lambda>s.
       case ioctl_register sv param (dv_proxy s) of (r, px) \<Rightarrow>
         Ret (s\<lparr>dv_proxy := px\<rparr>, Release KsMutex (Finished r))))"

definition de_register_prog :: "'e dprog" where
  "de_register_prog =
     Acquire KsMutex (atomic (\<lambda>s.
       case ioctl_de_register (dv_proxy s) of (r, px) \<Rightarrow>
         Ret (s\<lparr>dv_proxy := px\<rparr>, Release KsMutex (Finished r))))"

definition get_pending_prog :: "'e kservices \<Rightarrow> u64 \<Rightarrow> 'e dprog" where
  "get_pending_prog sv param =
     table_pop_prog (\<lambda>mt.
       if mt = None then Finished 0
       else atomic (\<lambda>s.
         exec_bind (unlocked_read (dev_table s) mt) (\<lambda>x.
           case copy_to_user sv (dv_mem s) param (enc_u128 (mt_uuid x)) of (n, m') \<Rightarrow>
             Ret (s\<lparr>dv_mem := m'\<rparr>,
               if n = 0 then Finished 1 else table_pop_reverse_prog (\<lambda>_. Finished (- int n))))))"

text \<open>A request that looks a module up and answers with bytes of it.\<close>

definition lookup_prog :: "'e kservices \<Rightarrow> (kmodule \<Rightarrow> u8 list) \<Rightarrow> u64 \<Rightarrow> 'e dprog" where
  "lookup_prog sv answer ptr =
     atomic (\<lambda>s.
       case copy_from_user sv (dv_mem s) ptr 16 of (n, bs) \<Rightarrow>
         Ret (s, if n = 0 then
           table_get_copy_prog (kmalloc_mts sv) (dec_u128 bs) (\<lambda>entry.
             case entry of
               None \<Rightarrow> Finished (-1)
             | Some e \<Rightarrow> atomic (\<lambda>s.
                 exec_bind (mod_deref (dv_proxy s) (mt_module e)) (\<lambda>md.
                   case copy_to_user sv (dv_mem s) ptr (answer md) of (n', m') \<Rightarrow>
                     Ret (kfree_copy (s\<lparr>dv_mem := m'\<rparr>), Finished (- int n')))))
         else Finished (- int n)))"

definition get_uuid_size_prog :: "'e kservices \<Rightarrow> u64 \<Rightarrow> 'e dprog" where
  "get_uuid_size_prog sv =
     lookup_prog sv (\<lambda>md. enc_u32 (ml_size (mod_core_layout md) + ml_size (mod_init_layout md)))"

definition get_layout_prog :: "'e kservices \<Rightarrow> layout_req \<Rightarrow> u64 \<Rightarrow> 'e dprog" where
  "get_layout_prog sv which =
     lookup_prog sv (\<lambda>md. enc_layout (case which of InitLayout \<Rightarrow> mod_init_layout md
                                                  | CoreLayout \<Rightarrow> mod_core_layout md))"

definition ioctl_prog :: "'e kservices \<Rightarrow> u32 \<Rightarrow> u64 \<Rightarrow> 'e dprog" where
  "ioctl_prog sv num param =
     atomic (\<lambda>s. Ret (s,
       let major = lxc_uio_cdev_major_number (dv_proxy s) in
       if num = kvm_host_server_register major then register_prog sv param
       else if num = kvm_host_server_de_register major then de_register_prog
       else if num = kvm_host_server_get_pending_module major then get_pending_prog sv param
       else if num = kvm_host_server_get_uuid_size major then get_uuid_size_prog sv param
       else if num = kvm_host_server_get_init_layout major then get_layout_prog sv InitLayout param
       else if num = kvm_host_server_get_core_layout major then get_layout_prog sv CoreLayout param
       else Finished (-1)))"

definition process_packet_prog :: "'e kservices \<Rightarrow> packet \<Rightarrow> (int \<Rightarrow> 'e dprog) \<Rightarrow> 'e dprog" where
  "process_packet_prog sv packet1 k =
     table_get_copy_prog (kmalloc_mts sv) (pk_uuid packet1) (\<lambda>mts.
       case mts of
         None \<Rightarrow> Faulted NullDeref
       | Some e \<Rightarrow> atomic (\<lambda>s.
           exec_bind (mod_deref (dv_proxy s) (mt_module e)) (\<lambda>md.
             case copy_to_user sv (dv_mem s) (userspace_addr (region_core (pk_memory packet1)))
                    (umem_read (kmem (dv_proxy s)) (ml_base (mod_core_layout md))
                       (unat (ml_size (mod_core_layout md)))) of (n, m') \<Rightarrow>
               Ret (s\<lparr>dv_mem := m'\<rparr>,
                 let ret_val = s32 (int n) in k (if ret_val = 0 then 0 else s32 (ret_val * -1))))))"

definition write_prog :: "'e kservices \<Rightarrow> u64 \<Rightarrow> 'e dprog" where
  "write_prog sv buff =
     Acquire CdevMutex (atomic (\<lambda>s.
       case copy_from_user sv (dv_mem s) buff sizeof_packet of (n, bs) \<Rightarrow>
         Ret (s, Release CdevMutex (
           if n = 0 then process_packet_prog sv (dec_packet bs) (\<lambda>r.
             Finished (if r = 0 then int sizeof_packet else -1))
           else Finished (-1)))))"

text \<open>\<open>ks\<close> is read again after \<open>table_peek\<close>.\<close>

definition send_event_prog :: "'e kservices \<Rightarrow> (int \<Rightarrow> 'e dprog) \<Rightarrow> 'e dprog" where
  "send_event_prog sv k =
     Acquire KsMutex (atomic (\<lambda>s. Ret (s,
       if ks (dv_proxy s) = None then Release KsMutex (k 0)
       else table_peek_prog (\<lambda>ptr.
         if ptr = MtNull then Release KsMutex (k (-1))
         else atomic (\<lambda>s.
           case ks (dv_proxy s) of
             None \<Rightarrow> Crash NullDeref
           | Some sr \<Rightarrow>
               exec_bind (eventfd_ctx_fileget sv (ks_fp sr)) (\<lambda>r.
                 case r of
                   EfdNull \<Rightarrow> Ret (s, Release KsMutex (k (-1)))
                 | EfdErrPtr \<Rightarrow> Crash BadPointer
                 | EfdCtx c \<Rightarrow>
                     Ret (s\<lparr>dv_proxy := (dv_proxy s)\<lparr>efds :=
                            (efds (dv_proxy s))(c := eventfd_signal sv (efds (dv_proxy s) c))\<rparr>\<rparr>,
                          Release KsMutex (k 0))))))))"

definition put_module_prog ::
    "'e kservices \<Rightarrow> (ltable \<Rightarrow> (nat \<Rightarrow> module_table_struct) option \<times> u64) \<Rightarrow> u128 \<Rightarrow> u64 \<Rightarrow> u64 \<Rightarrow> 'e dprog" where
  "put_module_prog sv kr u nsproxy module =
     table_put_prog kr \<lparr>mt_uuid = u, mt_nsproxy = nsproxy, mt_module = module\<rparr> (\<lambda>ret_val.
       atomic (\<lambda>s.
         exec_bind (mod_deref (dv_proxy s) module) (\<lambda>_.
           Ret (s, if ret_val = 0 then send_event_prog sv (\<lambda>_. Finished ret_val) else Finished ret_val))))"

text \<open>\<open>cdev_open\<close> and \<open>cdev_release\<close>.\<close>

definition open_prog :: "'e dprog" where
  "open_prog = Acquire CdevMutex (Release CdevMutex (Finished 0))"

lemmas device_prog_defs =
  table_put_prog_def table_pop_prog_def table_pop_reverse_prog_def table_peek_prog_def
  table_get_copy_prog_def register_prog_def de_register_prog_def get_pending_prog_def lookup_prog_def
  get_uuid_size_prog_def get_layout_prog_def ioctl_prog_def process_packet_prog_def write_prog_def
  send_event_prog_def put_module_prog_def open_prog_def

subsection \<open>The programs run alone\<close>

lemma dev_table_fields [simp]:
  "lt_table (dev_table s) = ptable (dv_proxy s)" "lt_base (dev_table s) = dv_base s"
  "dv_proxy (set_table t s) = (dv_proxy s)\<lparr>ptable := lt_table t\<rparr>" "dv_mem (set_table t s) = dv_mem s"
  "dv_base (set_table t s) = lt_base t" "set_table (dev_table s) s = s"
  by (simp_all add: dev_table_def set_table_def)

lemma with_table_alone [simp]:
  "run_alone (with_table f k) s =
     exec_bind (f (dev_table s)) (\<lambda>(x, t). run_alone (k x) (set_table t s))"
  by (simp add: with_table_def exec_bind_assoc case_prod_unfold)

lemma get_copy_alone [simp]:
  "run_alone (table_get_copy_prog km u k) s =
     exec_bind (table_get_copy km u (ptable (dv_proxy s))) (\<lambda>x.
       run_alone (k x) (if km = None then s else s\<lparr>dv_copies := dv_copies s + 1\<rparr>))"
proof -
  let ?s = "s\<lparr>dv_copies := dv_copies s + 1\<rparr>"
  have "dev_table ?s = dev_table s" by (simp add: dev_table_def)
  moreover have "set_table (dev_table s) ?s = ?s" by (simp add: set_table_def dev_table_def)
  ultimately show ?thesis
    by (cases km) (simp_all add: table_get_copy_prog_def exec_bind_assoc table_get_copy_def)
qed

lemma kfree_copy_fields [simp]:
  "dv_proxy (kfree_copy s) = dv_proxy s" "dv_mem (kfree_copy s) = dv_mem s"
  "dv_base (kfree_copy s) = dv_base s" "dev_table (kfree_copy s) = dev_table s"
  "dv_copies (kfree_copy s) = dv_copies s - 1"
  by (simp_all add: kfree_copy_def dev_table_def)

text \<open>What a handler of \<open>Char_Device\<close> returns: the value, the memory and the proxy.\<close>

definition dev_view :: "(int \<times> 'e dev) exec \<Rightarrow> (int \<times> umem \<times> 'e proxy) exec" where
  "dev_view x = exec_bind x (\<lambda>(r, s). Ret (r, dv_mem s, dv_proxy s))"

lemma dev_view_simps [simp]:
  "dev_view (Ret (r, s)) = Ret (r, dv_mem s, dv_proxy s)" "dev_view (Crash e) = Crash e"
  "dev_view (exec_bind m g) = exec_bind m (\<lambda>x. dev_view (g x))"
  by (simp_all add: dev_view_def exec_bind_assoc)

lemma register_alone:
  "dev_view (run_alone (register_prog sv param) s) =
     (case ioctl_register sv param (dv_proxy s) of (r, px) \<Rightarrow> Ret (r, dv_mem s, px))"
  by (simp add: register_prog_def split: prod.split)

lemma de_register_alone:
  "dev_view (run_alone de_register_prog s) =
     (case ioctl_de_register (dv_proxy s) of (r, px) \<Rightarrow> Ret (r, dv_mem s, px))"
  by (simp add: de_register_prog_def split: prod.split)

lemma get_pending_alone:
  "dev_view (run_alone (get_pending_prog sv param) s) =
     ioctl_get_pending_module sv param (dv_mem s) (dv_proxy s)"
proof (cases "table_pop (ptable (dv_proxy s))")
  case (Pair mt t1)
  show ?thesis
  proof (cases mt)
    case (MtSlot i)
    let ?x = "mt_deref t1 (MtSlot i)"
    show ?thesis
    proof (cases ?x)
      case (Ret x)
      obtain n m' where "copy_to_user sv (dv_mem s) param (enc_u128 (mt_uuid x)) = (n, m')" by fastforce
      with Pair MtSlot Ret show ?thesis
        by (auto simp: get_pending_prog_def table_pop_prog_def table_pop_reverse_prog_def locked_pop_def
            unlocked_read_def ioctl_get_pending_module_def split: prod.split)
    qed (simp add: Pair MtSlot get_pending_prog_def table_pop_prog_def locked_pop_def unlocked_read_def
        ioctl_get_pending_module_def)
  qed (simp add: Pair get_pending_prog_def table_pop_prog_def locked_pop_def ioctl_get_pending_module_def)
qed

lemma lookup_alone:
  "dev_view (run_alone (lookup_prog sv answer ptr) s) =
     (case copy_from_user sv (dv_mem s) ptr 16 of (n, bs) \<Rightarrow>
        if n = 0 then
          exec_bind (table_get_copy (kmalloc_mts sv) (dec_u128 bs) (ptable (dv_proxy s))) (\<lambda>entry.
            case entry of
              None \<Rightarrow> Ret (-1, dv_mem s, dv_proxy s)
            | Some e \<Rightarrow>
                exec_bind (mod_deref (dv_proxy s) (mt_module e)) (\<lambda>md.
                  case copy_to_user sv (dv_mem s) ptr (answer md) of (n', m') \<Rightarrow>
                    Ret (- int n', m', dv_proxy s)))
        else Ret (- int n, dv_mem s, dv_proxy s))"
  by (auto simp: lookup_prog_def exec_bind_assoc split: prod.split option.split intro!: exec_bind_cong)

lemma negated: "(if n \<noteq> 0 then Ret (- int n, y) else Ret (0, y)) = Ret (- int n, y)"
  by simp

lemma get_uuid_size_alone:
  "dev_view (run_alone (get_uuid_size_prog sv ptr) s) = ioctl_get_uuid_size sv ptr (dv_mem s) (dv_proxy s)"
  unfolding get_uuid_size_prog_def lookup_alone ioctl_get_uuid_size_def Let_def negated ..

lemma get_layout_alone:
  "dev_view (run_alone (get_layout_prog sv which ptr) s) = ioctl_get_layout sv which ptr (dv_mem s) (dv_proxy s)"
  unfolding get_layout_prog_def lookup_alone ioctl_get_layout_def Let_def negated ..

lemma ioctl_alone:
  "dev_view (run_alone (ioctl_prog sv num param) s) = cdev_ioctl sv num param (dv_mem s) (dv_proxy s)"
  by (auto simp: ioctl_prog_def cdev_ioctl_def Let_def register_alone de_register_alone get_pending_alone
      get_uuid_size_alone get_layout_alone)

lemma packet_alone:
  "run_alone (process_packet_prog sv pk k) s =
     exec_bind (process_packet sv pk (dv_mem s) (dv_proxy s)) (\<lambda>(r, m).
       run_alone (k r) (s\<lparr>dv_copies := dv_copies s + 1, dv_mem := m\<rparr>))"
proof (cases "kmalloc_mts sv")
  case None
  then show ?thesis by (simp add: process_packet_prog_def process_packet_def table_get_copy_def)
next
  case (Some g)
  then show ?thesis
    by (auto simp: process_packet_prog_def process_packet_def exec_bind_assoc Let_def
        split: prod.split option.split intro!: exec_bind_cong)
qed

lemma write_alone:
  "dev_view (run_alone (write_prog sv buff) s) =
     exec_bind (cdev_write sv buff count (dv_mem s) (dv_proxy s)) (\<lambda>(r, m). Ret (r, m, dv_proxy s))"
  by (auto simp: write_prog_def cdev_write_def exec_bind_assoc packet_alone
      split: prod.split intro!: exec_bind_cong)

lemma send_event_alone:
  "run_alone (send_event_prog sv k) s =
     exec_bind (send_event sv (dv_proxy s)) (\<lambda>(r, px). run_alone (k r) (s\<lparr>dv_proxy := px\<rparr>))"
  by (auto simp: send_event_prog_def send_event_def table_peek_prog_def exec_bind_assoc
      split: option.split efd_res.split intro!: exec_bind_cong)

lemma send_event_krealloc: "send_event (sv\<lparr>krealloc_mt := x\<rparr>) = send_event sv"
  by (intro ext) (auto simp: send_event_def split: option.split efd_res.split intro!: exec_bind_cong)

lemma put_module_alone:
  "dev_view (run_alone (put_module_prog sv kr u ns md) s) =
     exec_bind (lxc_uio_proxy_put_module_1 (sv\<lparr>krealloc_mt := fst (kr (dev_table s))\<rparr>) u ns md (dv_proxy s))
       (\<lambda>(r, px). Ret (r, dv_mem s, px))"
  by (auto simp: put_module_prog_def lxc_uio_proxy_put_module_1_def table_put_prog_def locked_put_def
      exec_bind_assoc send_event_alone send_event_krealloc split: prod.split intro!: exec_bind_cong)

subsection \<open>Copies of entries\<close>

lemma with_table_copies:
  assumes "run_alone (with_table f k) s = Ret (r, s')"
    and "\<And>x s1. dv_copies s1 = dv_copies s \<Longrightarrow> run_alone (k x) s1 = Ret (r, s') \<Longrightarrow> dv_copies s' = dv_copies s1"
  shows "dv_copies s' = dv_copies s"
proof -
  from assms(1) obtain x t where "run_alone (k x) (set_table t s) = Ret (r, s')"
    by (auto simp: exec_bind_eq_Ret_iff)
  with assms(2) [of "set_table t s" x] show ?thesis by (simp add: set_table_def)
qed

lemma get_pending_copies:
  assumes "run_alone (get_pending_prog sv param) s = Ret (r, s')"
  shows "dv_copies s' = dv_copies s"
  using assms unfolding get_pending_prog_def table_pop_prog_def
proof (rule with_table_copies)
  fix p and s1 :: "'a dev"
  assume "run_alone (if p = None then Finished 0 else atomic (\<lambda>s.
      exec_bind (unlocked_read (dev_table s) p) (\<lambda>x.
        case copy_to_user sv (dv_mem s) param (enc_u128 (mt_uuid x)) of (n, m') \<Rightarrow>
          Ret (s\<lparr>dv_mem := m'\<rparr>,
            if n = 0 then Finished 1 else table_pop_reverse_prog (\<lambda>_. Finished (- int n)))))) s1 = Ret (r, s')"
  then show "dv_copies s' = dv_copies s1"
    by (auto simp: exec_bind_eq_Ret_iff table_pop_reverse_prog_def set_table_def case_prod_unfold split: if_splits)
qed

lemma lookup_reply_copies:
  assumes "run_alone (atomic (\<lambda>s. exec_bind (mod_deref (dv_proxy s) a) (\<lambda>md.
      case copy_to_user sv (dv_mem s) ptr (answer md) of (n', m') \<Rightarrow>
        Ret (kfree_copy (s\<lparr>dv_mem := m'\<rparr>), Finished (- int n'))))) s = Ret (r, s')"
  shows "dv_copies s' = dv_copies s - 1"
proof -
  from assms obtain md where "(case copy_to_user sv (dv_mem s) ptr (answer md) of (n', m') \<Rightarrow>
        Ret (- int n', kfree_copy (s\<lparr>dv_mem := m'\<rparr>))) = Ret (r, s')"
    by (auto simp: exec_bind_eq_Ret_iff case_prod_unfold)
  then show ?thesis by (auto split: prod.splits)
qed

lemma lookup_copies:
  fixes s s' :: "'a dev"
  assumes "run_alone (lookup_prog sv answer ptr) s = Ret (r, s')"
  shows "dv_copies s' = dv_copies s"
proof -
  obtain n bs where c: "copy_from_user sv (dv_mem s) ptr 16 = (n, bs)" by fastforce
  show ?thesis
  proof (cases "n = 0 \<and> kmalloc_mts sv \<noteq> None")
    case True
    let ?k = "\<lambda>e. case e of None \<Rightarrow> Finished (-1) :: 'a dprog
      | Some e \<Rightarrow> atomic (\<lambda>s. exec_bind (mod_deref (dv_proxy s) (mt_module e)) (\<lambda>md.
          case copy_to_user sv (dv_mem s) ptr (answer md) of (n', m') \<Rightarrow>
            Ret (kfree_copy (s\<lparr>dv_mem := m'\<rparr>), Finished (- int n'))))"
    have "\<exists>e. table_get_copy (kmalloc_mts sv) (dec_u128 bs) (ptable (dv_proxy s)) = Ret e \<and>
        run_alone (?k e) (s\<lparr>dv_copies := dv_copies s + 1\<rparr>) = Ret (r, s')"
      using assms c True by (simp add: lookup_prog_def exec_bind_eq_Ret_iff)
    then obtain e where e: "table_get_copy (kmalloc_mts sv) (dec_u128 bs) (ptable (dv_proxy s)) = Ret e"
        "run_alone (?k e) (s\<lparr>dv_copies := dv_copies s + 1\<rparr>) = Ret (r, s')"
      by blast
    moreover from e(1) True obtain x where "e = Some x"
      by (auto simp: table_get_copy_def exec_bind_eq_Ret_iff)
    ultimately have "run_alone (?k (Some x)) (s\<lparr>dv_copies := dv_copies s + 1\<rparr>) = Ret (r, s')" by simp
    from lookup_reply_copies [OF this [unfolded option.case]] show ?thesis by simp
  next
    case False
    with assms c show ?thesis by (cases "n = 0") (simp_all add: lookup_prog_def table_get_copy_def)
  qed
qed

lemma ioctl_copies:
  assumes "run_alone (ioctl_prog sv num param) s = Ret (r, s')"
  shows "dv_copies s' = dv_copies s"
  using assms
  by (auto simp: ioctl_prog_def Let_def register_prog_def de_register_prog_def get_uuid_size_prog_def
      get_layout_prog_def split: if_splits prod.splits dest: lookup_copies get_pending_copies)

lemma write_copies:
  assumes "run_alone (write_prog sv buff) s = Ret (r, s')" and "kmalloc_mts sv \<noteq> None"
    and "copy_from_user sv (dv_mem s) buff sizeof_packet = (n, bs)"
  shows "dv_copies s' = dv_copies s + (if n = 0 then 1 else 0)"
  using assms by (auto simp: write_prog_def packet_alone exec_bind_eq_Ret_iff split: if_splits)

subsection \<open>A fault while a mutex is held\<close>

lemma with_table_run:
  assumes "f (dev_table s) = Ret (x, t)" and "ow TableMutex = None"
  shows "lsched \<lparr>cf_state = s, cf_owner = ow, cf_threads = with_table f k # ps\<rparr> (0 # 0 # 0 # is) =
    lsched \<lparr>cf_state = set_table t s, cf_owner = ow, cf_threads = k x # ps\<rparr> is"
proof -
  have "ow(TableMutex := None) = ow" using assms(2) by (simp add: fun_upd_idem)
  with assms show ?thesis
    by (simp add: with_table_def sched_Acquire sched_atomic sched_Release del: lsched.simps)
qed

text \<open>A signal to a file that faults, sent by the first thread: it dies with \<open>ks_mutex\<close> in hand.\<close>

lemma send_event_fault_run:
  assumes "ks (dv_proxy s) = Some sr" and "eventfd_ctx_fileget sv (ks_fp sr) = Crash e"
    and "table_peek (ptable (dv_proxy s)) \<noteq> MtNull"
  shows "lsched \<lparr>cf_state = s, cf_owner = (\<lambda>_. None), cf_threads = send_event_prog sv k # ps\<rparr>
      (0 # 0 # 0 # 0 # 0 # 0 # is) =
    lsched \<lparr>cf_state = s, cf_owner = (\<lambda>_. None)(KsMutex \<mapsto> 0), cf_threads = Faulted e # ps\<rparr> is"
proof -
  let ?ow = "(\<lambda>_. None)(KsMutex \<mapsto> 0) :: mutex \<Rightarrow> nat option"
  let ?signal = "\<lambda>s. case ks (dv_proxy s) of
           None \<Rightarrow> Crash NullDeref
         | Some sr \<Rightarrow>
             exec_bind (eventfd_ctx_fileget sv (ks_fp sr)) (\<lambda>r.
               case r of
                 EfdNull \<Rightarrow> Ret (s, Release KsMutex (k (-1)))
               | EfdErrPtr \<Rightarrow> Crash BadPointer
               | EfdCtx c \<Rightarrow>
                   Ret (s\<lparr>dv_proxy := (dv_proxy s)\<lparr>efds :=
                          (efds (dv_proxy s))(c := eventfd_signal sv (efds (dv_proxy s) c))\<rparr>\<rparr>,
                        Release KsMutex (k 0)))"
  let ?rest = "\<lambda>ptr. if ptr = MtNull then Release KsMutex (k (-1)) else atomic ?signal"
  let ?go = "atomic (\<lambda>s. Ret (s,
      if ks (dv_proxy s) = None then Release KsMutex (k 0) else table_peek_prog ?rest))"
  have "lsched \<lparr>cf_state = s, cf_owner = (\<lambda>_. None), cf_threads = send_event_prog sv k # ps\<rparr>
      (0 # 0 # 0 # 0 # 0 # 0 # is) =
    lsched \<lparr>cf_state = s, cf_owner = ?ow, cf_threads = ?go # ps\<rparr> (0 # 0 # 0 # 0 # 0 # is)"
    unfolding send_event_prog_def by (rule sched_Acquire) simp
  also have "\<dots> = lsched \<lparr>cf_state = s, cf_owner = ?ow, cf_threads = table_peek_prog ?rest # ps\<rparr> (0 # 0 # 0 # 0 # is)"
    by (rule sched_atomic) (simp add: assms(1))
  also have "\<dots> = lsched \<lparr>cf_state = set_table (dev_table s) s, cf_owner = ?ow,
      cf_threads = ?rest (table_peek (ptable (dv_proxy s))) # ps\<rparr> (0 # is)"
    unfolding table_peek_prog_def by (rule with_table_run) simp_all
  also have "\<dots> = lsched \<lparr>cf_state = s, cf_owner = ?ow, cf_threads = atomic ?signal # ps\<rparr> (0 # is)"
    using assms(3) by simp
  also have "\<dots> = lsched \<lparr>cf_state = s, cf_owner = ?ow, cf_threads = Faulted e # ps\<rparr> is"
    by (rule sched_fault) (simp add: assms(1,2))
  finally show ?thesis .
qed

text \<open>The steps of an insertion whose \<open>eventfd_ctx_fileget\<close> faults, and where it leaves the
  mutexes.\<close>

lemma insertion_fault_run:
  assumes "mt_inv (ptable (dv_proxy s))" and "lt_put_ok (kr (dev_table s)) (dev_table s)"
    and "kmodules (dv_proxy s) md = Some km" and "ks (dv_proxy s) = Some sr"
    and "eventfd_ctx_fileget sv (ks_fp sr) = Crash e"
  obtains c where "lsched \<lparr>cf_state = s, cf_owner = (\<lambda>_. None), cf_threads = put_module_prog sv kr u ns md # ps\<rparr>
      (replicate 10 0) = Some c" "0 < length (cf_threads c)" "cf_threads c ! 0 = Faulted e"
    "cf_owner c KsMutex = Some 0"
proof -
  let ?mt = "\<lparr>mt_uuid = u, mt_nsproxy = ns, mt_module = md\<rparr>"
  obtain t' where t': "table_put (fst (kr (dev_table s))) ?mt (ptable (dv_proxy s)) = Ret (0, t')" "mt_inv t'"
      "mt_pending t' = mt_pending (ptable (dv_proxy s)) @ [?mt]"
    by (rule mt_pending_put [of "ptable (dv_proxy s)" "fst (kr (dev_table s))" ?mt])
      (use assms(1,2) in \<open>simp_all add: lt_put_ok_def\<close>)
  then obtain t where t: "locked_put (kr (dev_table s)) ?mt (dev_table s) = Ret (0, t)" "lt_table t = t'"
    by (simp add: locked_put_def)
  with t'(2,3) have "mt_inv (lt_table t)" "mt_pending (lt_table t) = mt_pending (ptable (dv_proxy s)) @ [?mt]"
    by simp_all
  then have "table_peek (lt_table t) \<noteq> MtNull" by (simp add: table_peek_null_iff)
  then have peek: "table_peek (ptable (dv_proxy (set_table t s))) \<noteq> MtNull" by simp
  let ?k = "\<lambda>ret_val. atomic (\<lambda>s. exec_bind (mod_deref (dv_proxy s) md) (\<lambda>_.
           Ret (s, if ret_val = 0 then send_event_prog sv (\<lambda>_. Finished ret_val) else Finished ret_val)))"
  let ?s = "set_table t s"
  have ks: "ks (dv_proxy ?s) = Some sr" using assms(4) by simp
  let ?c = "\<lambda>s p. \<lparr>cf_state = s, cf_owner = (\<lambda>_. None), cf_threads = p # ps\<rparr>"
  have "lsched (?c s (put_module_prog sv kr u ns md)) (0 # 0 # 0 # 0 # 0 # 0 # 0 # 0 # 0 # 0 # []) =
      lsched (?c ?s (?k 0)) (0 # 0 # 0 # 0 # 0 # 0 # 0 # [])"
    unfolding put_module_prog_def table_put_prog_def by (rule with_table_run) (use t(1) in simp_all)
  also have "\<dots> = lsched (?c ?s (send_event_prog sv (\<lambda>_. Finished 0))) (0 # 0 # 0 # 0 # 0 # 0 # [])"
    by (rule sched_atomic) (simp add: mod_deref_def assms(3))
  also have "\<dots> = Some \<lparr>cf_state = ?s, cf_owner = (\<lambda>_. None)(KsMutex \<mapsto> 0), cf_threads = Faulted e # ps\<rparr>"
    unfolding send_event_fault_run [of ?s, OF ks assms(5) peek] by simp
  also have "0 # 0 # 0 # 0 # 0 # 0 # 0 # 0 # 0 # 0 # [] = replicate 10 (0 :: nat)"
    by (simp add: eval_nat_numeral)
  finally show thesis by (rule that) simp_all
qed

end
