(* ===== verification/Device_Locking.thy ===== *)
theory Device_Locking
  imports Device_Programs
begin

text \<open>
  The locking discipline of the proxy module. \<open>device_spec\<close> states it: the order of the
  mutexes, what each protects (\<open>ks_mutex\<close> the registration, \<open>table_mutex\<close> the table;
  \<open>cdev_mutex\<close> only covers a local variable), the invariant of the proxy, and that the table
  only grows. Every entry point of the module is shown to follow it, so the entry points form
  a \<open>lock_protocol\<close>.
\<close>

subsection \<open>The discipline\<close>

definition device_rank :: "mutex \<Rightarrow> nat" where
  "device_rank l = (case l of CdevMutex \<Rightarrow> 0 | KsMutex \<Rightarrow> 1 | TableMutex \<Rightarrow> 2)"

definition device_same :: "mutex \<Rightarrow> 'e dev \<Rightarrow> 'e dev \<Rightarrow> bool" where
  "device_same l s s' \<longleftrightarrow>
     (case l of
        CdevMutex \<Rightarrow> True
      | KsMutex \<Rightarrow> ks (dv_proxy s') = ks (dv_proxy s)
      | TableMutex \<Rightarrow> dev_table s' = dev_table s)"

definition device_inv :: "(u64 \<Rightarrow> kmodule option) \<Rightarrow> 'e dev \<Rightarrow> bool" where
  "device_inv K s \<longleftrightarrow> proxy_inv (dv_proxy s) \<and> kmodules (dv_proxy s) = K"

definition device_guar :: "'e dev \<Rightarrow> 'e dev \<Rightarrow> bool" where
  "device_guar s s' \<longleftrightarrow>
     (\<exists>xs. mt_entries (ptable (dv_proxy s')) = mt_entries (ptable (dv_proxy s)) @ xs)"

definition device_spec :: "(u64 \<Rightarrow> kmodule option) \<Rightarrow> (mutex, 'e dev) lock_spec" where
  "device_spec K = \<lparr>sp_rank = device_rank, sp_same = device_same, sp_inv = device_inv K,
     sp_guar = device_guar, sp_faults = {BadPointer, UseAfterFree}\<rparr>"

lemma device_spec_simps [simp]:
  "sp_rank (device_spec K) = device_rank" "sp_same (device_spec K) = device_same"
  "sp_inv (device_spec K) = device_inv K" "sp_guar (device_spec K) = device_guar"
  "sp_faults (device_spec K) = {BadPointer, UseAfterFree}"
  by (simp_all add: device_spec_def)

text \<open>The calls the module may get, and what they rely on: \<open>kmalloc\<close> for a copy and \<open>krealloc\<close>
  succeed, the modules inserted are modules of the kernel, and a file pointer that is not
  live is a bad or a freed one.\<close>

definition kernel_answers :: "'e kservices \<Rightarrow> bool" where
  "kernel_answers sv \<longleftrightarrow>
     kmalloc_mts sv \<noteq> None \<and>
     (\<forall>p e. eventfd_ctx_fileget sv p = Crash e \<longrightarrow> e = BadPointer \<or> e = UseAfterFree)"

inductive_set device_calls :: "(u64 \<Rightarrow> kmodule option) \<Rightarrow> 'e dprog set" for K where
  insertion: "kernel_answers sv \<Longrightarrow> (\<And>t. lt_put_ok (kr t) t) \<Longrightarrow> K md = Some km \<Longrightarrow> module_ok km \<Longrightarrow>
    put_module_prog sv kr u ns md \<in> device_calls K"
| request: "kernel_answers sv \<Longrightarrow> ioctl_prog sv num param \<in> device_calls K"
| packet: "kernel_answers sv \<Longrightarrow> write_prog sv buff \<in> device_calls K"
| open_close: "open_prog \<in> device_calls K"

subsection \<open>Rules\<close>

lemma device_same_refl [simp]: "device_same l s s"
  by (simp add: device_same_def split: mutex.split)

lemma device_guar_refl [simp]: "device_guar s s"
  by (simp add: device_guar_def)

lemma stay_allowed: "device_inv K s \<Longrightarrow> allowed (device_spec K) h s s"
  by (simp add: allowed_def)

text \<open>An action that leaves table and registration alone.\<close>

definition harmless :: "'e dev \<Rightarrow> 'e dev \<Rightarrow> bool" where
  "harmless s s' \<longleftrightarrow> dev_table s' = dev_table s \<and> ks (dv_proxy s') = ks (dv_proxy s) \<and>
     kmodules (dv_proxy s') = kmodules (dv_proxy s)"

lemma harmless_mem [simp]:
  "harmless s (s\<lparr>dv_mem := m\<rparr>)" "harmless s s" "harmless s (kfree_copy (s\<lparr>dv_mem := m\<rparr>))"
  "harmless s (s\<lparr>dv_copies := n\<rparr>)"
  by (simp_all add: harmless_def dev_table_def)

lemma entry_live_cong: "kmodules st' = kmodules st \<Longrightarrow> entry_live st' = entry_live st"
  by (simp add: entry_live_def fun_eq_iff)

lemma harmless_allowed:
  assumes "harmless s s'" and "device_inv K s"
  shows "allowed (device_spec K) h s s'"
  using assms entry_live_cong [of "dv_proxy s'" "dv_proxy s"]
  by (auto simp: allowed_def dev_table_def harmless_def device_inv_def device_guar_def device_same_def proxy_inv_def
      split: mutex.split)

lemma safe_harmless:
  assumes "\<And>s s' p. device_inv K s \<Longrightarrow> P s \<Longrightarrow> f s = Ret (s', p) \<Longrightarrow>
      harmless s s' \<and> Q s' \<and> safe (device_spec K) h Q p"
    and "\<And>s e. device_inv K s \<Longrightarrow> P s \<Longrightarrow> f s = Crash e \<Longrightarrow> e = BadPointer \<or> e = UseAfterFree"
    and "stable (device_spec K) h Q"
  shows "safe (device_spec K) h P (atomic f)"
proof (rule safe_atomic [where Q = "\<lambda>_. Q"])
  show "allowed (device_spec K) h s s' \<and> stable (device_spec K) h Q \<and> Q s' \<and> safe (device_spec K) h Q p"
    if "sp_inv (device_spec K) s" "P s" "f s = Ret (s', p)" for s s' p
    using that assms(1) [of s s' p] assms(3) harmless_allowed [of s s' K h] by simp
qed (use assms(2) stay_allowed in simp_all)

lemma safe_release:
  "stable (device_spec K) h Q \<Longrightarrow> (\<And>s. P s \<Longrightarrow> Q s) \<Longrightarrow> safe (device_spec K) h Q p \<Longrightarrow>
     safe (device_spec K) (l # h) P (Release l p)"
  by (rule safe.release)

text \<open>An operation on the table: it keeps the table well-formed and its entries, and leaves \<open>Q x\<close>
  with result \<open>x\<close>.\<close>

lemma safe_with_table:
  fixes k :: "'a \<Rightarrow> 'e dprog"
  assumes h: "\<And>l. l \<in> set h \<Longrightarrow> l \<noteq> TableMutex"
    and f: "\<And>s x t. device_inv K s \<Longrightarrow> P s \<Longrightarrow> f (dev_table s) = Ret (x, t) \<Longrightarrow>
      device_inv K (set_table t s) \<and> device_guar s (set_table t s) \<and> Q x (set_table t s)"
    and ok: "\<And>s e. device_inv K s \<Longrightarrow> P s \<Longrightarrow> f (dev_table s) \<noteq> Crash e"
    and Q: "\<And>x. stable (device_spec K) h (Q x)"
      "\<And>(s :: 'e dev) x t. device_inv K s \<Longrightarrow> f (dev_table s) = Ret (x, t) \<Longrightarrow> safe (device_spec K) h (Q x) (k x)"
  shows "safe (device_spec K) h P (with_table f k)"
  unfolding with_table_def
proof (rule safe.acquire)
  show "sp_rank (device_spec K) m < sp_rank (device_spec K) TableMutex" if "m \<in> set h" for m
    using h [OF that] by (cases m) (simp_all add: device_rank_def)
  let ?f = "\<lambda>s. exec_bind (f (dev_table s)) (\<lambda>(x, t). Ret (set_table t s, Release TableMutex (k x)))"
  let ?Q = "\<lambda>s. Q (case f (dev_table s) of Ret y \<Rightarrow> fst y | Crash e \<Rightarrow> undefined)"
  show "safe (device_spec K) (TableMutex # h) P (atomic ?f)"
  proof (rule safe_atomic [where Q = ?Q])
    fix s s' p assume s: "sp_inv (device_spec K) s" "P s" "?f s = Ret (s', p)"
    then obtain x t where x: "f (dev_table s) = Ret (x, t)" "s' = set_table t s"
        "p = Release TableMutex (k x)"
      by (auto simp: exec_bind_eq_Ret_iff)
    have "allowed (device_spec K) (TableMutex # h) s s'"
      using f [OF _ _ x(1)] s x(2) by (auto simp: allowed_def device_same_def split: mutex.split)
    moreover have "safe (device_spec K) (TableMutex # h) (Q x) p"
      unfolding x(3) using s(1) by (intro safe_release [OF Q(1) _ Q(2) [OF _ x(1)]]) simp_all
    moreover have "stable (device_spec K) (TableMutex # h) (Q x)"
      by (rule stable_more [OF Q(1)]) auto
    ultimately show "allowed (device_spec K) (TableMutex # h) s s' \<and> stable (device_spec K) (TableMutex # h) (?Q s) \<and>
        ?Q s s' \<and> safe (device_spec K) (TableMutex # h) (?Q s) p"
      using f [OF _ _ x(1)] s x by simp
  next
    show "e \<in> sp_faults (device_spec K)" if "sp_inv (device_spec K) s" "P s" "?f s = Crash e" for s e
      using ok [of s] that by (cases "f (dev_table s)") auto
  qed (simp add: stay_allowed)
qed

subsection \<open>The operations of the table\<close>

text \<open>The pointer at hand names an entry; this stays so, as the table only grows.\<close>

definition points :: "(u64 \<times> int) option \<Rightarrow> 'e dev \<Rightarrow> bool" where
  "points p s \<longleftrightarrow> (\<forall>(b, i) \<in> set_option p. \<exists>k < length (mt_entries (ptable (dv_proxy s))). i = int k)"

lemma points_stable: "stable (device_spec K) h (points p)"
  by (auto simp: stable_def points_def device_guar_def)

lemma locked_pop_result:
  assumes "mt_inv (lt_table t)" and "locked_pop t = (p, t')"
  shows "mt_inv (lt_table t') \<and> mt_entries (lt_table t') = mt_entries (lt_table t) \<and>
    (\<forall>(b, i) \<in> set_option p. \<exists>k < length (mt_entries (lt_table t)). i = int k)"
proof (cases "mt_popped (lt_table t) < length (mt_entries (lt_table t))")
  case True
  with locked_pop_next [OF assms(1)] assms(2) show ?thesis by fastforce
next
  case False
  with mt_popped_le [OF assms(1)] have "mt_popped (lt_table t) = length (mt_entries (lt_table t))" by simp
  from mt_pop_empty [OF assms(1) this] assms show ?thesis by (simp add: locked_pop_def)
qed

lemma table_pop_reverse_result:
  assumes "mt_inv t" and "table_pop_reverse t = (r, t')"
  shows "mt_inv t' \<and> mt_entries t' = mt_entries t"
  using assms by (auto simp: table_pop_reverse_def mt_inv_def mt_entries_def split: if_splits option.splits)

lemma device_inv_table:
  assumes "device_inv K s" and "mt_inv (lt_table t)"
    and "mt_entries (lt_table t) = mt_entries (ptable (dv_proxy s)) @ xs"
    and "list_all (entry_live (dv_proxy s)) xs"
  shows "device_inv K (set_table t s) \<and> device_guar s (set_table t s)"
  using assms by (simp add: device_inv_def proxy_inv_def device_guar_def)

lemma device_inv_mt: "device_inv K s \<Longrightarrow> mt_inv (ptable (dv_proxy s))"
  by (simp add: device_inv_def proxy_inv_def)

lemma locked_put_result:
  assumes "mt_inv (lt_table t)" and "lt_put_ok a t"
  shows "\<exists>t'. locked_put a mt t = Ret (0, t') \<and> mt_inv (lt_table t') \<and>
    mt_entries (lt_table t') = mt_entries (lt_table t) @ [mt]"
  using assms by (rule ltq.put_append)

lemma safe_put:
  assumes "\<And>l. l \<in> set h \<Longrightarrow> l \<noteq> TableMutex" and "\<And>t. lt_put_ok (kr t) t"
    and "K (mt_module mt) = Some km" and "module_ok km"
    and "\<And>r. safe (device_spec K) h (\<lambda>_. True) (k r)"
  shows "safe (device_spec K) h P (table_put_prog kr mt k)"
  unfolding table_put_prog_def
proof (rule safe_with_table [where Q = "\<lambda>_ _. True"])
  fix s x t assume s: "device_inv K s" "locked_put (kr (dev_table s)) mt (dev_table s) = Ret (x, t)"
  then have "mt_inv (lt_table t)" "mt_entries (lt_table t) = mt_entries (ptable (dv_proxy s)) @ [mt]"
    using locked_put_result [OF _ assms(2), of "dev_table s" mt] device_inv_mt [OF s(1)] by auto
  moreover have "entry_live (dv_proxy s) mt"
    using s(1) assms(3,4) by (simp add: entry_live_def device_inv_def)
  ultimately show "device_inv K (set_table t s) \<and> device_guar s (set_table t s) \<and> True"
    using device_inv_table [OF s(1)] by simp
next
  show "locked_put (kr (dev_table s)) mt (dev_table s) \<noteq> Crash e" if "device_inv K s" for s e
    using locked_put_result [OF _ assms(2), of "dev_table s" mt] device_inv_mt [OF that] by auto
qed (use assms in auto)

lemma safe_pop:
  assumes "\<And>l. l \<in> set h \<Longrightarrow> l \<noteq> TableMutex" and "\<And>p. safe (device_spec K) h (points p) (k p)"
  shows "safe (device_spec K) h P (table_pop_prog k)"
  unfolding table_pop_prog_def
proof (rule safe_with_table [where Q = points])
  fix s x t assume s: "device_inv K s" "Ret (locked_pop (dev_table s)) = Ret (x, t)"
  then have "locked_pop (dev_table s) = (x, t)" "mt_inv (lt_table (dev_table s))"
    by (simp_all add: device_inv_mt)
  from locked_pop_result [OF this(2,1)] device_inv_table [OF s(1), of t "[]"]
  show "device_inv K (set_table t s) \<and> device_guar s (set_table t s) \<and> points x (set_table t s)"
    by (simp add: points_def)
qed (use assms points_stable in auto)

lemma safe_pop_reverse:
  assumes "\<And>l. l \<in> set h \<Longrightarrow> l \<noteq> TableMutex" and "\<And>r. safe (device_spec K) h (\<lambda>_. True) (k r)"
  shows "safe (device_spec K) h P (table_pop_reverse_prog k)"
  unfolding table_pop_reverse_prog_def
proof (rule safe_with_table [where Q = "\<lambda>_ _. True"])
  fix s x t
  assume s: "device_inv K s" "(case table_pop_reverse (lt_table (dev_table s)) of
    (r, t') \<Rightarrow> Ret (r, (dev_table s)\<lparr>lt_table := t'\<rparr>)) = Ret (x, t)"
  then have "table_pop_reverse (ptable (dv_proxy s)) = (x, lt_table t)" by (auto split: prod.splits)
  from table_pop_reverse_result [OF device_inv_mt [OF s(1)] this] device_inv_table [OF s(1), of t "[]"]
  show "device_inv K (set_table t s) \<and> device_guar s (set_table t s) \<and> True"
    by simp
qed (use assms in \<open>auto split: prod.splits\<close>)

text \<open>Operations that only read keep a stable assertion.\<close>

lemma safe_peek:
  assumes "\<And>l. l \<in> set h \<Longrightarrow> l \<noteq> TableMutex" and "stable (device_spec K) h P"
    and "\<And>p. safe (device_spec K) h P (k p)"
  shows "safe (device_spec K) h P (table_peek_prog k)"
  unfolding table_peek_prog_def
  by (rule safe_with_table [where Q = "\<lambda>_. P"]) (use assms in auto)

lemma safe_get_copy:
  fixes k :: "module_table_struct option \<Rightarrow> 'e dprog"
  assumes "\<And>l. l \<in> set h \<Longrightarrow> l \<noteq> TableMutex" and "km \<noteq> None"
    and "\<And>e. safe (device_spec K) h (\<lambda>_. True) (k (Some e))"
  shows "safe (device_spec K) h P (table_get_copy_prog km u k)"
proof -
  from assms(2) obtain g where g: "km = Some g" by auto
  have copy: "\<exists>e. table_get_copy km u (ptable (dv_proxy s)) = Ret (Some e)"
    if "device_inv K s" for s :: "'e dev"
    using get_copy_cases [OF device_inv_mt [OF that], of km u] g by simp
  have "safe (device_spec K) h (\<lambda>_. True)
      (with_table (\<lambda>t. exec_bind (table_get_copy km u (lt_table t)) (\<lambda>x. Ret (x, t))) k)"
  proof (rule safe_with_table [where Q = "\<lambda>_ _. True"])
    fix s :: "'e dev" and x t
    assume s: "device_inv K s"
      "exec_bind (table_get_copy km u (lt_table (dev_table s))) (\<lambda>x. Ret (x, dev_table s)) = Ret (x, t)"
    with copy [OF s(1)] obtain e where x: "x = Some e" "t = dev_table s" by auto
    with s(1) show "device_inv K (set_table t s) \<and> device_guar s (set_table t s) \<and> True" by simp
    from x assms(3) show "safe (device_spec K) h (\<lambda>_. True) (k x)" by simp
  qed (use assms(1) in \<open>auto dest: copy\<close>)
  then show ?thesis
    unfolding table_get_copy_prog_def if_not_P [OF assms(2)]
    by (intro safe_harmless [where Q = "\<lambda>_. True"]) auto
qed

subsection \<open>The entry points\<close>

lemma mod_deref_fault: "mod_deref st p = Crash e \<Longrightarrow> e = BadPointer"
  by (simp add: mod_deref_def split: option.splits)

lemma finished_safe [simp]: "safe R [] P (Finished r)"
  by (rule safe.finished)

lemma registration_allowed:
  assumes "device_inv K s" and "s' = s\<lparr>dv_proxy := (dv_proxy s)\<lparr>ks := k\<rparr>\<rparr>"
  shows "allowed (device_spec K) [KsMutex] s s'"
  using assms by (auto simp: allowed_def device_inv_def device_guar_def device_same_def dev_table_def split: mutex.split)

lemma safe_registration:
  fixes f :: "'e proxy \<Rightarrow> int \<times> 'e proxy"
  assumes "\<And>px. \<exists>r k. f px = (r, px\<lparr>ks := k\<rparr>)"
  shows "safe (device_spec K) [] (\<lambda>_. True) (Acquire KsMutex (atomic (\<lambda>s.
    case f (dv_proxy s) of (r, px) \<Rightarrow> Ret (s\<lparr>dv_proxy := px\<rparr>, Release KsMutex (Finished r)))))"
proof (rule safe.acquire, simp, rule safe_atomic [where Q = "\<lambda>_ _. True"])
  fix s s' :: "'e dev" and p :: "'e dprog"
  assume s: "sp_inv (device_spec K) s"
    "(case f (dv_proxy s) of (r, px) \<Rightarrow> Ret (s\<lparr>dv_proxy := px\<rparr>, Release KsMutex (Finished r))) = Ret (s', p)"
  obtain r k where "f (dv_proxy s) = (r, (dv_proxy s)\<lparr>ks := k\<rparr>)" using assms by blast
  with s have s': "s' = s\<lparr>dv_proxy := (dv_proxy s)\<lparr>ks := k\<rparr>\<rparr>" "p = Release KsMutex (Finished r)" by auto
  have "safe (device_spec K) [KsMutex] (\<lambda>_. True) p"
    unfolding s'(2) by (rule safe_release [where Q = "\<lambda>_. True"]) simp_all
  with registration_allowed [OF _ s'(1)] s(1)
  show "allowed (device_spec K) [KsMutex] s s' \<and> stable (device_spec K) [KsMutex] (\<lambda>_. True) \<and> True \<and>
      safe (device_spec K) [KsMutex] (\<lambda>_. True) p"
    by simp
qed (auto simp: stay_allowed split: prod.splits)

lemma safe_register: "safe (device_spec K) [] (\<lambda>_. True) (register_prog sv param)"
  unfolding register_prog_def
proof (rule safe_registration)
  show "\<exists>r k. ioctl_register sv param px = (r, px\<lparr>ks := k\<rparr>)" for px :: "'a proxy"
    using register_frame [of sv param px] by (cases "ioctl_register sv param px") fastforce
qed

lemma safe_de_register: "safe (device_spec K) [] (\<lambda>_. True) de_register_prog"
  unfolding de_register_prog_def by (rule safe_registration) (auto simp: ioctl_de_register_def)

text \<open>A popped pointer is read without the mutex: the block may have been freed meanwhile.\<close>

lemma points_read:
  assumes "device_inv K s" and "points (Some p) s" and "unlocked_read (dev_table s) (Some p) = Crash e"
  shows "e = UseAfterFree"
proof -
  obtain b i where p: "p = (b, i)" by fastforce
  with assms(2) obtain k where k: "k < length (mt_entries (ptable (dv_proxy s)))" "i = int k"
    by (auto simp: points_def)
  from assms(3) mt_deref_slot [OF device_inv_mt [OF assms(1)] k(1)] show ?thesis
    by (auto simp: p k(2) unlocked_read_def split: if_splits)
qed

lemma safe_deliver:
  "safe (device_spec K) [] (points (Some p)) (atomic (\<lambda>s.
     exec_bind (unlocked_read (dev_table s) (Some p)) (\<lambda>x.
       case copy_to_user sv (dv_mem s) param (enc_u128 (mt_uuid x)) of (n, m') \<Rightarrow>
         Ret (s\<lparr>dv_mem := m'\<rparr>,
           if n = 0 then Finished 1 else table_pop_reverse_prog (\<lambda>_. Finished (- int n))))))"
    (is "safe _ _ _ (atomic ?f)")
proof (rule safe_harmless [where Q = "\<lambda>_. True"])
  fix s s' :: "'a dev" and q assume "?f s = Ret (s', q)"
  then obtain x :: module_table_struct where "(case copy_to_user sv (dv_mem s) param (enc_u128 (mt_uuid x)) of (n, m') \<Rightarrow>
         Ret (s\<lparr>dv_mem := m'\<rparr>,
           if n = 0 then Finished 1 else table_pop_reverse_prog (\<lambda>_. Finished (- int n)))) = Ret (s', q)"
    unfolding exec_bind_eq_Ret_iff by blast
  then show "harmless s s' \<and> True \<and> safe (device_spec K) [] (\<lambda>_. True) q"
    by (cases "copy_to_user sv (dv_mem s) param (enc_u128 (mt_uuid x))") (auto intro!: safe_pop_reverse)
next
  fix s e assume s: "device_inv K s" "points (Some p) s" "?f s = Crash e"
  then have "unlocked_read (dev_table s) (Some p) = Crash e"
    by (cases "unlocked_read (dev_table s) (Some p)") (simp_all add: case_prod_unfold)
  from points_read [OF s(1,2) this] show "e = BadPointer \<or> e = UseAfterFree" by simp
qed simp

lemma safe_get_pending: "safe (device_spec K) [] (\<lambda>_. True) (get_pending_prog sv param)"
  unfolding get_pending_prog_def
proof (rule safe_pop)
  fix p
  show "safe (device_spec K) [] (points p)
    (if p = None then Finished 0
     else atomic (\<lambda>s. exec_bind (unlocked_read (dev_table s) p) (\<lambda>x.
       case copy_to_user sv (dv_mem s) param (enc_u128 (mt_uuid x)) of (n, m') \<Rightarrow>
         Ret (s\<lparr>dv_mem := m'\<rparr>,
           if n = 0 then Finished 1 else table_pop_reverse_prog (\<lambda>_. Finished (- int n))))))"
    by (cases p) (simp_all add: safe_deliver)
qed simp

text \<open>A module that was looked up is read, and the answer copied to user space.\<close>

lemma safe_reply:
  assumes "\<And>n. safe (device_spec K) [] (\<lambda>_. True) (q n)" and "\<And>s m. harmless s (upd (s\<lparr>dv_mem := m\<rparr>))"
  shows "safe (device_spec K) [] P (atomic (\<lambda>s.
    exec_bind (mod_deref (dv_proxy s) a) (\<lambda>md. case g s md of (n, m') \<Rightarrow> Ret (upd (s\<lparr>dv_mem := m'\<rparr>), q n))))"
    (is "safe _ _ _ (atomic ?f)")
proof (rule safe_harmless [where Q = "\<lambda>_. True"])
  fix s s' p assume "?f s = Ret (s', p)"
  then obtain md where "mod_deref (dv_proxy s) a = Ret md"
    "(case g s md of (n, m') \<Rightarrow> Ret (upd (s\<lparr>dv_mem := m'\<rparr>), q n)) = Ret (s', p)"
    unfolding exec_bind_eq_Ret_iff by blast
  with assms show "harmless s s' \<and> True \<and> safe (device_spec K) [] (\<lambda>_. True) p"
    by (cases "g s md") auto
next
  fix s e assume "?f s = Crash e"
  then have "mod_deref (dv_proxy s) a = Crash e"
    by (cases "mod_deref (dv_proxy s) a") (simp_all add: case_prod_unfold)
  then show "e = BadPointer \<or> e = UseAfterFree" by (simp add: mod_deref_fault)
qed simp

lemmas safe_replies = safe_reply [where upd = "\<lambda>s. s"] safe_reply [where upd = kfree_copy]

lemma safe_lookup:
  assumes "kernel_answers sv"
  shows "safe (device_spec K) [] (\<lambda>_. True) (lookup_prog sv answer ptr)"
proof -
  have "safe (device_spec K) [] (\<lambda>_. True) (table_get_copy_prog (kmalloc_mts sv) u (\<lambda>entry.
      case entry of None \<Rightarrow> Finished (-1)
      | Some e \<Rightarrow> atomic (\<lambda>s. exec_bind (mod_deref (dv_proxy s) (mt_module e)) (\<lambda>md.
          case copy_to_user sv (dv_mem s) ptr (answer md) of (n', m') \<Rightarrow>
            Ret (kfree_copy (s\<lparr>dv_mem := m'\<rparr>), Finished (- int n'))))))" for u
    using assms by (intro safe_get_copy) (simp_all add: kernel_answers_def safe_replies)
  then show ?thesis
    unfolding lookup_prog_def
    by (intro safe_harmless [where Q = "\<lambda>_. True"]) (auto split: prod.splits)
qed

lemma safe_ioctl:
  assumes "kernel_answers sv"
  shows "safe (device_spec K) [] (\<lambda>_. True) (ioctl_prog sv num param)"
  unfolding ioctl_prog_def Let_def
  by (rule safe_harmless [where Q = "\<lambda>_. True"])
    (auto simp: safe_register safe_de_register safe_get_pending get_uuid_size_prog_def get_layout_prog_def
      safe_lookup [OF assms])

lemma safe_packet:
  assumes "kernel_answers sv"
  shows "safe (device_spec K) [] P (process_packet_prog sv pk (\<lambda>r. Finished (f r)))"
  unfolding process_packet_prog_def
  using assms by (intro safe_get_copy) (simp_all add: kernel_answers_def Let_def safe_replies)

lemma safe_write:
  assumes "kernel_answers sv"
  shows "safe (device_spec K) [] (\<lambda>_. True) (write_prog sv buff)"
  unfolding write_prog_def
proof (rule safe.acquire, simp, rule safe_harmless [where Q = "\<lambda>_. True"])
  fix s s' :: "'a dev" and p
  assume s: "(case copy_from_user sv (dv_mem s) buff sizeof_packet of (n, bs) \<Rightarrow>
      Ret (s, Release CdevMutex (if n = 0 then process_packet_prog sv (dec_packet bs) (\<lambda>r.
        Finished (if r = 0 then int sizeof_packet else -1)) else Finished (-1)))) = Ret (s', p)"
  obtain n bs where "copy_from_user sv (dv_mem s) buff sizeof_packet = (n, bs)" by fastforce
  with s have "s' = s" "p = Release CdevMutex (if n = 0 then process_packet_prog sv (dec_packet bs) (\<lambda>r.
        Finished (if r = 0 then int sizeof_packet else -1)) else Finished (-1))" by simp_all
  with safe_packet [OF assms]
  show "harmless s s' \<and> True \<and> safe (device_spec K) [CdevMutex] (\<lambda>_. True) p"
    by (auto intro!: safe_release [where Q = "\<lambda>_. True"])
qed (simp_all split: prod.splits)

text \<open>The assertion under \<open>ks_mutex\<close> in \<open>send_event\<close>: a server is registered, and stays so, since
  nobody else has the mutex.\<close>

definition registered :: "'e dev \<Rightarrow> bool" where
  "registered s \<longleftrightarrow> ks (dv_proxy s) \<noteq> None"

lemma registered_stable: "stable (device_spec K) [KsMutex] registered"
  by (simp add: stable_def registered_def device_same_def)

lemma safe_signal:
  fixes k :: "int \<Rightarrow> 'e dprog"
  assumes "kernel_answers sv" and "\<And>r. safe (device_spec K) [] (\<lambda>_. True) (k r)"
  shows "safe (device_spec K) [KsMutex] registered (atomic (\<lambda>s.
    case ks (dv_proxy s) of
      None \<Rightarrow> Crash NullDeref
    | Some sr \<Rightarrow>
        exec_bind (eventfd_ctx_fileget sv (ks_fp sr)) (\<lambda>r.
          case r of
            EfdNull \<Rightarrow> Ret (s, Release KsMutex (k (-1)))
          | EfdErrPtr \<Rightarrow> Crash BadPointer
          | EfdCtx c \<Rightarrow>
              Ret (s\<lparr>dv_proxy := (dv_proxy s)\<lparr>efds :=
                     (efds (dv_proxy s))(c := eventfd_signal sv (efds (dv_proxy s) c))\<rparr>\<rparr>,
                   Release KsMutex (k 0)))))"
    (is "safe _ _ _ (atomic ?f)")
proof (rule safe_harmless [where Q = "\<lambda>_. True"])
  have rel: "safe (device_spec K) [KsMutex] (\<lambda>_. True) (Release KsMutex (k r))" for r
    using assms(2) by (intro safe_release [where Q = "\<lambda>_. True"]) simp_all
  fix s s' :: "'e dev" and p assume s: "registered s" "?f s = Ret (s', p)"
  then obtain sr where sr: "ks (dv_proxy s) = Some sr" by (auto simp: registered_def)
  with s obtain r where "eventfd_ctx_fileget sv (ks_fp sr) = Ret r" by (auto simp: exec_bind_eq_Ret_iff)
  with s sr rel show "harmless s s' \<and> True \<and> safe (device_spec K) [KsMutex] (\<lambda>_. True) p"
    by (cases r) (auto simp: harmless_def dev_table_def)
next
  fix s e assume s: "registered s" "?f s = Crash e"
  then obtain sr where "ks (dv_proxy s) = Some sr" by (auto simp: registered_def)
  with s assms(1) show "e = BadPointer \<or> e = UseAfterFree"
    by (cases "eventfd_ctx_fileget sv (ks_fp sr)") (auto simp: kernel_answers_def split: efd_res.splits)
qed simp

lemma safe_send_event:
  fixes k :: "int \<Rightarrow> 'e dprog"
  assumes "kernel_answers sv" and k: "\<And>r. safe (device_spec K) [] (\<lambda>_. True) (k r)"
  shows "safe (device_spec K) [] P (send_event_prog sv k)"
proof -
  have rel: "safe (device_spec K) [KsMutex] Q (Release KsMutex (k r))" for r Q
    using k by (intro safe_release [where Q = "\<lambda>_. True"]) simp_all
  show ?thesis
    unfolding send_event_prog_def
  proof (rule safe.acquire, simp, rule safe_atomic [where
      Q = "\<lambda>s. if registered s then registered else (\<lambda>_. True)"])
    fix s s' :: "'e dev" and p
    assume s: "sp_inv (device_spec K) s" "Ret (s, if ks (dv_proxy s) = None then Release KsMutex (k 0)
      else table_peek_prog (\<lambda>ptr. if ptr = MtNull then Release KsMutex (k (-1))
        else atomic (\<lambda>s. case ks (dv_proxy s) of None \<Rightarrow> Crash NullDeref
          | Some sr \<Rightarrow> exec_bind (eventfd_ctx_fileget sv (ks_fp sr)) (\<lambda>r. case r of
              EfdNull \<Rightarrow> Ret (s, Release KsMutex (k (-1)))
            | EfdErrPtr \<Rightarrow> Crash BadPointer
            | EfdCtx c \<Rightarrow> Ret (s\<lparr>dv_proxy := (dv_proxy s)\<lparr>efds :=
                (efds (dv_proxy s))(c := eventfd_signal sv (efds (dv_proxy s) c))\<rparr>\<rparr>,
                Release KsMutex (k 0)))))) = Ret (s', p)"
    have peek: "safe (device_spec K) [KsMutex] registered (table_peek_prog (\<lambda>ptr.
      if ptr = MtNull then Release KsMutex (k (-1)) else atomic (q ptr)))"
      if "safe (device_spec K) [KsMutex] registered (atomic q')" "q = (\<lambda>_. q')" for q q'
      using that rel by (intro safe_peek registered_stable) auto
    let ?Q = "if registered s then registered else (\<lambda>_. True)"
    show "allowed (device_spec K) [KsMutex] s s' \<and> stable (device_spec K) [KsMutex] ?Q \<and> ?Q s' \<and>
        safe (device_spec K) [KsMutex] ?Q p"
    proof (cases "registered s")
      case True
      with s(2) have "ks (dv_proxy s) \<noteq> None" "s' = s" by (simp_all add: registered_def)
      with True s registered_stable stay_allowed peek [OF safe_signal [OF assms(1) k] refl] show ?thesis
        by auto
    next
      case False
      with s(2) have "p = Release KsMutex (k 0)" "s' = s" by (auto simp: registered_def)
      with False s(1) stay_allowed rel show ?thesis by simp
    qed
  qed (simp_all add: stay_allowed)
qed

lemma safe_put_module:
  assumes "kernel_answers sv" and "\<And>t. lt_put_ok (kr t) t" and "K md = Some km" and "module_ok km"
  shows "safe (device_spec K) [] (\<lambda>_. True) (put_module_prog sv kr u ns md)"
  unfolding put_module_prog_def
proof (rule safe_put)
  fix ret_val
  show "safe (device_spec K) [] (\<lambda>_. True) (atomic (\<lambda>s. exec_bind (mod_deref (dv_proxy s) md) (\<lambda>_.
      Ret (s, if ret_val = 0 then send_event_prog sv (\<lambda>_. Finished ret_val) else Finished ret_val))))"
    using assms(1)
    by (intro safe_harmless [where Q = "\<lambda>_. True"])
      (auto simp: exec_bind_eq_Ret_iff safe_send_event split: exec_bind_splits dest: mod_deref_fault)
qed (use assms in simp_all)

lemma safe_open: "safe (device_spec K) [] (\<lambda>_. True) open_prog"
  unfolding open_prog_def by (rule safe.acquire, simp, rule safe_release [where Q = "\<lambda>_. True"]) simp_all

lemma device_calls_safe: "p \<in> device_calls K \<Longrightarrow> safe (device_spec K) [] (\<lambda>_. True) p"
  by (induction rule: device_calls.induct) (auto intro: safe_put_module safe_ioctl safe_write safe_open)

interpretation device: lock_protocol "device_spec K" "device_calls K" for K
  by unfold_locales (auto simp: device_calls_safe device_guar_def)

end
