(* ===== verification/Table_Threads.thy ===== *)
theory Table_Threads
  imports Lock_Programs Host_Memory
begin

text \<open>
  The functions of \<open>uuid-table.h\<close> as programs over \<open>uuid_table_mutex\<close>: each takes the mutex,
  works, and releases it on every path (\<open>goto out_unlock\<close>). \<open>errno\<close> belongs to the thread, so
  the macro \<open>table_set_xxx\<close> hands its value to what follows. A client is any program that calls
  these functions, one after the other, and decides by their results what to do next. The
  functions are shown to follow a locking discipline, so that any number of clients may share
  the table: this is a second instance of \<open>lock_protocol\<close>.

  The answers of \<open>malloc\<close> and \<open>realloc\<close> depend on the table they are called for, so they are
  functions of it. A moved block is excluded (the code loses the table then, whether there are
  threads or not).
\<close>

subsection \<open>Programs\<close>

datatype server_mutex = UuidTableMutex

type_synonym 'e tprog = "(server_mutex, 'e world) prog"

definition under_mutex :: "('e world \<Rightarrow> ('a \<times> 'e world) exec) \<Rightarrow> ('a \<Rightarrow> 'e tprog) \<Rightarrow> 'e tprog" where
  "under_mutex f k =
     Acquire UuidTableMutex (atomic (\<lambda>w.
       exec_bind (f w) (\<lambda>(x, w1). Ret (w1, Release UuidTableMutex (k x)))))"

definition uuid_put_prog :: "(utable \<Rightarrow> alloc_res) \<Rightarrow> UUID_table \<Rightarrow> (int \<Rightarrow> 'e tprog) \<Rightarrow> 'e tprog" where
  "uuid_put_prog al entry = under_mutex (\<lambda>w.
     exec_bind (table_put (al (wtable w)) entry (wtable w)) (\<lambda>(r, t). Ret (r, w\<lparr>wtable := t\<rparr>)))"

definition uuid_count_prog :: "(int \<Rightarrow> 'e tprog) \<Rightarrow> 'e tprog" where
  "uuid_count_prog = under_mutex (\<lambda>w. Ret (get_table_num_entries (wtable w), w))"

definition uuid_copy_prog :: "bool \<Rightarrow> int \<Rightarrow> (UUID_table option \<Rightarrow> 'e tprog) \<Rightarrow> 'e tprog" where
  "uuid_copy_prog ok index = under_mutex (\<lambda>w.
     exec_bind (table_entry_at_index_copy ok index (wtable w)) (\<lambda>p. Ret (p, w)))"

definition uuid_set_prog :: "int \<Rightarrow> (UUID_table \<Rightarrow> UUID_table) \<Rightarrow> (int \<Rightarrow> 'e tprog) \<Rightarrow> 'e tprog" where
  "uuid_set_prog index upd = under_mutex (\<lambda>w.
     exec_bind (table_set_xxx index upd (wtable w)) (\<lambda>t. Ret (errno t, w\<lparr>wtable := t\<rparr>)))"

definition uuid_initialize_prog :: "'e init_env \<Rightarrow> u128 \<Rightarrow> (int \<Rightarrow> 'e tprog) \<Rightarrow> 'e tprog" where
  "uuid_initialize_prog env u = under_mutex (initialize_memory_uuid env u)"

lemma under_mutex_alone [simp]:
  "run_alone (under_mutex f k) w = exec_bind (f w) (\<lambda>(x, w1). run_alone (k x) w1)"
  by (simp add: under_mutex_def exec_bind_assoc case_prod_unfold)

subsection \<open>The discipline\<close>

definition table_inv :: "'e world \<Rightarrow> bool" where
  "table_inv w \<longleftrightarrow> winv w \<and> proxy_inv (wproxy w)"

text \<open>Nobody takes an identifier out of the table or changes it.\<close>

definition table_guar :: "'e world \<Rightarrow> 'e world \<Rightarrow> bool" where
  "table_guar w w' \<longleftrightarrow> (\<exists>us. map uuid (wentries w') = map uuid (wentries w) @ us)"

definition table_spec :: "(server_mutex, 'e world) lock_spec" where
  "table_spec = \<lparr>sp_rank = (\<lambda>_. 0), sp_same = (\<lambda>_ w w'. wentries w' = wentries w), sp_inv = table_inv,
     sp_guar = table_guar, sp_faults = {BadPointer}\<rparr>"

text \<open>\<open>realloc\<close> fails, or grows the block where it is.\<close>

definition realloc_in_place :: "(utable \<Rightarrow> alloc_res) \<Rightarrow> bool" where
  "realloc_in_place al \<longleftrightarrow> (\<forall>t. ut_inv t \<longrightarrow> al_ptr (al t) = 0 \<or> ut_put_ok (al t) t)"

inductive_set table_clients :: "'e tprog set" where
  leave: "Finished r \<in> table_clients"
| put: "realloc_in_place al \<Longrightarrow> (\<And>r. k r \<in> table_clients) \<Longrightarrow> uuid_put_prog al e k \<in> table_clients"
| count: "(\<And>r. k r \<in> table_clients) \<Longrightarrow> uuid_count_prog k \<in> table_clients"
| copy: "0 \<le> i \<Longrightarrow> (\<And>p. k p \<in> table_clients) \<Longrightarrow> uuid_copy_prog ok i k \<in> table_clients"
| set: "0 \<le> i \<Longrightarrow> (\<And>e. uuid (upd e) = uuid e) \<Longrightarrow> (\<And>r. k r \<in> table_clients) \<Longrightarrow>
    uuid_set_prog i upd k \<in> table_clients"
| initialize: "(\<And>r. k r \<in> table_clients) \<Longrightarrow> uuid_initialize_prog env u k \<in> table_clients"

lemma table_spec_simps [simp]:
  "sp_rank table_spec l = 0" "sp_same table_spec l w w' \<longleftrightarrow> wentries w' = wentries w"
  "sp_inv table_spec = table_inv" "sp_guar table_spec = table_guar" "sp_faults table_spec = {BadPointer}"
  by (simp_all add: table_spec_def)

lemma table_guar_refl [simp]: "table_guar w w"
  by (simp add: table_guar_def)

subsection \<open>What a function may do under the mutex\<close>

text \<open>The outcome of a function of the table: a state in order in which no identifier was lost, or
  the fault of a bad module pointer.\<close>

definition good_outcome :: "'e world \<Rightarrow> ('a \<times> 'e world) exec \<Rightarrow> bool" where
  "good_outcome w x \<longleftrightarrow>
     (\<forall>y w'. x = Ret (y, w') \<longrightarrow> table_inv w' \<and> table_guar w w') \<and> (\<forall>e. x = Crash e \<longrightarrow> e = BadPointer)"

lemma good_Ret [simp]: "good_outcome w (Ret (y, w')) \<longleftrightarrow> table_inv w' \<and> table_guar w w'"
  by (simp add: good_outcome_def)

lemma table_guar_trans: "table_guar w w1 \<Longrightarrow> table_guar w1 w2 \<Longrightarrow> table_guar w w2"
  by (auto simp: table_guar_def)

lemma good_bind:
  assumes "good_outcome w x"
    and "\<And>y w1. table_inv w1 \<Longrightarrow> table_guar w w1 \<Longrightarrow> x = Ret (y, w1) \<Longrightarrow> good_outcome w1 (f y w1)"
  shows "good_outcome w (exec_bind x (\<lambda>(y, w1). f y w1))"
proof (cases x)
  case (Ret z)
  obtain y w1 where z: "z = (y, w1)" by fastforce
  with assms Ret have "table_guar w w1" "good_outcome w1 (f y w1)" by (auto simp: good_outcome_def)
  with Ret z show ?thesis by (auto simp: good_outcome_def intro: table_guar_trans)
qed (use assms(1) in \<open>simp add: good_outcome_def\<close>)

lemma safe_under_mutex:
  fixes f :: "'e world \<Rightarrow> ('a \<times> 'e world) exec"
  assumes "\<And>w. table_inv w \<Longrightarrow> good_outcome w (f w)" and "\<And>x. safe table_spec [] (\<lambda>_. True) (k x)"
  shows "safe table_spec [] (\<lambda>_. True) (under_mutex f k)"
  unfolding under_mutex_def
proof (rule safe.acquire, simp, rule safe_atomic [where Q = "\<lambda>_ _. True"])
  fix w w' :: "'e world" and p
  assume w: "sp_inv table_spec w"
    "exec_bind (f w) (\<lambda>(x, w1). Ret (w1, Release UuidTableMutex (k x))) = Ret (w', p)"
  then obtain x where x: "f w = Ret (x, w')" "p = Release UuidTableMutex (k x)"
    by (auto simp: exec_bind_eq_Ret_iff)
  have "safe table_spec [UuidTableMutex] (\<lambda>_. True) p"
    unfolding x(2) by (rule safe.release [where Q = "\<lambda>_. True"]) (simp_all add: assms(2))
  moreover have "m = UuidTableMutex" for m by (cases m)
  ultimately show "allowed table_spec [UuidTableMutex] w w' \<and> stable table_spec [UuidTableMutex] (\<lambda>_. True) \<and>
      True \<and> safe table_spec [UuidTableMutex] (\<lambda>_. True) p"
    using assms(1) [of w] w(1) x(1) by (simp add: allowed_def good_outcome_def)
next
  fix w e
  assume w: "sp_inv table_spec w" "exec_bind (f w) (\<lambda>(x, w1). Ret (w1, Release UuidTableMutex (k x))) = Crash e"
  then have "f w = Crash e" by (cases "f w") (auto simp: case_prod_unfold)
  with assms(1) [of w] w(1) show "e \<in> sp_faults table_spec" by (simp add: good_outcome_def)
qed (simp add: allowed_def)

subsection \<open>The functions keep the discipline\<close>

lemma table_inv_simps [simp]:
  "table_inv (w\<lparr>wmem := m\<rparr>) = table_inv w" "table_inv (set_errno x w) = table_inv w"
  "table_inv (w\<lparr>wout := out\<rparr>) = table_inv w"
  by (simp_all add: table_inv_def)

lemma table_guar_simps [simp]:
  "table_guar w (w'\<lparr>wmem := m\<rparr>) = table_guar w w'" "table_guar w (set_errno x w') = table_guar w w'"
  "table_guar w (w'\<lparr>wproxy := px\<rparr>) = table_guar w w'"
  by (simp_all add: table_guar_def)

lemma good_from_memory: "good_outcome (w\<lparr>wmem := m\<rparr>) x = good_outcome w x" "good_outcome (set_errno e w) x = good_outcome w x"
  by (simp_all add: good_outcome_def table_guar_def)

lemma ioctl_keeps_inv:
  assumes inv: "proxy_inv st" and r: "cdev_ioctl sv num param m st = Ret (r, m', st')"
  shows "proxy_inv st'"
proof (cases "num = kvm_host_server_get_pending_module (lxc_uio_cdev_major_number st)")
  case False
  from request_frame [OF this r] inv show ?thesis by auto
next
  case True
  with r have r: "ioctl_get_pending_module sv param m st = Ret (r, m', st')" by simp
  from inv have mt: "mt_inv (ptable st)" by (simp add: proxy_inv_def)
  show ?thesis
  proof (cases "mt_pending (ptable st)")
    case Nil
    with r get_pending_Nil [of st] mt inv show ?thesis by simp
  next
    case (Cons x xs)
    obtain n m1 where "copy_to_user sv m param (enc_u128 (mt_uuid x)) = (n, m1)" by fastforce
    from get_pending_Cons [OF mt Cons this] obtain t1 where
      t1: "mt_inv t1" "mt_entries t1 = mt_entries (ptable st)" "st' = st\<lparr>ptable := t1\<rparr> \<or> st' = st"
      using r by (auto split: if_splits)
    with proxy_inv_pop [OF inv t1(1,2)] inv show ?thesis by auto
  qed
qed

lemma good_ioctl: "table_inv w \<Longrightarrow> good_outcome w (dev_ioctl sv num p w)"
proof -
  assume w: "table_inv w"
  show ?thesis
  proof (cases "cdev_ioctl sv num p (wmem w) (wproxy w)")
    case (Ret y)
    with w ioctl_keeps_inv [of "wproxy w" sv num p "wmem w" "fst y" "fst (snd y)" "snd (snd y)"] show ?thesis
      by (cases y) (simp add: dev_ioctl_def table_inv_def)
  next
    case (Crash e)
    with w cdev_ioctl_faults [of "wproxy w" sv num p "wmem w" e] show ?thesis
      by (simp add: dev_ioctl_def table_inv_def good_outcome_def)
  qed
qed

lemma good_layout:
  assumes "table_inv w"
  shows "good_outcome w (get_uuid_layout sv buf u num w)"
proof -
  let ?w = "(set_errno 0 w)\<lparr>wmem := umem_write (wmem w) buf (enc_u128 u)\<rparr>"
  have "good_outcome ?w (exec_bind (dev_ioctl sv num buf ?w) (\<lambda>(r, w').
      if r = 0 then Ret (buf, w') else if r < 0 then Ret (0, set_errno r w') else Ret (0, set_errno (-1) w')))"
    using assms by (intro good_bind good_ioctl) auto
  with assms show ?thesis by (auto simp: get_uuid_layout_def Let_def good_from_memory)
qed

lemma good_set_mem:
  assumes "table_inv w" and "i < length (wentries w)"
  shows "\<exists>w'. set_mem (int i) f w = Ret w' \<and> table_inv w' \<and> table_guar w w' \<and>
    length (wentries w') = length (wentries w)"
proof -
  from assms(1) have "winv w" by (simp add: table_inv_def)
  from set_mem_entry [OF this assms(2), of f] obtain t where t: "set_mem (int i) f w = Ret (w\<lparr>wtable := t\<rparr>)"
      "winv (w\<lparr>wtable := t\<rparr>)"
      "wentries (w\<lparr>wtable := t\<rparr>) = (wentries w)[i := (wentries w ! i)\<lparr>memory := f (memory (wentries w ! i))\<rparr>]"
    by blast
  then have "map uuid (wentries (w\<lparr>wtable := t\<rparr>)) = map uuid (wentries w)"
    using assms(2) list_update_id [of "map uuid (wentries w)" i] by (simp add: map_update)
  with t assms show ?thesis by (simp add: table_inv_def table_guar_def)
qed

lemma good_add_region:
  assumes w: "table_inv w" "i < length (wentries w)"
  shows "good_outcome w (add_region (int i) fill kr w)"
proof -
  obtain w1 where w1: "set_mem (int i) fill w = Ret w1" "table_inv w1" "table_guar w w1"
      "i < length (wentries w1)"
    using good_set_mem [OF w, of fill] w(2) by auto
  obtain w2 where w2: "set_mem (int i) inc_regions w1 = Ret w2" "table_inv w2" "table_guar w1 w2"
    using good_set_mem [OF w1(2,4), of inc_regions] by blast
  with w1 table_guar_trans [OF w1(3) w2(3)] show ?thesis by (simp add: add_region_def)
qed

lemma guar_length: "table_guar w w' \<Longrightarrow> i < length (wentries w) \<Longrightarrow> i < length (wentries w')"
  by (auto simp: table_guar_def dest: arg_cong [of _ _ length])

lemma good_fetch:
  assumes w: "table_inv w" "i < length (wentries w)"
  shows "good_outcome w (exec_bind (get_uuid_layout sv buf u num w) (\<lambda>(p, w1).
    if p = 0 then Ret (Goto r0, w1) else if mem = MAP_FAILED then Ret (Goto (-1), w1)
    else add_region (int i) (fill (layout_at w1 p)) kr w1))"
  using w(2) by (intro good_bind good_layout [OF w(1)]) (auto intro: good_add_region guar_length)

lemma good_flow_bind:
  assumes "good_outcome w x"
    and "\<And>r w1. table_inv w1 \<Longrightarrow> table_guar w w1 \<Longrightarrow> good_outcome w1 (f r w1)"
  shows "good_outcome w (flow_bind x f)"
  unfolding flow_bind_def using assms by (intro good_bind) (auto split: flow.split)

lemma good_init_entry:
  assumes w: "table_inv w" "i < length (wentries w)"
  shows "good_outcome w (init_entry env u (int i) w)"
  unfolding init_entry_def
proof (rule good_flow_bind)
  show "good_outcome w (init_IDT_area env (int i) w)"
    using w read_entry [of w i] good_add_region [OF w] by (simp add: init_IDT_area_def table_inv_def)
  fix r1 w1 assume w1: "table_inv w1" "table_guar w w1"
  note i1 = guar_length [OF w1(2) w(2)]
  show "good_outcome w1 (flow_bind (init_init_area env u (int i) r1 w1) (\<lambda>r2 w2.
      flow_bind (init_core_area env u (int i) r2 w2) (\<lambda>r3 w3. Ret (Next 0, w3))))"
  proof (rule good_flow_bind)
    show "good_outcome w1 (init_init_area env u (int i) r1 w1)"
      unfolding init_init_area_def by (rule good_fetch [OF w1(1) i1])
    fix r2 w2 assume w2: "table_inv w2" "table_guar w1 w2"
    have "good_outcome w2 (init_core_area env u (int i) r2 w2)"
      unfolding init_core_area_def by (rule good_fetch [OF w2(1) guar_length [OF w2(2) i1]])
    then show "good_outcome w2 (flow_bind (init_core_area env u (int i) r2 w2) (\<lambda>r3 w3. Ret (Next 0, w3)))"
      by (rule good_flow_bind) simp
  qed
qed

lemma good_init_scan:
  "table_inv w \<Longrightarrow> set is \<subseteq> {..<length (wentries w)} \<Longrightarrow> good_outcome w (init_scan env u found r is w)"
proof (induction "is" arbitrary: w found r)
  case (Cons i "is")
  then have i: "i < length (wentries w)" and read: "ut_read (wtable w) (int i) = Ret (wentries w ! i)"
    by (simp_all add: read_entry table_inv_def)
  have "good_outcome w (exec_bind (init_entry env u (int i) w) (\<lambda>(fl, w').
      case fl of Goto r \<Rightarrow> Ret (r, w') | Next r \<Rightarrow> init_scan env u True r is w'))"
    using Cons by (intro good_bind good_init_entry i)
      (auto split: flow.split intro!: Cons.IH intro: guar_length dest: subsetD)
  with Cons read show ?case by simp
qed simp

lemma good_put:
  assumes w: "table_inv w" and al: "realloc_in_place al"
  shows "good_outcome w (exec_bind (table_put (al (wtable w)) e (wtable w)) (\<lambda>(r, t). Ret (r, w\<lparr>wtable := t\<rparr>)))"
proof -
  have inv: "ut_inv (wtable w)" using w by (simp add: table_inv_def winv_def)
  show ?thesis
  proof (cases "ut_put_ok (al (wtable w)) (wtable w)")
    case True
    with ut_put_append [OF inv, of "al (wtable w)" e] w show ?thesis
      by (auto simp: table_inv_def winv_def table_guar_def wentries_def)
  next
    case False
    with al inv have "al_ptr (al (wtable w)) = 0" "ut_num_entries (wtable w) = uuid_table_size (wtable w)"
      by (auto simp: realloc_in_place_def ut_put_ok_def)
    with inv w show ?thesis
      by (auto simp: table_put_def table_inv_def winv_def table_guar_def wentries_def elim: ut_invE)
  qed
qed

lemma good_copy:
  assumes w: "table_inv w" and "0 \<le> i"
  shows "good_outcome w (exec_bind (table_entry_at_index_copy ok i (wtable w)) (\<lambda>p. Ret (p, w)))"
proof (cases "i < ut_num_entries (wtable w)")
  case True
  have inv: "ut_inv (wtable w)" using w by (simp add: table_inv_def winv_def)
  with True assms(2) have "nat i < length (ut_entries (wtable w))" by (simp add: length_ut_entries)
  from ut_read_entry [OF inv this] assms show ?thesis by (simp add: table_entry_at_index_copy_def)
qed (use w in \<open>simp add: table_entry_at_index_copy_def\<close>)

lemma good_set:
  assumes w: "table_inv w" and "0 \<le> i" and upd: "\<And>e. uuid (upd e) = uuid e"
  shows "good_outcome w (exec_bind (table_set_xxx i upd (wtable w)) (\<lambda>t. Ret (errno t, w\<lparr>wtable := t\<rparr>)))"
proof (cases "i < ut_num_entries (wtable w)")
  case True
  have inv: "ut_inv (wtable w)" using w by (simp add: table_inv_def winv_def)
  with True assms(2) have i: "nat i < length (ut_entries (wtable w))" by (simp add: length_ut_entries)
  obtain h where h: "table_set_xxx (int (nat i)) upd (wtable w) = Ret ((wtable w)\<lparr>errno := 0, uheap := h\<rparr>)"
    "ut_inv ((wtable w)\<lparr>errno := 0, uheap := h\<rparr>)"
    "ut_entries ((wtable w)\<lparr>errno := 0, uheap := h\<rparr>) =
       (ut_entries (wtable w))[nat i := upd (ut_entries (wtable w) ! nat i)]"
    by (rule table_set_xxx_entry [OF inv i])
  have "map uuid (ut_entries ((wtable w)\<lparr>errno := 0, uheap := h\<rparr>)) = map uuid (ut_entries (wtable w))"
    using h(3) upd i list_update_id [of "map uuid (ut_entries (wtable w))" "nat i"] by (simp add: map_update)
  with h w assms(2) show ?thesis by (simp add: table_inv_def winv_def table_guar_def wentries_def)
next
  case False
  with w show ?thesis by (simp add: table_set_xxx_def table_inv_def winv_def table_guar_def wentries_def)
qed

lemma good_initialize: "table_inv w \<Longrightarrow> good_outcome w (initialize_memory_uuid env u w)"
  unfolding initialize_memory_uuid_def
  by (rule good_init_scan) (auto simp: table_inv_def winv_def wentries_def length_ut_entries)

lemma client_safe: "p \<in> table_clients \<Longrightarrow> safe table_spec [] (\<lambda>_. True) p"
proof (induction rule: table_clients.induct)
  case (leave r)
  then show ?case by (rule safe.finished)
next
  case (put al k e)
  then show ?case unfolding uuid_put_prog_def by (intro safe_under_mutex good_put)
next
  case (count k)
  then show ?case unfolding uuid_count_prog_def by (intro safe_under_mutex) simp_all
next
  case (copy i k ok)
  then show ?case unfolding uuid_copy_prog_def by (intro safe_under_mutex good_copy)
next
  case (set i upd k)
  then show ?case unfolding uuid_set_prog_def by (intro safe_under_mutex good_set)
next
  case (initialize k env u)
  then show ?case unfolding uuid_initialize_prog_def by (intro safe_under_mutex good_initialize)
qed

interpretation clients: lock_protocol table_spec table_clients
  by unfold_locales (auto simp: client_safe intro: table_guar_trans)

end
