(* ===== verification/Locking_Properties.thy ===== *)
theory Locking_Properties
  imports Demo_States Device_Locking Table_Threads
begin

text \<open>
  Properties of the proxy module under any number of threads: its entry points as lock
  programs, the invariant in every interleaving, what the mutexes protect, freedom from
  deadlock, and the way in which the locking fails; and of the server's table under any
  number of threads.
\<close>

subsection \<open>Entry points\<close>


subsection \<open>Every interleaving\<close>

definition demo_dev :: "u128 list \<Rightarrow> nat dev" where
  "demo_dev us = \<lparr>dv_proxy = demo_proxy us 0, dv_base = 4096, dv_mem = (\<lambda>_. 0), dv_copies = 0\<rparr>"

text \<open>Two threads: the first has taken \<open>ks_mutex\<close> to deregister the server, the second is about to
  start a request.\<close>

definition demo_threads :: "u128 list \<Rightarrow> (mutex, nat dev) config" where
  "demo_threads us =
     \<lparr>cf_state = demo_dev us, cf_owner = (\<lambda>_. None)(KsMutex \<mapsto> 0),
      cf_threads = [case de_register_prog of Acquire l p \<Rightarrow> p | p \<Rightarrow> p,
        ioctl_prog demo_sv (kvm_host_server_de_register 240) 0]\<rparr>"

lemma demo_kernel_answers: "kernel_answers demo_sv"
  by (simp add: kernel_answers_def demo_sv_def)

lemma demo_threads_reach:
  "lreach (device_calls K) (idle_config (demo_dev us) 2) (demo_threads us)"
proof -
  let ?p = "ioctl_prog demo_sv (kvm_host_server_de_register 240) 0"
  let ?c = "idle_config (demo_dev us) 2 :: (mutex, nat dev) config"
  let ?c1 = "?c\<lparr>cf_threads := [?p, Finished 0]\<rparr>" and ?c2 = "?c\<lparr>cf_threads := [?p, ?p]\<rparr>"
  have p: "?p \<in> device_calls K" by (rule device_calls.request [OF demo_kernel_answers])
  have "lcall (device_calls K) ?c ?c1"
    using lcall.call [of 0 ?c 0 ?p "device_calls K"] p by (simp add: idle_config_def numeral_2_eq_2)
  moreover have "lcall (device_calls K) ?c1 ?c2"
    using lcall.call [of 1 ?c1 0 ?p "device_calls K"] p by (simp add: idle_config_def)
  moreover
  have "lsched ?c2 [0, 0] = Some (demo_threads us)"
    by (simp add: lexec_def idle_config_def demo_threads_def ioctl_prog_def atomic_def Let_def demo_dev_def
        de_register_prog_def kvm_host_server_register_def kvm_host_server_de_register_def ioc_def)
  then have "lreach (device_calls K) ?c2 (demo_threads us)" by (rule lsched_lreach)
  ultimately show ?thesis
    by - (rule lreach_trans, assumption, rule lreach.call [OF lreach.call [OF lreach.start]])
qed


lemma demo_dev_inv: "length us \<le> 256 \<Longrightarrow> proxy_inv (dv_proxy (demo_dev us))"
  by (simp add: demo_dev_def demo_proxy_inv)


text \<open>C8. The mutexes protect what they are for. In every reachable situation a step of a thread
  that does not hold \<open>ks_mutex\<close> leaves the registration of the server as it is, and a step of
  a thread that does not hold \<open>table_mutex\<close> leaves the module table and its block as they
  are.\<close>

theorem mutexes_protect_data:
  assumes "proxy_inv (dv_proxy s)"
    and "lreach (device_calls (kmodules (dv_proxy s))) (idle_config s n) c" and "lstep c j c'"
  shows "(cf_owner c KsMutex = Some j \<or> ks (dv_proxy (cf_state c')) = ks (dv_proxy (cf_state c))) \<and>
    (cf_owner c TableMutex = Some j \<or> dev_table (cf_state c') = dev_table (cf_state c))"
proof -
  have inv: "sp_inv (device_spec (kmodules (dv_proxy s))) s"
    using assms(1) by (simp add: device_inv_def)
  from device.reachable_exclusion [OF inv assms(2,3), of KsMutex]
    device.reachable_exclusion [OF inv assms(2,3), of TableMutex]
  show ?thesis by (auto simp: device_same_def)
qed

theorem mutexes_protect_data_witness:
  "\<exists>c'. lstep (demo_threads [5]) 1 c' \<and>
     ks (dv_proxy (cf_state c')) = ks (dv_proxy (cf_state (demo_threads [5])))"
proof -
  let ?c = "demo_threads [5]"
  have "\<exists>c'. lexec ?c 1 = Some c'"
    by (simp add: lexec_def demo_threads_def ioctl_prog_def atomic_def)
  then obtain c' where c': "lstep ?c 1 c'" using lexec_lstep by blast
  from mutexes_protect_data [OF demo_dev_inv demo_threads_reach c'] c' show ?thesis
    by (auto simp: demo_threads_def)
qed

text \<open>C7. The mutexes cannot deadlock. \<open>cdev_mutex\<close>, \<open>ks_mutex\<close> and \<open>table_mutex\<close> are taken in
  this order only and released by everybody, so in every reachable situation some thread can
  go on unless all have finished or one has faulted. As there is no infinite run without new
  calls, every request, write and insertion ends, whatever the scheduler does.\<close>

theorem handlers_never_deadlock:
  assumes "proxy_inv (dv_proxy s)"
    and "lreach (device_calls (kmodules (dv_proxy s))) (idle_config s n) c"
  shows "((\<exists>j c'. lstep c j c') \<or> (\<forall>p\<in>set (cf_threads c). finished p) \<or> (\<exists>p\<in>set (cf_threads c). faulted p)) \<and>
    wf {(c2, c1 :: (mutex, 'e dev) config). \<exists>i. lstep c1 i c2}"
proof (intro conjI wf_lstep)
  have inv: "sp_inv (device_spec (kmodules (dv_proxy s))) s"
    using assms(1) by (simp add: device_inv_def)
  show "(\<exists>j c'. lstep c j c') \<or> (\<forall>p\<in>set (cf_threads c). finished p) \<or> (\<exists>p\<in>set (cf_threads c). faulted p)"
    using device.reachable_progress [OF inv assms(2)] by (metis in_set_conv_nth)
qed

theorem handlers_never_deadlock_witness: "\<exists>j c'. lstep (demo_threads [5]) j c'"
proof -
  have "\<not> finished p \<and> \<not> faulted p" if "p \<in> set (cf_threads (demo_threads [5]))" for p
    using that by (auto simp: demo_threads_def de_register_prog_def ioctl_prog_def atomic_def)
  then have "\<not> (\<forall>p\<in>set (cf_threads (demo_threads [5])). finished p)"
    "\<not> (\<exists>p\<in>set (cf_threads (demo_threads [5])). faulted p)"
    by (auto simp: demo_threads_def)
  with handlers_never_deadlock [OF demo_dev_inv demo_threads_reach, of "[5]"] show ?thesis by auto
qed

subsection \<open>A fault under a mutex\<close>

text \<open>C37. An insertion that faults inside \<open>send_event\<close>, because the file pointer of the
  registered server is bad, dies with \<open>ks_mutex\<close> in hand. The mutex is never released again:
  whoever waits for it at any later time, to register, to deregister or to insert a module,
  waits forever, whatever else is called meanwhile.\<close>

theorem fault_keeps_mutex:
  assumes "mt_inv (ptable (dv_proxy s))" and "lt_put_ok (kr (dev_table s)) (dev_table s)"
    and "kmodules (dv_proxy s) md = Some km" and "ks (dv_proxy s) = Some sr"
    and "eventfd_ctx_fileget sv (ks_fp sr) = Crash e"
  shows "\<exists>c. lsched \<lparr>cf_state = s, cf_owner = (\<lambda>_. None), cf_threads = put_module_prog sv kr u ns md # ps\<rparr>
        (replicate 10 0) = Some c \<and>
      cf_threads c ! 0 = Faulted e \<and> cf_owner c KsMutex = Some 0 \<and>
      (\<nexists>H c1 m p c2. lreach H c c1 \<and> m < length (cf_threads c1) \<and> cf_threads c1 ! m = Acquire KsMutex p \<and>
         lreach H c1 c2 \<and> cf_threads c2 ! m \<noteq> Acquire KsMutex p)"
proof -
  obtain c where c: "lsched \<lparr>cf_state = s, cf_owner = (\<lambda>_. None), cf_threads = put_module_prog sv kr u ns md # ps\<rparr>
        (replicate 10 0) = Some c" "0 < length (cf_threads c)" "cf_threads c ! 0 = Faulted e" "cf_owner c KsMutex = Some 0"
    using insertion_fault_run [of s kr md km sr sv e u ns ps] assms by metis
  have "cf_threads c2 ! m = Acquire KsMutex p"
    if "lreach H c c1" "m < length (cf_threads c1)" "cf_threads c1 ! m = Acquire KsMutex p" "lreach H c1 c2"
    for H c1 m p c2
    using dead_owner [OF that(1) c(2-4)] dead_owner [OF that(4), of 0 e KsMutex] that(2,3) c(2) by auto
  with c show ?thesis by blast
qed

theorem fault_keeps_mutex_witness:
  "\<exists>c. lsched \<lparr>cf_state = (demo_dev [5])\<lparr>dv_proxy := (demo_server [5] 0)\<lparr>ks := Some \<lparr>ks_pid = 42, ks_fp = 7\<rparr>\<rparr>\<rparr>,
        cf_owner = (\<lambda>_. None),
        cf_threads = [put_module_prog demo_sv (\<lambda>_. (None, 0)) 6 0 64, register_prog demo_sv 5]\<rparr>
       (replicate 10 0) = Some c \<and>
     (\<nexists>H c2. lreach H c c2 \<and> cf_threads c2 ! 1 \<noteq> register_prog demo_sv 5)"
proof -
  let ?s = "(demo_dev [5])\<lparr>dv_proxy := (demo_server [5] 0)\<lparr>ks := Some \<lparr>ks_pid = 42, ks_fp = 7\<rparr>\<rparr>\<rparr>"
  let ?c0 = "\<lparr>cf_state = ?s, cf_owner = (\<lambda>_. None),
    cf_threads = [put_module_prog demo_sv (\<lambda>_. (None, 0)) 6 0 64, register_prog demo_sv 5]\<rparr>"
  have s: "mt_inv (ptable (dv_proxy ?s))" "lt_put_ok (None, 0) (dev_table ?s)"
      "kmodules (dv_proxy ?s) 64 = Some demo_module" "ks (dv_proxy ?s) = Some \<lparr>ks_pid = 42, ks_fp = 7\<rparr>"
      "eventfd_ctx_fileget demo_sv (ks_fp \<lparr>ks_pid = 42, ks_fp = 7\<rparr>) = Crash BadPointer"
    by (simp_all add: demo_server_def demo_table_inv lt_put_ok_def mt_put_ok_def demo_sv_def)
  have "\<exists>c. lsched ?c0 (replicate 10 0) = Some c \<and> cf_threads c ! 0 = Faulted BadPointer \<and>
      cf_owner c KsMutex = Some 0 \<and>
      (\<nexists>H c1 m p c2. lreach H c c1 \<and> m < length (cf_threads c1) \<and> cf_threads c1 ! m = Acquire KsMutex p \<and>
         lreach H c1 c2 \<and> cf_threads c2 ! m \<noteq> Acquire KsMutex p)"
    by (rule fault_keeps_mutex [where kr = "\<lambda>_. (None, 0)" and ps = "[register_prog demo_sv 5]", OF s])
  then obtain c where c: "lsched ?c0 (replicate 10 0) = Some c"
    and dead: "\<nexists>H c1 m p c2. lreach H c c1 \<and> m < length (cf_threads c1) \<and>
      cf_threads c1 ! m = Acquire KsMutex p \<and> lreach H c1 c2 \<and> cf_threads c2 ! m \<noteq> Acquire KsMutex p"
    by blast
  have "length (cf_threads c) = 2 \<and> cf_threads c ! 1 = register_prog demo_sv 5"
    using lsched_others [OF c, of 0 1] by simp
  then have "1 < length (cf_threads c)" "cf_threads c ! 1 = register_prog demo_sv 5"
    by simp_all
  then have "\<nexists>H c2. lreach H c c2 \<and> cf_threads c2 ! 1 \<noteq> register_prog demo_sv 5"
    using dead lreach.start [of _ c] by (simp add: register_prog_def) blast
  with c show ?thesis by blast
qed

subsection \<open>The server's table\<close>



end
