(* ===== verification/Entry_Copies.thy ===== *)
theory Entry_Copies
  imports Host_Server
begin

text \<open>
  The copies that \<open>process_entry\<close> makes of table entries with \<open>table_entry_at_index_copy\<close>: the
  function holds at most one, in \<open>ptr\<close>, but overwrites \<open>ptr\<close> at two places without freeing it.
  Every stage of \<open>Host_Server\<close> is written again with the number of copies that are allocated
  as a further argument and result; forgetting the number gives the stage back.
\<close>

subsection \<open>The stages with their copies\<close>

type_synonym 'e counted = "(int \<times> 'e world \<times> int) option exec"

definition tally :: "int \<Rightarrow> (int \<times> 'e world) option exec \<Rightarrow> 'e counted" where
  "tally n x = exec_bind x (\<lambda>y. Ret (map_option (\<lambda>(r, w). (r, w, n)) y))"

definition uncounted :: "'e counted \<Rightarrow> (int \<times> 'e world) option exec" where
  "uncounted x = exec_bind x (\<lambda>y. Ret (map_option (\<lambda>(r, w, n). (r, w)) y))"

text \<open>In the stages \<open>n\<close> counts the copy in \<open>ptr\<close>; at \<open>out\<close> it is freed.\<close>

definition pe_start_cpu_counted :: "'e pe_env \<Rightarrow> int \<Rightarrow> 'e world \<Rightarrow> int \<Rightarrow> 'e counted" where
  "pe_start_cpu_counted env i w n =
     exec_bind (table_entry_at_index_copy (pe_copy_regs env) i (wtable w)) (\<lambda>ptr.
       if ptr = None then Ret (Some (-1, w, n - 1))
       else tally (n - 1)
         (if pe_set_regs env initial_regs < 0 then Ret (Some (pe_set_regs env initial_regs, w))
          else kvm_run_loop (pe_run env) i (pe_exits env initial_regs) w))"

definition pe_vcpu_counted :: "'e pe_env \<Rightarrow> int \<Rightarrow> 'e world \<Rightarrow> int \<Rightarrow> 'e counted" where
  "pe_vcpu_counted env i w n =
     (if pe_vcpufd env < 0 then tally (n - 1) (pe_fail i (-1) w)
      else exec_bind (table_set_xxx i (\<lambda>e. e\<lparr>vcpufd := pe_vcpufd env\<rparr>) (wtable w)) (\<lambda>t.
        let w1 = w\<lparr>wtable := t\<rparr> in
        if errno t < 0 then tally (n - 1) (pe_fail i (-1) w1)
        else if pe_mmap_size env < 0 then tally (n - 1) (pe_fail i (-1) w1)
        else if pe_mmap_size env < pe_sizeof_run env then Ret (Some (-1, w1, n - 1))
        else if pe_run env = 0 then Ret (Some (-1, w1, n - 1))
        else if pe_get_sregs env < 0 then Ret (Some (pe_get_sregs env, w1, n - 1))
        else if pe_set_sregs env < 0 then Ret (Some (pe_set_sregs env, w1, n - 1))
        else pe_start_cpu_counted env i w1 n))"

definition pe_send_counted :: "'e pe_env \<Rightarrow> int \<Rightarrow> UUID_table \<Rightarrow> 'e world \<Rightarrow> int \<Rightarrow> 'e counted" where
  "pe_send_counted env i ptr w n =
     exec_bind (send_packet (pe_sv env) (pe_packet env) (uuid ptr) (memory ptr) w) (\<lambda>(r, w1).
       if r < 0 then tally (n - 1) (pe_fail i r w1)
       else exec_bind (table_entry_at_index_copy (pe_copy_sent env) i (wtable w1)) (\<lambda>ptr'.
         if ptr' = None then Ret (Some (-1, w1, n - 1)) else pe_vcpu_counted env i w1 n))"

text \<open>The second reload overwrites \<open>ptr\<close> without freeing the copy it points to.\<close>

definition pe_memory_counted :: "'e pe_env \<Rightarrow> int \<Rightarrow> UUID_table \<Rightarrow> 'e world \<Rightarrow> int \<Rightarrow> 'e counted" where
  "pe_memory_counted env i ptr w n =
     exec_bind (initialize_memory_uuid (pe_init env) (uuid ptr) w) (\<lambda>(r, w1).
       if r < 0 then tally (n - 1) (pe_fail i r w1)
       else exec_bind (table_entry_at_index_copy (pe_copy_mem env) i (wtable w1)) (\<lambda>ptr'.
         case ptr' of
           None \<Rightarrow> Ret (Some (-1, w1, n))
         | Some e \<Rightarrow> pe_send_counted env i e w1 (n + 1)))"

definition pe_create_vm_counted :: "'e pe_env \<Rightarrow> int \<Rightarrow> UUID_table \<Rightarrow> 'e world \<Rightarrow> int \<Rightarrow> 'e counted" where
  "pe_create_vm_counted env i ptr w n =
     (if pe_vmfd env < 0 then tally (n - 1) (pe_fail i (-1) w)
      else exec_bind (table_set_xxx i (\<lambda>e. e\<lparr>vmfd := pe_vmfd env\<rparr>) (wtable w)) (\<lambda>t.
        let w1 = w\<lparr>wtable := t\<rparr> in
        if errno t < 0 then tally (n - 1) (pe_fail i (-1) w1) else pe_memory_counted env i ptr w1 n))"

text \<open>The loop overwrites \<open>ptr\<close> at every turn. \<open>held\<close>: \<open>ptr\<close> is not null.\<close>

primrec pe_scan_counted :: "'e pe_env \<Rightarrow> nat list \<Rightarrow> 'e world \<Rightarrow> bool \<Rightarrow> int \<Rightarrow> 'e counted" where
  "pe_scan_counted env [] w held n = Ret (Some (0, w, if held then n - 1 else n))"
| "pe_scan_counted env (i # is) w held n =
     exec_bind (table_entry_at_index_copy (pe_copy env i) (int i) (wtable w)) (\<lambda>p.
       case p of
         None \<Rightarrow> Ret (Some (-1, w, n))
       | Some ptr \<Rightarrow>
           if processed ptr \<and> could_not_process ptr then Ret (Some (-1, w, n))
           else if \<not> processed ptr \<and> \<not> could_not_process ptr
             then pe_create_vm_counted env (int i) ptr w (n + 1)
           else pe_scan_counted env is w True (n + 1))"

definition process_entry_counted :: "'e pe_env \<Rightarrow> 'e world \<Rightarrow> int \<Rightarrow> 'e counted" where
  "process_entry_counted env w n =
     (let num_entries = get_table_num_entries (wtable w) in
      if num_entries = 0 then Ret (Some (0, w, n))
      else if num_entries < 0 then Ret (Some (-1, w, n))
      else pe_scan_counted env [0..<nat num_entries] w False n)"

subsection \<open>Forgetting the copies\<close>

lemma uncounted_simps [simp]:
  "uncounted (Ret (Some (r, w, n))) = Ret (Some (r, w))" "uncounted (Crash e) = Crash e"
  "uncounted (exec_bind x f) = exec_bind x (\<lambda>y. uncounted (f y))" "uncounted (tally n y) = y"
proof -
  show "uncounted (tally n y) = y"
  proof (cases y)
    case (Ret z)
    then show ?thesis by (cases z) (auto simp: uncounted_def tally_def)
  qed (simp add: uncounted_def tally_def)
qed (simp_all add: uncounted_def exec_bind_assoc)

lemma uncounted_stages [simp]:
  "uncounted (pe_start_cpu_counted env i w n) = pe_start_cpu env i w"
  "uncounted (pe_vcpu_counted env i w n) = pe_vcpu env i w"
  "uncounted (pe_send_counted env i ptr w n) = pe_send env i ptr w"
  "uncounted (pe_memory_counted env i ptr w n) = pe_memory env i ptr w"
  "uncounted (pe_create_vm_counted env i ptr w n) = pe_create_vm env i ptr w"
proof -
  show start: "uncounted (pe_start_cpu_counted env i w n) = pe_start_cpu env i w" for i w n
    unfolding pe_start_cpu_counted_def pe_start_cpu_def by (auto intro!: exec_bind_cong)
  show vcpu: "uncounted (pe_vcpu_counted env i w n) = pe_vcpu env i w" for i w n
    unfolding pe_vcpu_counted_def pe_vcpu_def Let_def by (auto simp: start intro!: exec_bind_cong)
  show send: "uncounted (pe_send_counted env i ptr w n) = pe_send env i ptr w" for i ptr w n
    unfolding pe_send_counted_def pe_send_def by (auto simp: vcpu intro!: exec_bind_cong)
  show mem: "uncounted (pe_memory_counted env i ptr w n) = pe_memory env i ptr w" for i ptr w n
    unfolding pe_memory_counted_def pe_memory_def
    by (auto simp: send intro!: exec_bind_cong split: option.split)
  show "uncounted (pe_create_vm_counted env i ptr w n) = pe_create_vm env i ptr w"
    unfolding pe_create_vm_counted_def pe_create_vm_def Let_def by (auto simp: mem intro!: exec_bind_cong)
qed

lemma uncounted_scan: "uncounted (pe_scan_counted env is w held n) = pe_scan env is w"
  by (induction "is" arbitrary: held n) (auto intro!: exec_bind_cong split: option.split)

lemma uncounted_process_entry: "uncounted (process_entry_counted env w n) = process_entry env w"
  by (simp add: process_entry_counted_def process_entry_def Let_def uncounted_scan)

subsection \<open>How many copies stay\<close>

lemma tally_iff [simp]: "tally k x = Ret (Some (r, w', m)) \<longleftrightarrow> x = Ret (Some (r, w')) \<and> m = k"
  by (auto simp: tally_def exec_bind_eq_Ret_iff)

lemma uncounted_RetD: "uncounted x = Ret (Some (r, w)) \<Longrightarrow> \<exists>n. x = Ret (Some (r, w, n))"
  by (auto simp: uncounted_def exec_bind_eq_Ret_iff)

lemma pe_fail_result: "pe_fail i x w = Ret (Some (r, w')) \<Longrightarrow> r = x"
  by (auto simp: pe_fail_def exec_bind_eq_Ret_iff)

lemma start_cpu_frees: "pe_start_cpu_counted env i w n = Ret (Some (r, w', m)) \<Longrightarrow> m = n - 1"
  by (auto simp: pe_start_cpu_counted_def exec_bind_eq_Ret_iff split: if_splits)

lemma vcpu_frees: "pe_vcpu_counted env i w n = Ret (Some (r, w', m)) \<Longrightarrow> m = n - 1"
  by (auto simp: pe_vcpu_counted_def exec_bind_eq_Ret_iff Let_def split: if_splits dest: start_cpu_frees)

lemma send_frees: "pe_send_counted env i ptr w n = Ret (Some (r, w', m)) \<Longrightarrow> m = n - 1"
  by (auto simp: pe_send_counted_def exec_bind_eq_Ret_iff split: if_splits dest: vcpu_frees)

lemma memory_leaks:
  "pe_memory_counted env i ptr w n = Ret (Some (r, w', m)) \<Longrightarrow> m = n \<or> m = n - 1 \<and> r < 0"
proof -
  assume c: "pe_memory_counted env i ptr w n = Ret (Some (r, w', m))"
  then obtain a w1 where w1: "initialize_memory_uuid (pe_init env) (uuid ptr) w = Ret (a, w1)"
    by (auto simp: pe_memory_counted_def exec_bind_eq_Ret_iff)
  show "m = n \<or> m = n - 1 \<and> r < 0"
  proof (cases "a < 0")
    case True
    with c w1 show ?thesis by (auto simp: pe_memory_counted_def dest: pe_fail_result)
  next
    case False
    with c w1 consider "m = n" | e where "pe_send_counted env i e w1 (n + 1) = Ret (Some (r, w', m))"
      by (auto simp: pe_memory_counted_def exec_bind_eq_Ret_iff split: option.splits)
    then show ?thesis by cases (auto dest: send_frees)
  qed
qed

lemma create_vm_leaks:
  "pe_create_vm_counted env i ptr w n = Ret (Some (r, w', m)) \<Longrightarrow> m = n \<or> m = n - 1 \<and> r < 0"
  by (auto simp: pe_create_vm_counted_def exec_bind_eq_Ret_iff Let_def split: if_splits
      dest: memory_leaks pe_fail_result)

lemma scan_counted_skip:
  assumes "winv w" and "\<And>j. pe_copy env j"
    and "\<forall>j\<in>set js. j < length (wentries w) \<and> entry_done (wentries w ! j) \<and> flags_ok (wentries w ! j)"
  shows "pe_scan_counted env (js @ is) w held n =
    pe_scan_counted env is w (held \<or> js \<noteq> []) (n + int (length js))"
  using assms(3)
proof (induction js arbitrary: held n)
  case (Cons j js)
  then show ?case
    using assms(1,2) by (auto simp: copy_entry entry_done_def flags_ok_def ac_simps)
qed simp

lemma process_entry_counted_scan:
  assumes "winv w" and "length (wentries w) < 2 ^ 31" and "\<And>j. pe_copy env j"
    and "i \<le> length (wentries w)" and "wentries w \<noteq> []"
    and "\<forall>j < i. entry_done (wentries w ! j) \<and> flags_ok (wentries w ! j)"
  shows "process_entry_counted env w n =
    pe_scan_counted env [i..<length (wentries w)] w (i \<noteq> 0) (n + int i)"
proof -
  have "[0..<length (wentries w)] = [0..<i] @ [i..<length (wentries w)]"
    using assms(4) by (metis upt_add_eq_append le_add_diff_inverse zero_le)
  with scan_counted_skip [OF assms(1,3), of "[0..<i]" "[i..<length (wentries w)]" False n] assms(4,6)
  have "pe_scan_counted env [0..<length (wentries w)] w False n =
      pe_scan_counted env [i..<length (wentries w)] w (i \<noteq> 0) (n + int i)"
    by auto
  with num_entries_small [OF assms(1,2)] assms(5) show ?thesis
    by (simp add: process_entry_counted_def Let_def)
qed

end
