(* ===== verification/Ledger_Properties.thy ===== *)
theory Ledger_Properties
  imports Demo_Systems Entry_Copies Locking_Properties
begin

text \<open>
  Properties about memory that is allocated and not freed: the copies of table entries in the
  server and in the proxy module.
\<close>

subsection \<open>Copies in the server\<close>

text \<open>C38. \<open>process_entry\<close> keeps its promise about entries but not about memory. If the first
  \<open>i\<close> entries are finished and it finds nothing to do, it leaves the copies of all of them but
  the last allocated; if it runs entry \<open>i\<close> to its end, it leaves one copy for each entry it
  passed and one of the entry itself. A failure at entry \<open>i\<close> leaves as many, or one less.\<close>

theorem process_entry_leaks:
  assumes "winv w" and "length (wentries w) < 2 ^ 31" and "\<forall>j. pe_copy env j"
    and "i \<le> length (wentries w)" and "wentries w \<noteq> []"
    and "\<forall>j < i. entry_done (wentries w ! j) \<and> flags_ok (wentries w ! j)"
    and "i = length (wentries w) \<or> \<not> entry_done (wentries w ! i)"
    and "process_entry_counted env w n = Ret (Some (r, w', m))"
  shows "process_entry env w = Ret (Some (r, w')) \<and>
    (if i = length (wentries w) then r = 0 \<and> m = n + int i - 1
     else m = n + int i + 1 \<or> (m = n + int i \<and> r < 0))"
proof (intro conjI)
  show "process_entry env w = Ret (Some (r, w'))"
    using uncounted_process_entry [of env w n] assms(8) by simp
  have scan: "pe_scan_counted env [i..<length (wentries w)] w (i \<noteq> 0) (n + int i) = Ret (Some (r, w', m))"
    using process_entry_counted_scan [OF assms(1,2) _ assms(4-6), of env n] assms(3,8) by simp
  show "if i = length (wentries w) then r = 0 \<and> m = n + int i - 1
     else m = n + int i + 1 \<or> (m = n + int i \<and> r < 0)"
  proof (cases "i = length (wentries w)")
    case True
    with scan assms(5) show ?thesis by auto
  next
    case False
    with assms(4) have i: "i < length (wentries w)" by simp
    with scan False assms(1,3,7) have
      "pe_create_vm_counted env (int i) (wentries w ! i) w (n + int i + 1) = Ret (Some (r, w', m))"
      by (simp add: upt_conv_Cons copy_entry entry_done_def ac_simps)
    from create_vm_leaks [OF this] False show ?thesis by auto
  qed
qed

theorem process_entry_leaks_witness:
  "\<exists>w' m. process_entry_counted (demo_pe [(0, ExitHlt)])
      (demo_world [4, 5] 2 [demo_done 4, new_entry 5 demo_memory]) 0 = Ret (Some (1, w', m)) \<and> m = 2"
proof -
  let ?w = "demo_world [4, 5] 2 [demo_done 4, new_entry 5 demo_memory]" and ?env = "demo_pe ([] @ [(0, ExitHlt)])"
  have [simp]: "uuid (new_entry u m) = u" "memory (new_entry u m) = m" "\<not> entry_done (new_entry u m)" for u m
    by (simp_all add: new_entry_def entry_done_def)
  have [simp]: "entry_done (demo_done u)" for u by (simp add: entry_done_def)
  have w: "winv ?w" "1 < length (wentries ?w)" "length (wentries ?w) < 2 ^ 31"
      "distinct (map uuid (wentries ?w))" "\<forall>j < 1. entry_done (wentries ?w ! j) \<and> flags_ok (wentries ?w ! j)"
      "\<not> entry_done (wentries ?w ! 1)" "knows (wproxy ?w) (uuid (wentries ?w ! 1)) demo_module"
      "wmajor ?w = lxc_uio_cdev_major_number (wproxy ?w)" "pe_env_ok ?env []"
      "num_regions (memory (wentries ?w ! 1)) = 0" "vm_memory_ok (memory (wentries ?w ! 1))"
    by (simp_all add: demo_world_inv demo_knows demo_pe_ok del: append_Nil)
  obtain w' where "process_entry ?env ?w = Ret (Some (1, w'))"
    by (rule process_entry_ok [OF w])
  then obtain m where m: "process_entry_counted ?env ?w 0 = Ret (Some (1, w', m))"
    using uncounted_RetD [of "process_entry_counted ?env ?w 0"] by (simp add: uncounted_process_entry) blast
  from process_entry_leaks [OF w(1,3) _ _ _ w(5) _ m] w(2,6) have "m = 2"
    by (simp add: demo_pe_def)
  with m show ?thesis by auto
qed

subsection \<open>Copies in the kernel\<close>

primrec run_calls :: "'e dprog list \<Rightarrow> 'e dev \<Rightarrow> 'e dev exec" where
  "run_calls [] s = Ret s"
| "run_calls (p # ps) s = exec_bind (run_alone p s) (\<lambda>(r, s1). run_calls ps s1)"

text \<open>A request (its number and parameter) or a write (the address of the packet).\<close>

definition device_call :: "'e kservices \<Rightarrow> (u32 \<times> u64) + u64 \<Rightarrow> 'e dprog" where
  "device_call sv c = (case c of Inl (num, param) \<Rightarrow> ioctl_prog sv num param | Inr buff \<Rightarrow> write_prog sv buff)"

text \<open>C39. The kernel loses a block of memory with every module the server accepts. Over any
  sequence of calls, each request frees the copy of the entry that it looked up, whatever it
  answers, and each write of a readable packet keeps its copy forever, whether the core area
  was copied out or not.\<close>

theorem kernel_copies_leak:
  assumes "kmalloc_mts sv \<noteq> None" and "\<forall>m a. fst (copy_from_user sv m a sizeof_packet) = 0"
    and "run_calls (map (device_call sv) cs) s = Ret s'"
  shows "dv_copies s' = dv_copies s + length (filter (\<lambda>c. \<not> isl c) cs)"
  using assms(3)
proof (induction cs arbitrary: s)
  case (Cons c cs)
  then obtain r s1 where s1: "run_alone (device_call sv c) s = Ret (r, s1)"
      "run_calls (map (device_call sv) cs) s1 = Ret s'"
    by (auto simp: exec_bind_eq_Ret_iff)
  obtain bs where bs: "copy_from_user sv (dv_mem s) (projr c) sizeof_packet = (0, bs)"
    using assms(2) by (metis prod.collapse)
  have "dv_copies s1 = dv_copies s + (if isl c then 0 else 1)"
    using s1(1) write_copies [OF _ assms(1) bs, of r s1]
    by (cases c) (auto simp: device_call_def dest: ioctl_copies)
  with Cons.IH [OF s1(2)] show ?case by simp
qed simp

theorem kernel_copies_leak_witness:
  "\<exists>s'. run_calls (map (device_call demo_sv) [Inl (99, 0), Inr 64])
      ((demo_dev [5])\<lparr>dv_mem := umem_write (\<lambda>_. 0) 64 (enc_packet \<lparr>pk_uuid = 5, pk_memory = demo_memory\<rparr>)\<rparr>) =
        Ret s' \<and> dv_copies s' = 1"
proof -
  let ?p = "\<lparr>pk_uuid = 5, pk_memory = demo_memory\<rparr>" and ?st = "demo_proxy [5] 0"
  let ?m = "umem_write (\<lambda>_. 0) 64 (enc_packet ?p)"
  let ?s = "(demo_dev [5])\<lparr>dv_mem := ?m\<rparr>"
  have rd: "copy_from_user demo_sv ?m 64 sizeof_packet = (0, enc_packet ?p)"
    using umem_read_write [of "enc_packet ?p" "\<lambda>_. 0" 64] length_enc_packet [of ?p]
    by (simp add: demo_sv_def sizeof_packet_def)
  obtain g where g: "kmalloc_mts demo_sv = Some g" by (simp add: demo_sv_def)
  have md: "kmodules ?st (mt_module (demo_entry 5)) = Some demo_module" by (simp add: demo_entry_def)
  have entry: "mt_find (pk_uuid ?p) (ptable ?st) = Some (demo_entry 5)" by (simp add: demo_find)
  have "\<exists>m'. process_packet demo_sv ?p ?m ?st = Ret (0, m')"
    using process_packet_ok [OF _ demo_sv_ok(1) g entry md refl accessible_to] by (simp add: demo_proxy_inv)
  then obtain m' where m': "process_packet demo_sv ?p ?m ?st = Ret (0, m')" ..
  have wr: "run_alone (write_prog demo_sv 64) ?s = Ret (304, ?s\<lparr>dv_copies := 1, dv_mem := m'\<rparr>)"
    using rd m' by (simp add: write_prog_def packet_alone dec_enc_packet demo_dev_def sizeof_packet_def)
  have io: "run_alone (ioctl_prog demo_sv 99 0) ?s = Ret (-1, ?s)"
    by (simp add: ioctl_prog_def demo_dev_def Let_def ioc_def kvm_host_server_register_def
        kvm_host_server_de_register_def kvm_host_server_get_pending_module_def
        kvm_host_server_get_uuid_size_def kvm_host_server_get_init_layout_def kvm_host_server_get_core_layout_def)
  have run: "run_calls (map (device_call demo_sv) [Inl (99, 0), Inr 64]) ?s = Ret (?s\<lparr>dv_copies := 1, dv_mem := m'\<rparr>)"
    using wr io by (simp add: device_call_def)
  have "\<forall>m a. fst (copy_from_user demo_sv m a sizeof_packet) = 0" by (simp add: demo_sv_def)
  from kernel_copies_leak [OF demo_sv_ok(3) this run] run show ?thesis by (auto simp: demo_dev_def)
qed

end
