(* ===== verification/Console.thy ===== *)
theory Console
  imports Proc_Entry
begin

text \<open>
  What the server prints about itself: the macros \<open>print_error\<close>, \<open>print_info\<close> and
  \<open>print_warning\<close>, and the backtrace \<open>bt\<close> that every error message ends with
  (\<open>kvm-host-server.c\<close>). A message is the text that \<open>printf\<close> makes of the arguments. The
  results of \<open>backtrace\<close> and \<open>backtrace_symbols\<close> and the text of \<open>%p\<close> are arguments;
  \<open>backtrace_symbols\<close> returns a null pointer when it finds no memory. The lemmas say when an
  error message is printed in full and when printing it crashes the server.
\<close>

subsection \<open>Colours and messages\<close>

definition ERROR :: string where
  "ERROR = CHR 0x1B # ''[31m''"

definition INFO :: string where
  "INFO = CHR 0x1B # ''[36m''"

definition WARN :: string where
  "WARN = CHR 0x1B # ''[32m''"

definition RESET :: string where
  "RESET = CHR 0x1B # ''[0m''"

definition print_info :: "string \<Rightarrow> string" where
  "print_info msg = INFO @ ''[lxc-uio] INFO: '' @ msg @ RESET @ [newline]"

definition print_warning :: "string \<Rightarrow> string" where
  "print_warning msg = WARN @ ''[lxc-uio] WARN: '' @ msg @ RESET @ [newline]"

subsection \<open>Backtraces\<close>

text \<open>The loop over the frames; the first one, \<open>bt\<close> itself, is skipped.\<close>

primrec bt_loop :: "(u64 \<Rightarrow> string) \<Rightarrow> u64 list \<Rightarrow> string list option \<Rightarrow> nat list \<Rightarrow> string exec" where
  "bt_loop fmt_p addresses strings [] = Ret []"
| "bt_loop fmt_p addresses strings (i # is) =
     (case strings of
        None \<Rightarrow> Crash NullDeref
      | Some ss \<Rightarrow>
          exec_bind (bt_loop fmt_p addresses strings is) (\<lambda>out.
            Ret (int_str (int i) @ '': '' @ fmt_p (addresses ! i) @ '' '' @ ss ! i @ [newline] @ out)))"

definition bt :: "(u64 \<Rightarrow> string) \<Rightarrow> u64 list \<Rightarrow> string list option \<Rightarrow> string exec" where
  "bt fmt_p addresses strings =
     (let c = length addresses in
      exec_bind (bt_loop fmt_p addresses strings [1..<c]) (\<lambda>out.
        Ret ([newline] @ ''backtrace: '' @ int_str (int c - 1) @ '' frames '' @ [newline] @ out)))"

definition print_error ::
    "(u64 \<Rightarrow> string) \<Rightarrow> u64 list \<Rightarrow> string list option \<Rightarrow> string \<Rightarrow> int \<Rightarrow> string \<Rightarrow> string exec" where
  "print_error fmt_p addresses strings file line msg =
     exec_bind (bt fmt_p addresses strings) (\<lambda>b.
       Ret (ERROR @ ''[lxc-uio] ERROR: '' @ msg @ '' file-name['' @ file @ ''] line-number['' @ int_str line @
            '']'' @ RESET @ b @ [newline]))"

definition bt_frame :: "(u64 \<Rightarrow> string) \<Rightarrow> nat \<Rightarrow> u64 \<Rightarrow> string \<Rightarrow> string" where
  "bt_frame fmt_p i a s = int_str (int i) @ '': '' @ fmt_p a @ '' '' @ s @ [newline]"

lemma bt_loop_Some:
  "bt_loop fmt_p addresses (Some ss) is = Ret (concat (map (\<lambda>i. bt_frame fmt_p i (addresses ! i) (ss ! i)) is))"
  by (induction "is") (simp_all add: bt_frame_def)

text \<open>With the symbols at hand the message is complete, with one line for each frame but the
  first.\<close>

lemma print_error_Some:
  "print_error fmt_p addresses (Some ss) file line msg =
     Ret (ERROR @ ''[lxc-uio] ERROR: '' @ msg @ '' file-name['' @ file @ ''] line-number['' @ int_str line @
          '']'' @ RESET @ [newline] @ ''backtrace: '' @ int_str (int (length addresses) - 1) @ '' frames '' @ [newline] @
          concat (map (\<lambda>i. bt_frame fmt_p i (addresses ! i) (ss ! i)) [1..<length addresses]) @ [newline])"
  by (simp add: print_error_def bt_def Let_def bt_loop_Some)

text \<open>Without memory for the symbols the server crashes while it reports an error, unless the
  backtrace is too short to print a frame.\<close>

lemma print_error_crash_iff:
  "print_error fmt_p addresses strings file line msg = Crash e \<longleftrightarrow>
     e = NullDeref \<and> strings = None \<and> 2 \<le> length addresses"
proof (cases strings)
  case None
  show ?thesis
  proof (cases "2 \<le> length addresses")
    case True
    then have "[1..<length addresses] = 1 # [2..<length addresses]" by (simp add: upt_conv_Cons numeral_2_eq_2)
    with None True show ?thesis by (auto simp: print_error_def bt_def Let_def)
  next
    case False
    then have "[1..<length addresses] = []" by simp
    with None False show ?thesis by (simp add: print_error_def bt_def Let_def)
  qed
qed (simp add: print_error_Some)

end
