(* ===== verification/Module_Glue.thy ===== *)
theory Module_Glue
  imports Module_Header
begin

text \<open>
  What the kernel build adds to the proxy (\<open>lxc-uio-proxy.mod.c\<close>): the module object with its
  entry points and the list of kernel symbols the module was built against, one
  \<open>struct modversion_info\<close> per symbol. The list says which kernel functions the object code
  calls, so it is compared with what the modelled source calls.
\<close>

record this_module =
  tm_name :: string
  tm_init :: string
  tm_exit :: "string option"

text \<open>\<open>KBUILD_MODNAME\<close> is defined on the command line of the compiler.\<close>

definition this_module :: "string \<Rightarrow> kconfig \<Rightarrow> this_module" where
  "this_module modname C =
     \<lparr>tm_name = modname, tm_init = ''init_module'',
      tm_exit = (if MODULE_UNLOAD C then Some ''cleanup_module'' else None)\<rparr>"

definition versions :: "(u64 \<times> string) list" where
  "versions =
     [(0xeb9dcc92, ''module_layout''),
      (0x2e5255f9, ''single_release''),
      (0x9a8735a8, ''seq_read''),
      (0x8c75b67, ''seq_lseek''),
      (0x941f2aaa, ''eventfd_ctx_put''),
      (0xdf0f75c6, ''eventfd_signal''),
      (0x862bcd13, ''eventfd_ctx_fileget''),
      (0x7195c878, ''remove_proc_entry''),
      (0x5319c70d, ''proc_create_data''),
      (0x9e62ee8, ''lxc_uio_proxy_put_module''),
      (0x6430637, ''find_symbol''),
      (0x4c156e94, ''module_mutex''),
      (0xdb7305a1, ''__stack_chk_fail''),
      (0x2ef0e183, ''current_task''),
      (0x4f8b5ddb, ''_copy_to_user''),
      (0x37a0cba, ''kfree''),
      (0x4f6b400b, ''_copy_from_user''),
      (0x4db54248, ''kmem_cache_alloc_trace''),
      (0x237d03ad, ''kmalloc_caches''),
      (0x7c2d098f, ''krealloc''),
      (0xd2b09ce5, ''__kmalloc''),
      (0x5f122761, ''device_destroy''),
      (0x29c28ad8, ''cdev_add''),
      (0x9d1bde47, ''cdev_init''),
      (0x49b450a1, ''cdev_alloc''),
      (0x5c2c45e9, ''class_destroy''),
      (0x45d942a0, ''device_create''),
      (0x7485e15e, ''unregister_chrdev_region''),
      (0xc70469d7, ''__class_create''),
      (0x27e1a049, ''printk''),
      (0x29537c9e, ''alloc_chrdev_region''),
      (0xe96b5235, ''seq_printf''),
      (0xa7d5b7c8, ''single_open''),
      (0x5131f665, ''mutex_unlock''),
      (0x9970a00, ''mutex_lock''),
      (0xbdfb6dbb, ''__fentry__'')]"

definition module_depends :: string where
  "module_depends = ''depends=''"

definition srcversion :: string where
  "srcversion = ''6116661F5C266355F4C8BF3''"

text \<open>The operations of the proc file name a function of the module or one of the kernel; the
  module's opens a sequence file over \<open>lxc_uio_proc_show\<close> by a call of the kernel.\<close>

datatype file_function = ModuleFunction string | KernelFunction string

definition lxc_uio_proc_ops :: "(string \<times> file_function) list" where
  "lxc_uio_proc_ops =
     [(''open'', ModuleFunction ''lxc_uio_proc_open''),
      (''read'', KernelFunction ''seq_read''),
      (''llseek'', KernelFunction ''seq_lseek''),
      (''release'', KernelFunction ''single_release'')]"

definition lxc_uio_proc_open :: "(string \<Rightarrow> string \<Rightarrow> 'r) \<Rightarrow> 'r" where
  "lxc_uio_proc_open call = call ''single_open'' ''lxc_uio_proc_show''"

text \<open>The array \<open>____versions\<close> as a C type.\<close>

definition versions_t :: "kernel_types \<Rightarrow> ctype" where
  "versions_t K = Struct (members (map (\<lambda>(_, symbol). (symbol, modversion_info_t K)) versions))"

subsection \<open>The list of symbols\<close>

lemma versions_keys:
  "distinct (map snd versions)" "distinct (map fst versions)" "length versions = 36"
  by code_simp+

text \<open>Every symbol fits into the name field of its record, terminator included, and every
  check sum into 32 bits.\<close>

lemma versions_fit: "list_all (\<lambda>(crc, symbol). crc < 0x100000000 \<and> length symbol < 56) versions"
  by code_simp

lemma versions_size: "c_size (versions_t demo_types) = 36 * 64"
  by code_simp

text \<open>The functions that the modelled source of the proxy calls: at load and unload, in an
  insertion, in a request, in the proc file. The kernel's hook and the lookup of symbols are
  those the patches add.\<close>

lemma versions_cover_source:
  "set [''alloc_chrdev_region'', ''cdev_alloc'', ''cdev_init'', ''cdev_add'', ''__class_create'',
     ''device_create'', ''proc_create_data''] \<subseteq> set (map snd versions)"
  "set [''device_destroy'', ''class_destroy'', ''unregister_chrdev_region'', ''remove_proc_entry'']
     \<subseteq> set (map snd versions)"
  "set [''mutex_lock'', ''mutex_unlock'', ''krealloc'', ''kfree'', ''eventfd_ctx_fileget'',
     ''eventfd_signal'', ''eventfd_ctx_put''] \<subseteq> set (map snd versions)"
  "set [''_copy_to_user'', ''_copy_from_user'', ''single_open'', ''seq_printf'']
     \<subseteq> set (map snd versions)"
  "set [''lxc_uio_proxy_put_module'', ''find_symbol'', ''module_mutex''] \<subseteq> set (map snd versions)"
  by code_simp+

text \<open>Every kernel function that the operations of the proc file name or call is in the list.\<close>

lemma proc_ops_linked:
  "list_all (\<lambda>(_, f). case f of KernelFunction s \<Rightarrow> s \<in> set (map snd versions) | ModuleFunction _ \<Rightarrow> True)
     lxc_uio_proc_ops"
  "lxc_uio_proc_open (\<lambda>f _. f \<in> set (map snd versions))"
  by code_simp+

text \<open>The list names \<open>remove_proc_entry\<close>, which the source calls with \<open>debug_on\<close> only: it was
  generated for a build with it. No record for \<open>cdev_del\<close>: the object code cannot release the cdev object either.\<close>

lemma cdev_del_not_linked: "''cdev_del'' \<notin> set (map snd versions)"
  by code_simp

end
